(* ===== verification/Prelude.thy ===== *)
theory Prelude
  imports Main "HOL-Library.AList" "HOL-Library.Monad_Syntax" "HOL-Library.Sublist"
begin

text \<open>
  Shared vocabulary of the development: what the Go sources use of the language and its
  standard library. A Go run-time panic (nil dereference, write to a nil map, index out of
  range, call of a nil function) is \<open>None\<close> of an option type, and \<open>do\<close> blocks over
  \<open>option\<close> sequence the statements of a function; an \<open>error\<close> value is data. Maps are
  association lists, with \<open>None\<close> for the nil map; strings are byte lists.
\<close>

named_theorems go_simps \<open>rewrite rules for Go maps, strings and errors\<close>

section \<open>Errors\<close>

text \<open>
  The shapes of error values the sources build: \<open>errors.New\<close> and \<open>fmt.Errorf\<close> without a
  wrapped error, API errors with reason NotFound, \<open>plugin.RetryError\<close>,
  \<open>plugin.ChainError\<close>, \<open>fmt.Errorf\<close> with one \<open>%w\<close> at the end, and
  \<open>errors.Join\<close>.
\<close>

datatype error =
    ErrorString string
  | NotFoundError string
  | RetryError string
  | ChainError string error
  | WrapError string error
  | JoinError "error list"

fun strings_Join :: "string list \<Rightarrow> string \<Rightarrow> string" where
  "strings_Join [] sep = []"
| "strings_Join [x] sep = x"
| "strings_Join (x # y # zs) sep = x @ sep @ strings_Join (y # zs) sep"

fun Error :: "error \<Rightarrow> string" where
  "Error (ErrorString m) = m"
| "Error (NotFoundError m) = m"
| "Error (RetryError m) = m"
| "Error (ChainError m e) = m @ '': '' @ Error e"
| "Error (WrapError m e) = m @ Error e"
| "Error (JoinError es) = strings_Join (map Error es) [CHR 10]"

text \<open>\<open>errors.As(err, &retryErr)\<close>: search the wrapping tree for a \<open>RetryError\<close>.\<close>

fun as_RetryError :: "error \<Rightarrow> bool" where
  "as_RetryError (RetryError m) = True"
| "as_RetryError (ChainError m e) = as_RetryError e"
| "as_RetryError (WrapError m e) = as_RetryError e"
| "as_RetryError (JoinError es) = (\<exists>e \<in> set es. as_RetryError e)"
| "as_RetryError (ErrorString m) = False"
| "as_RetryError (NotFoundError m) = False"

text \<open>\<open>k8serrors.IsNotFound\<close>, which unwraps in the same way.\<close>

fun IsNotFound :: "error \<Rightarrow> bool" where
  "IsNotFound (NotFoundError m) = True"
| "IsNotFound (ChainError m e) = IsNotFound e"
| "IsNotFound (WrapError m e) = IsNotFound e"
| "IsNotFound (JoinError es) = (\<exists>e \<in> set es. IsNotFound e)"
| "IsNotFound (ErrorString m) = False"
| "IsNotFound (RetryError m) = False"

text \<open>\<open>errors.Join\<close> of a slice of non-nil errors: nil for the empty slice.\<close>

definition errors_Join :: "error list \<Rightarrow> error option" where
  "errors_Join es = (if es = [] then None else Some (JoinError es))"

lemma errors_Join_None [simp]: "errors_Join es = None \<longleftrightarrow> es = []"
  by (simp add: errors_Join_def)

section \<open>Sequencing\<close>

text \<open>Inversion of the two shapes of error handling in a \<open>do\<close> block.\<close>

lemma bind_sum_eq_Some [go_simps]:
  "Option.bind m (case_sum A B) = Some r \<longleftrightarrow>
   (\<exists>e. m = Some (Inl e) \<and> A e = Some r) \<or> (\<exists>x. m = Some (Inr x) \<and> B x = Some r)"
proof (cases m)
  case (Some x)
  then show ?thesis by (cases x) auto
qed simp

lemma bind_err_eq_Some [go_simps]:
  "Option.bind m (\<lambda>(err, w). case err of None \<Rightarrow> B w | Some e \<Rightarrow> A e w) = Some r \<longleftrightarrow>
   (\<exists>w. m = Some (None, w) \<and> B w = Some r) \<or> (\<exists>e w. m = Some (Some e, w) \<and> A e w = Some r)"
proof (cases m)
  case (Some x)
  then show ?thesis by (cases x, cases "fst x") auto
qed simp

lemma bind_err2_eq_Some [go_simps]:
  "Option.bind m (\<lambda>((x, err), w). case err of None \<Rightarrow> B x w | Some e \<Rightarrow> A e x w) = Some r \<longleftrightarrow>
   (\<exists>x w. m = Some ((x, None), w) \<and> B x w = Some r) \<or>
   (\<exists>e x w. m = Some ((x, Some e), w) \<and> A e x w = Some r)"
proof (cases m)
  case (Some x)
  then show ?thesis by (cases x, cases "fst x", cases "snd (fst x)") auto
qed simp

section \<open>Maps\<close>

type_synonym ('k, 'v) gomap = "('k \<times> 'v) list option"

definition gm_make :: "('k, 'v) gomap" where
  "gm_make = Some []"

definition gm_get :: "('k, 'v) gomap \<Rightarrow> 'k \<Rightarrow> 'v option" where
  "gm_get m k = (case m of None \<Rightarrow> None | Some al \<Rightarrow> map_of al k)"

text \<open>Assignment to an entry of a nil map panics.\<close>

definition gm_put :: "'k \<Rightarrow> 'v \<Rightarrow> ('k, 'v) gomap \<Rightarrow> ('k, 'v) gomap option" where
  "gm_put k v m = (case m of None \<Rightarrow> None | Some al \<Rightarrow> Some (Some (AList.update k v al)))"

definition gm_del :: "'k \<Rightarrow> ('k, 'v) gomap \<Rightarrow> ('k, 'v) gomap" where
  "gm_del k m = map_option (AList.delete k) m"

text \<open>The entries a \<open>range\<close> loop visits, each key once.\<close>

definition gm_items :: "('k, 'v) gomap \<Rightarrow> ('k \<times> 'v) list" where
  "gm_items m = (case m of None \<Rightarrow> [] | Some al \<Rightarrow> AList.clearjunk al)"

definition gm_ensure :: "('k, 'v) gomap \<Rightarrow> ('k, 'v) gomap" where
  "gm_ensure m = (case m of None \<Rightarrow> gm_make | Some al \<Rightarrow> Some al)"

text \<open>Reading a string-valued map without the comma-ok form yields the empty string.\<close>

definition gm_str :: "('k, string) gomap \<Rightarrow> 'k \<Rightarrow> string" where
  "gm_str m k = (case gm_get m k of None \<Rightarrow> [] | Some v \<Rightarrow> v)"

lemma gm_get_nil [simp]: "gm_get None k = None"
  by (simp add: gm_get_def)

lemma gm_get_make [simp]: "gm_get gm_make k = None"
  by (simp add: gm_get_def gm_make_def)

lemma gm_get_ensure [simp]: "gm_get (gm_ensure m) = gm_get m"
  by (auto simp: gm_get_def gm_ensure_def gm_make_def fun_eq_iff split: option.splits)

lemma gm_ensure_not_nil [simp]: "gm_ensure m \<noteq> None"
  by (auto simp: gm_ensure_def gm_make_def split: option.splits)

lemma gm_ensure_Some [simp]: "gm_ensure (Some al) = Some al"
  by (simp add: gm_ensure_def)

lemma gm_put_nil [simp]: "gm_put k v None = None"
  by (simp add: gm_put_def)

lemma bind_gm_put_eq_Some [go_simps]:
  "Option.bind (gm_put k v m) f = Some r \<longleftrightarrow> (\<exists>m'. gm_put k v m = Some m' \<and> f m' = Some r)"
  by (rule bind_eq_Some_conv)

lemma gm_put_total: "m \<noteq> None \<Longrightarrow> \<exists>m'. gm_put k v m = Some m'"
  by (auto simp: gm_put_def)

lemma gm_get_put: "gm_put k v m = Some m' \<Longrightarrow> gm_get m' = (gm_get m)(k \<mapsto> v)"
  by (auto simp: gm_put_def gm_get_def update_conv' fun_eq_iff split: option.splits)

lemma gm_put_not_nil: "gm_put k v m = Some m' \<Longrightarrow> m' \<noteq> None"
  by (auto simp: gm_put_def split: option.splits)

lemma gm_get_del [simp]: "gm_get (gm_del k m) = (gm_get m)(k := None)"
  by (cases m) (auto simp: gm_del_def gm_get_def delete_conv' fun_eq_iff)

lemma gm_del_nil [simp]: "gm_del k m = None \<longleftrightarrow> m = None"
  by (simp add: gm_del_def)

lemma gm_items_get: "(k, v) \<in> set (gm_items m) \<longleftrightarrow> gm_get m k = Some v"
  by (auto simp: gm_items_def gm_get_def map_of_clearjunk distinct_clearjunk
      map_of_eq_Some_iff [symmetric] split: option.splits)

text \<open>A property of all entries of a map.\<close>

definition gm_all :: "('k \<Rightarrow> 'v \<Rightarrow> bool) \<Rightarrow> ('k, 'v) gomap \<Rightarrow> bool" where
  "gm_all P m \<longleftrightarrow> (\<forall>k v. gm_get m k = Some v \<longrightarrow> P k v)"

lemma gm_all_make [simp]: "gm_all P gm_make"
  by (simp add: gm_all_def)

lemma gm_allD: "gm_all P m \<Longrightarrow> gm_get m k = Some v \<Longrightarrow> P k v"
  by (simp add: gm_all_def)

lemma gm_all_put: "gm_put k v m = Some m' \<Longrightarrow> gm_all P m \<Longrightarrow> P k v \<Longrightarrow> gm_all P m'"
  by (drule gm_get_put) (simp add: gm_all_def)

lemma gm_make_not_nil [simp]: "gm_make \<noteq> None"
  by (simp add: gm_make_def)

section \<open>Strings\<close>

text \<open>\<open>strings.Split\<close> with a non-empty separator: scan left to right for the separator.\<close>

fun split_acc :: "string \<Rightarrow> string \<Rightarrow> string \<Rightarrow> string list" where
  "split_acc sep acc [] = [rev acc]"
| "split_acc sep acc (c # cs) =
     (if prefix sep (c # cs) then rev acc # split_acc sep [] (drop (length sep - 1) cs)
      else split_acc sep (c # acc) cs)"

definition strings_Split :: "string \<Rightarrow> string \<Rightarrow> string list" where
  "strings_Split s sep = split_acc sep [] s"

fun replace_from :: "string \<Rightarrow> string \<Rightarrow> string \<Rightarrow> string" where
  "replace_from old new [] = []"
| "replace_from old new (c # cs) =
     (if prefix old (c # cs) then new @ replace_from old new (drop (length old - 1) cs)
      else c # replace_from old new cs)"

text \<open>\<open>strings.ReplaceAll\<close> with a non-empty pattern.\<close>

definition strings_ReplaceAll :: "string \<Rightarrow> string \<Rightarrow> string \<Rightarrow> string" where
  "strings_ReplaceAll s old new = replace_from old new s"

definition strings_TrimSpace1 :: "string \<Rightarrow> string" where
  \<comment> \<open>\<open>strings.Trim(s, " ")\<close>\<close>
  "strings_TrimSpace1 s =
     rev (dropWhile (\<lambda>c. c = CHR '' '') (rev (dropWhile (\<lambda>c. c = CHR '' '') s)))"

definition char_ToLower :: "char \<Rightarrow> char" where
  "char_ToLower c = (if 65 \<le> (of_char c :: nat) \<and> (of_char c :: nat) \<le> 90
                     then char_of (of_char c + 32 :: nat) else c)"

text \<open>\<open>strings.ToLower\<close> on ASCII strings.\<close>

definition strings_ToLower :: "string \<Rightarrow> string" where
  "strings_ToLower s = map char_ToLower s"

fun nat_digits :: "nat \<Rightarrow> string" where
  "nat_digits n = (if n < 10 then [char_of (48 + n)]
                   else nat_digits (n div 10) @ [char_of (48 + n mod 10)])"

declare nat_digits.simps [simp del]

text \<open>\<open>%v\<close> of an integer.\<close>

definition fmt_int :: "int \<Rightarrow> string" where
  "fmt_int i = (if i < 0 then CHR ''-'' # nat_digits (nat (- i)) else nat_digits (nat i))"

lemma split_acc_not_Nil [simp]: "split_acc sep acc s \<noteq> []"
  by (induction sep acc s rule: split_acc.induct) auto

lemma strings_Split_not_Nil [simp]: "strings_Split s sep \<noteq> []"
  by (simp add: strings_Split_def)

lemma strings_Join_Cons: "xs \<noteq> [] \<Longrightarrow> strings_Join (x # xs) sep = x @ sep @ strings_Join xs sep"
  by (cases xs) auto

lemma prefix_drop_split: "prefix sep s \<Longrightarrow> s = sep @ drop (length sep) s"
  by (auto simp: prefix_def)

lemma Join_split_acc:
  "sep \<noteq> [] \<Longrightarrow> strings_Join (split_acc sep acc s) sep = rev acc @ s"
proof (induction sep acc s rule: split_acc.induct)
  case (1 sep acc)
  then show ?case by simp
next
  case (2 sep acc c cs)
  show ?case
  proof (cases "prefix sep (c # cs)")
    case True
    have eq: "sep @ drop (length sep - 1) cs = c # cs"
      using prefix_drop_split [OF True] \<open>sep \<noteq> []\<close> by (cases sep) auto
    have "strings_Join (split_acc sep acc (c # cs)) sep
        = rev acc @ sep @ drop (length sep - 1) cs"
      using 2 True by (simp add: strings_Join_Cons del: append_eq_Cons_conv)
    then show ?thesis by (simp only: eq)
  next
    case False
    with 2 show ?thesis by simp
  qed
qed

text \<open>Splitting loses nothing: joining the pieces with the separator gives the string back.\<close>

lemma Join_Split: "sep \<noteq> [] \<Longrightarrow> strings_Join (strings_Split s sep) sep = s"
  by (simp add: strings_Split_def Join_split_acc)

text \<open>
  A piece is \<^emph>\<open>clean\<close> for a separator when the first occurrence of the separator in the
  piece followed by the separator is the appended one.
\<close>

definition clean_for :: "string \<Rightarrow> string \<Rightarrow> bool" where
  "clean_for sep p \<longleftrightarrow> (\<forall>i < length p. \<not> prefix sep (drop i (p @ sep)))"

lemma clean_for_Cons:
  "clean_for sep (c # p) \<longleftrightarrow> \<not> prefix sep (c # p @ sep) \<and> clean_for sep p"
  by (auto simp: clean_for_def less_Suc_eq_0_disj)

lemma split_acc_clean:
  "sep \<noteq> [] \<Longrightarrow> clean_for sep p \<Longrightarrow>
   split_acc sep acc (p @ sep @ rest) = (rev acc @ p) # split_acc sep [] rest"
proof (induction p arbitrary: acc)
  case Nil
  then show ?case by (cases sep) auto
next
  case (Cons c p)
  have "\<not> prefix sep (c # p @ sep @ rest)"
  proof
    assume "prefix sep (c # p @ sep @ rest)"
    then have "prefix sep ((c # p @ sep) @ rest)" by simp
    moreover have "prefix (c # p @ sep) ((c # p @ sep) @ rest)" by simp
    ultimately have "prefix sep (c # p @ sep)"
      by (rule prefix_length_prefix) simp
    with Cons.prems show False by (simp add: clean_for_Cons)
  qed
  with Cons show ?case by (simp add: clean_for_Cons)
qed

lemma split_acc_last:
  "sep \<noteq> [] \<Longrightarrow> clean_for sep p \<Longrightarrow> split_acc sep acc p = [rev acc @ p]"
proof (induction p arbitrary: acc)
  case (Cons c p)
  have "\<not> prefix sep (c # p)"
  proof
    assume "prefix sep (c # p)"
    then have "prefix sep ((c # p) @ sep)" by (rule prefix_prefix)
    with Cons.prems show False by (simp add: clean_for_Cons)
  qed
  with Cons show ?case by (simp add: clean_for_Cons)
qed simp

lemma Split_Join:
  "sep \<noteq> [] \<Longrightarrow> ps \<noteq> [] \<Longrightarrow> \<forall>p \<in> set ps. clean_for sep p \<Longrightarrow>
   strings_Split (strings_Join ps sep) sep = ps"
proof (induction ps)
  case (Cons p ps)
  show ?case
  proof (cases "ps = []")
    case True
    with Cons.prems show ?thesis by (simp add: strings_Split_def split_acc_last)
  next
    case False
    with Cons show ?thesis
      by (simp add: strings_Split_def strings_Join_Cons split_acc_clean)
  qed
qed simp

end
