(* ===== verification/GoTime.thy ===== *)
theory GoTime
  imports Prelude
begin

text \<open>
  Package \<open>time\<close> as the sources use it, and \<open>common/weekday.go\<close>. A \<open>time.Time\<close> is
  its instant in nanoseconds since 0001-01-01T00:00:00Z together with the offset of its
  location in seconds (0 for UTC); a \<open>time.Duration\<close> is an integer number of
  nanoseconds. Differences saturate at the 64-bit bounds, as \<open>Time.Sub\<close> documents. The
  calendar is the proleptic Gregorian one, computed by cycles of 400, 100, 4 and 1 years.
  The main result is that calendar dates identify day numbers, so comparing
  \<open>Date()\<close> triples is comparing days.
\<close>

section \<open>Instants and durations\<close>

record gotime =
  t_ns :: int
  t_off :: int

type_synonym duration = int

definition zero_time :: gotime where
  "zero_time = \<lparr>t_ns = 0, t_off = 0\<rparr>"

abbreviation Second :: int where "Second \<equiv> 1000000000"
abbreviation Minute :: int where "Minute \<equiv> 60000000000"
abbreviation Hour :: int where "Hour \<equiv> 3600000000000"
abbreviation Day :: int where "Day \<equiv> 86400000000000"

abbreviation maxDuration :: int where "maxDuration \<equiv> 9223372036854775807"
abbreviation minDuration :: int where "minDuration \<equiv> -9223372036854775808"

definition IsZero :: "gotime \<Rightarrow> bool" where
  "IsZero t \<longleftrightarrow> t_ns t = 0"

definition UTC :: "gotime \<Rightarrow> gotime" where
  "UTC t = t\<lparr>t_off := 0\<rparr>"

definition After :: "gotime \<Rightarrow> gotime \<Rightarrow> bool" where
  "After t u \<longleftrightarrow> t_ns t > t_ns u"

definition Before :: "gotime \<Rightarrow> gotime \<Rightarrow> bool" where
  "Before t u \<longleftrightarrow> t_ns t < t_ns u"

definition Sub :: "gotime \<Rightarrow> gotime \<Rightarrow> duration" where
  "Sub t u = max minDuration (min maxDuration (t_ns t - t_ns u))"

definition Add :: "gotime \<Rightarrow> duration \<Rightarrow> gotime" where
  "Add t d = t\<lparr>t_ns := t_ns t + d\<rparr>"

text \<open>Two's complement wrap-around of \<open>Duration\<close> (int64) and int32 arithmetic.\<close>

definition wrap64 :: "int \<Rightarrow> int" where
  "wrap64 i = (i + 2 ^ 63) mod 2 ^ 64 - 2 ^ 63"

definition wrap32 :: "int \<Rightarrow> int" where
  "wrap32 i = (i + 2 ^ 31) mod 2 ^ 32 - 2 ^ 31"

lemma wrap64_id: "minDuration \<le> i \<Longrightarrow> i \<le> maxDuration \<Longrightarrow> wrap64 i = i"
  by (simp add: wrap64_def)

lemma wrap32_id: "- (2 ^ 31) \<le> i \<Longrightarrow> i < 2 ^ 31 \<Longrightarrow> wrap32 i = i"
  by (simp add: wrap32_def)

lemma Sub_bounds: "minDuration \<le> Sub t u \<and> Sub t u \<le> maxDuration"
  by (simp add: Sub_def)

lemma Sub_in_range:
  "minDuration \<le> t_ns t - t_ns u \<Longrightarrow> t_ns t - t_ns u \<le> maxDuration \<Longrightarrow>
   Sub t u = t_ns t - t_ns u"
  by (simp add: Sub_def)

lemma t_ns_Add [simp]: "t_ns (Add t d) = t_ns t + d"
  by (simp add: Add_def)

lemma t_off_Add [simp]: "t_off (Add t d) = t_off t"
  by (simp add: Add_def)

lemma UTC_simps [simp]: "t_ns (UTC t) = t_ns t" "t_off (UTC t) = 0"
  by (simp_all add: UTC_def)

section \<open>Calendar\<close>

datatype weekday = Sunday | Monday | Tuesday | Wednesday | Thursday | Friday | Saturday

text \<open>Nanoseconds since the epoch on the wall clock of the time's location.\<close>

definition wall :: "gotime \<Rightarrow> int" where
  "wall t = t_ns t + t_off t * Second"

definition day_number :: "gotime \<Rightarrow> int" where
  "day_number t = wall t div Day"

definition ns_of_day :: "gotime \<Rightarrow> int" where
  "ns_of_day t = wall t mod Day"

definition weekday_of :: "int \<Rightarrow> weekday" where
  \<comment> \<open>1 January of year 1 is a Monday\<close>
  "weekday_of d =
     [Monday, Tuesday, Wednesday, Thursday, Friday, Saturday, Sunday] ! nat (d mod 7)"

definition Weekday :: "gotime \<Rightarrow> weekday" where
  "Weekday t = weekday_of (day_number t)"

definition Clock :: "gotime \<Rightarrow> int \<times> int \<times> int" where
  "Clock t = (ns_of_day t div Hour, ns_of_day t mod Hour div Minute,
              ns_of_day t mod Minute div Second)"

definition Nanosecond :: "gotime \<Rightarrow> int" where
  "Nanosecond t = ns_of_day t mod Second"

definition is_leap :: "int \<Rightarrow> bool" where
  "is_leap y \<longleftrightarrow> y mod 4 = 0 \<and> (y mod 100 \<noteq> 0 \<or> y mod 400 = 0)"

definition month_lengths :: "bool \<Rightarrow> int list" where
  "month_lengths leap = [31, if leap then 29 else 28, 31, 30, 31, 30, 31, 31, 30, 31, 30, 31]"

fun find_month :: "int list \<Rightarrow> int \<Rightarrow> int \<Rightarrow> int \<times> int" where
  "find_month [] m d = (m, d + 1)"
| "find_month (l # ls) m d = (if d < l then (m, d + 1) else find_month ls (m + 1) (d - l))"

definition year_yday :: "int \<Rightarrow> int \<times> int" where
  "year_yday d =
     (let n400 = d div 146097; r = d mod 146097;
          n100 = min 3 (r div 36524); r100 = r - n100 * 36524;
          n4 = r100 div 1461; r4 = r100 mod 1461;
          n1 = min 3 (r4 div 365)
      in (400 * n400 + 100 * n100 + 4 * n4 + n1 + 1, r4 - n1 * 365))"

definition civil_of :: "int \<Rightarrow> int \<times> int \<times> int" where
  "civil_of d = (let (y, yday) = year_yday d; (m, dm) = find_month (month_lengths (is_leap y)) 1 yday
                 in (y, m, dm))"

definition Date :: "gotime \<Rightarrow> int \<times> int \<times> int" where
  "Date t = civil_of (day_number t)"

definition Year :: "gotime \<Rightarrow> int" where "Year t = fst (Date t)"
definition Month :: "gotime \<Rightarrow> int" where "Month t = fst (snd (Date t))"
definition DayOfMonth :: "gotime \<Rightarrow> int" where "DayOfMonth t = snd (snd (Date t))"

definition days_before_year :: "int \<Rightarrow> int" where
  "days_before_year y = 365 * (y - 1) + (y - 1) div 4 - (y - 1) div 100 + (y - 1) div 400"

definition days_from_civil :: "int \<Rightarrow> int \<Rightarrow> int \<Rightarrow> int" where
  "days_from_civil y m d =
     days_before_year y + sum_list (take (nat (m - 1)) (month_lengths (is_leap y))) + d - 1"

text \<open>\<open>time.Date(y, m, d, h, mi, s, ns, time.UTC)\<close> for a valid date.\<close>

definition time_Date :: "int \<Rightarrow> int \<Rightarrow> int \<Rightarrow> int \<Rightarrow> int \<Rightarrow> int \<Rightarrow> int \<Rightarrow> gotime" where
  "time_Date y m d h mi s ns =
     \<lparr>t_ns = days_from_civil y m d * Day + h * Hour + mi * Minute + s * Second + ns, t_off = 0\<rparr>"

lemma clamped_quotient:
  fixes r k c :: int
  assumes "0 \<le> r" "0 < k" "0 \<le> c" "r \<le> (c + 1) * k"
  shows "0 \<le> min c (r div k)" "min c (r div k) \<le> c"
    "0 \<le> r - min c (r div k) * k" "r - min c (r div k) * k \<le> k"
proof -
  have "r = k * (r div k) + r mod k" by simp
  moreover have "0 \<le> r mod k" "r mod k < k" using assms(2) by simp_all
  ultimately have q: "k * (r div k) \<le> r" "r < k * (r div k) + k" by linarith+
  have q0: "0 \<le> r div k" using assms(1,2) by (simp add: pos_imp_zdiv_nonneg_iff)
  show "0 \<le> min c (r div k)" "min c (r div k) \<le> c" using q0 assms(3) by auto
  show "0 \<le> r - min c (r div k) * k"
  proof (cases "r div k \<le> c")
    case True
    then show ?thesis using q by (simp add: min_def mult.commute)
  next
    case False
    then have "c * k \<le> r div k * k" using assms(2) by (simp add: mult_right_mono)
    also have "\<dots> \<le> r" using q(1) by (simp add: mult.commute)
    finally show ?thesis using False by (simp add: min_def)
  qed
  show "r - min c (r div k) * k \<le> k"
    using q assms(4) by (cases "r div k \<le> c") (simp_all add: min_def algebra_simps)
qed

lemma year_yday_correct:
  assumes "year_yday d = (y, yday)"
  shows "days_before_year y + yday = d"
proof -
  define n400 where "n400 = d div 146097"
  define r where "r = d mod 146097"
  define n100 where "n100 = min 3 (r div 36524)"
  define r100 where "r100 = r - n100 * 36524"
  define n4 where "n4 = r100 div 1461"
  define r4 where "r4 = r100 mod 1461"
  define n1 where "n1 = min 3 (r4 div 365)"
  have y: "y - 1 = 400 * n400 + 100 * n100 + 4 * n4 + n1" and yd: "yday = r4 - n1 * 365"
    using assms unfolding year_yday_def Let_def n400_def [symmetric] r_def [symmetric]
      n100_def [symmetric] r100_def [symmetric] n4_def [symmetric] r4_def [symmetric]
      n1_def [symmetric] by simp_all
  have d: "d = 146097 * n400 + r" "0 \<le> r" "r < 146097"
    by (simp_all add: n400_def r_def)
  have n100: "0 \<le> n100" "n100 \<le> 3" and r100: "0 \<le> r100" "r100 \<le> 36524"
    using clamped_quotient [of r 36524 3] d by (simp_all add: r100_def n100_def)
  have r100_split: "r100 = 1461 * n4 + r4" by (simp add: n4_def r4_def)
  have r4: "0 \<le> r4" "r4 < 1461" by (simp_all add: r4_def)
  have n4: "0 \<le> n4" "n4 \<le> 24" using r100_split r4 r100 by linarith+
  have n1: "0 \<le> n1" "n1 \<le> 3"
    using clamped_quotient [of r4 365 3] r4 by (simp_all add: n1_def)
  have q4: "(y - 1) div 4 = 100 * n400 + 25 * n100 + n4"
    using y n1 by (intro int_div_pos_eq [where r = n1]) auto
  have q100: "(y - 1) div 100 = 4 * n400 + n100"
    using y n1 n4 by (intro int_div_pos_eq [where r = "4 * n4 + n1"]) auto
  have q400: "(y - 1) div 400 = n400"
    using y n1 n4 n100 by (intro int_div_pos_eq [where r = "100 * n100 + 4 * n4 + n1"]) auto
  show ?thesis
    unfolding days_before_year_def q4 q100 q400 using y yd d r100_split
    unfolding r100_def by (simp add: algebra_simps)
qed

lemma find_month_sum:
  "find_month ls m d = (m', d') \<Longrightarrow>
   m \<le> m' \<and> sum_list (take (nat (m' - m)) ls) + d' - 1 = d"
proof (induction ls m d rule: find_month.induct)
  case (2 l ls m d)
  show ?case
  proof (cases "d < l")
    case False
    with 2 have IH: "m + 1 \<le> m'" "sum_list (take (nat (m' - (m + 1))) ls) + d' - 1 = d - l"
      by auto
    have "nat (m' - m) = Suc (nat (m' - (m + 1)))" using IH(1) by simp
    with IH show ?thesis by simp
  qed (use 2 in auto)
qed auto

text \<open>The calendar date of a day number determines the day number.\<close>

lemma days_from_civil_of:
  assumes "civil_of d = (y, m, dm)"
  shows "days_from_civil y m dm = d"
proof -
  obtain yday where yy: "year_yday d = (y, yday)"
    and fm: "find_month (month_lengths (is_leap y)) 1 yday = (m, dm)"
    using assms by (auto simp: civil_of_def Let_def split: prod.splits)
  from find_month_sum [OF fm] year_yday_correct [OF yy] show ?thesis
    by (simp add: days_from_civil_def)
qed

lemma Date_eq_iff: "Date t = Date u \<longleftrightarrow> day_number t = day_number u"
  by (metis Date_def days_from_civil_of prod_cases3)

lemma ns_of_day_bounds: "0 \<le> ns_of_day t \<and> ns_of_day t < Day"
  by (simp add: ns_of_day_def)

lemma wall_split: "wall t = day_number t * Day + ns_of_day t"
  by (simp add: day_number_def ns_of_day_def)

lemma Clock_recompose:
  "Clock t = (h, mi, s) \<Longrightarrow> h * Hour + mi * Minute + s * Second + Nanosecond t = ns_of_day t"
proof -
  assume c: "Clock t = (h, mi, s)"
  let ?x = "ns_of_day t"
  have x: "?x div Hour * Hour + ?x mod Hour = ?x" by (rule div_mult_mod_eq)
  moreover have "?x mod Hour = ?x mod Hour div Minute * Minute + ?x mod Hour mod Minute"
    by (rule div_mult_mod_eq [symmetric])
  moreover have "?x mod Hour mod Minute = ?x mod Minute"
    by (rule mod_mod_cancel) (rule dvdI [of _ _ 60], simp)
  moreover have "?x mod Minute = ?x mod Minute div Second * Second + ?x mod Minute mod Second"
    by (rule div_mult_mod_eq [symmetric])
  moreover have "?x mod Minute mod Second = ?x mod Second"
    by (rule mod_mod_cancel) (rule dvdI [of _ _ 60], simp)
  ultimately show ?thesis using c unfolding Clock_def Nanosecond_def
    by (simp only: prod.inject)
qed

section \<open>Weekday names (common/weekday.go)\<close>

definition WeekdayMap :: "(string \<times> weekday) list" where
  "WeekdayMap =
     [(''monday'', Monday), (''mon'', Monday), (''tuesday'', Tuesday), (''tue'', Tuesday),
      (''wednesday'', Wednesday), (''wed'', Wednesday), (''thursday'', Thursday),
      (''thu'', Thursday), (''friday'', Friday), (''fri'', Friday), (''saturday'', Saturday),
      (''sat'', Saturday), (''sunday'', Sunday), (''sun'', Sunday)]"

definition WeekdayFromString :: "string \<Rightarrow> error + weekday" where
  "WeekdayFromString s =
     (case map_of WeekdayMap (strings_ToLower s) of
        None \<Rightarrow> Inl (ErrorString ([CHR 39] @ s @ [CHR 39] @ '' is not a known weekday''))
      | Some d \<Rightarrow> Inr d)"

end
