(* ===== verification/Cluster.thy ===== *)
theory Cluster
  imports GoTime
begin

text \<open>
  The environment of the controllers: the constants of \<open>constants/constants.go\<close>, the
  parts of the Kubernetes objects the sources read or write, the API client and the world
  state threaded through every operation. The API server and the rest of the cluster are not
  part of the repository: the client is a record of functions over an arbitrary server state
  \<open>'s\<close>, each call returning its result and the next server state, so that failures and
  concurrent changes by other actors are covered; theorems that rely on a behaviour of the
  server state it as a hypothesis on these functions.
\<close>

section \<open>constants/constants.go\<close>

definition TrueStr :: string where "TrueStr = ''true''"
definition LeaderElectionID :: string where
  "LeaderElectionID = ''maintenance-controller-leader-election.cloud.sap''"
definition HostLabelKey :: string where "HostLabelKey = ''kubernetes.cloud.sap/host''"
definition FailureDomainLabelKey :: string where
  "FailureDomainLabelKey = ''failure-domain.beta.kubernetes.io/zone''"
definition DefaultProfileName :: string where "DefaultProfileName = ''default''"
definition StateLabelKey :: string where "StateLabelKey = ''cloud.sap/maintenance-state''"
definition ProfileLabelKey :: string where "ProfileLabelKey = ''cloud.sap/maintenance-profile''"
definition LogDetailsLabelKey :: string where
  "LogDetailsLabelKey = ''cloud.sap/maintenance-log-details''"
definition DataAnnotationKey :: string where "DataAnnotationKey = ''cloud.sap/maintenance-data''"
definition EsxMaintenanceLabelKey :: string where
  "EsxMaintenanceLabelKey = ''cloud.sap/esx-in-maintenance''"
definition EsxRebootOkLabelKey :: string where
  "EsxRebootOkLabelKey = ''cloud.sap/esx-reboot-ok''"
definition EsxVersionLabelKey :: string where "EsxVersionLabelKey = ''cloud.sap/esx-version''"
definition EsxRebootInitiatedAnnotationKey :: string where
  "EsxRebootInitiatedAnnotationKey = ''cloud.sap/esx-reboot-initiated''"
definition KubeletUpdateLabelKey :: string where
  "KubeletUpdateLabelKey = ''cloud.sap/kubelet-needs-update''"
definition DeleteNodeLabelKey :: string where "DeleteNodeLabelKey = ''cloud.sap/delete-node''"

lemmas key_defs = StateLabelKey_def ProfileLabelKey_def LogDetailsLabelKey_def
  DataAnnotationKey_def EsxMaintenanceLabelKey_def EsxRebootOkLabelKey_def
  EsxVersionLabelKey_def EsxRebootInitiatedAnnotationKey_def HostLabelKey_def
  FailureDomainLabelKey_def

lemma profile_key_neq_state_key [simp]:
  "ProfileLabelKey \<noteq> StateLabelKey" "StateLabelKey \<noteq> ProfileLabelKey"
  by (simp_all add: key_defs)

section \<open>Kubernetes objects\<close>

record node =
  n_Name :: string
  n_Labels :: "(string, string) gomap"
  n_Annotations :: "(string, string) gomap"
  n_Finalizers :: "string list"
  n_Unschedulable :: bool
  n_Conditions :: "(string \<times> string) list" \<comment> \<open>type and status\<close>
  n_ResourceVersion :: string
  n_KubeletVersion :: string

record owner_ref =
  o_Kind :: string
  o_Name :: string

record selector_requirement =
  s_Key :: string
  s_Operator :: string
  s_Values :: "string list"

record pod =
  p_Name :: string
  p_Namespace :: string
  p_UID :: string
  p_PodIP :: string \<comment> \<open>\<open>Status.PodIP\<close>\<close>
  p_Annotations :: "(string, string) gomap"
  p_OwnerReferences :: "owner_ref list"
  p_DeletionTimestamp :: "gotime option"
  p_DeletionGracePeriodSeconds :: "int option"
  p_Affinity :: "selector_requirement list list option option"
    \<comment> \<open>\<open>Spec.Affinity\<close>, its \<open>NodeAffinity\<close>, and the match expressions of the preferred terms\<close>

record lease =
  l_Namespace :: string
  l_Name :: string
  l_HolderIdentity :: "string option"
  l_AcquireTime :: "gotime option"
  l_RenewTime :: "gotime option"
  l_LeaseDurationSeconds :: "int option"
  l_LeaseTransitions :: "int option"

record replica_set =
  rs_Namespace :: string
  rs_Name :: string
  rs_OwnerReferences :: "owner_ref list"
  rs_Replicas :: "int option"

text \<open>DaemonSets, Deployments and StatefulSets: their name and replica count.\<close>

record daemon_set =
  ds_Name :: string
  ds_NumberReady :: int

record workload =
  wl_Name :: string
  wl_Replicas :: "int option"

section \<open>API client\<close>

type_synonym namespaced_name = "string \<times> string" \<comment> \<open>namespace, name\<close>

datatype node_selector = AllNodes | MatchingLabels "(string \<times> string) list" | HasLabels "string list"

type_synonym ('s, 'a) request = "'s \<Rightarrow> (error + 'a) \<times> 's"

record 's client =
  c_ListNodes :: "node_selector \<Rightarrow> ('s, node list) request"
  c_ListPods :: "string \<Rightarrow> ('s, pod list) request" \<comment> \<open>by \<open>spec.nodeName\<close>\<close>
  c_GetNode :: "string \<Rightarrow> ('s, node) request"
  c_PatchNode :: "node \<Rightarrow> node \<Rightarrow> ('s, node) request" \<comment> \<open>object, base of the merge patch\<close>
  c_GetLease :: "namespaced_name \<Rightarrow> ('s, lease) request"
  c_CreateLease :: "lease \<Rightarrow> ('s, lease) request"
  c_PatchLease :: "lease \<Rightarrow> lease \<Rightarrow> ('s, lease) request"
  c_GetPod :: "namespaced_name \<Rightarrow> ('s, pod) request"
  c_DeletePod :: "pod \<Rightarrow> int option \<Rightarrow> ('s, unit) request"
  c_GetDaemonSet :: "namespaced_name \<Rightarrow> ('s, daemon_set) request"
  c_GetReplicaSet :: "namespaced_name \<Rightarrow> ('s, replica_set) request"
  c_GetDeployment :: "namespaced_name \<Rightarrow> ('s, workload) request"
  c_GetStatefulSet :: "namespaced_name \<Rightarrow> ('s, workload) request"
  cs_ServerVersion :: "('s, string) request" \<comment> \<open>the clientset: discovery and evictions\<close>
  cs_EvictV1 :: "pod \<Rightarrow> int option \<Rightarrow> ('s, unit) request"
  cs_EvictV1beta1 :: "pod \<Rightarrow> int option \<Rightarrow> ('s, unit) request"

section \<open>World state\<close>

text \<open>
  \<open>w_node\<close> is the in-memory object that \<open>params.Node\<close> points to. The clock is read by
  \<open>time_Now\<close>; between two readings it advances by the next element of \<open>w_ticks\<close> (by
  nothing once the list is used up). The Prometheus counters map the label values to the
  counter value; \<open>shufflesPerReplica\<close> is kept as the list of replica counts whose reciprocals
  were added. \<open>w_events\<close> collects emitted events and \<open>w_grab\<close> holds the \<open>grabIndex\<close>
  field of every \<open>Stagger\<close> object, by address.
\<close>

record 's world =
  w_api :: 's
  w_node :: node
  w_now :: int
  w_local :: int
  w_ticks :: "nat list"
  w_failures :: "(string \<times> nat) list"
  w_shuffles :: "((string \<times> string) \<times> nat \<times> int list) list"
  w_events :: "(string \<times> string \<times> string) list" \<comment> \<open>object, reason, note\<close>
  w_grab :: "nat \<Rightarrow> int"
  w_sent :: "(string \<times> string) list" \<comment> \<open>messages handed to external systems\<close>

definition time_Now :: "'s world \<Rightarrow> gotime \<times> 's world" where
  "time_Now w =
     (\<lparr>t_ns = w_now w, t_off = w_local w\<rparr>,
      w\<lparr>w_now := w_now w + (case w_ticks w of [] \<Rightarrow> 0 | d # _ \<Rightarrow> int d),
        w_ticks := tl (w_ticks w)\<rparr>)"

definition time_Since :: "gotime \<Rightarrow> 's world \<Rightarrow> duration \<times> 's world" where
  "time_Since t w = (let (now, w') = time_Now w in (Sub now t, w'))"

definition api :: "('s \<Rightarrow> 'a \<times> 's) \<Rightarrow> 's world \<Rightarrow> 'a \<times> 's world" where
  "api f w = (let (r, s) = f (w_api w) in (r, w\<lparr>w_api := s\<rparr>))"

definition emit_event :: "string \<Rightarrow> string \<Rightarrow> string \<Rightarrow> 's world \<Rightarrow> 's world" where
  "emit_event obj reason note w = w\<lparr>w_events := w_events w @ [(obj, reason, note)]\<rparr>"

lemma time_Now_frame [simp]:
  "w_node (snd (time_Now w)) = w_node w" "w_api (snd (time_Now w)) = w_api w"
  "w_failures (snd (time_Now w)) = w_failures w" "w_events (snd (time_Now w)) = w_events w"
  by (simp_all add: time_Now_def)

lemma time_Now_mono: "w_now w \<le> w_now (snd (time_Now w))"
  by (auto simp: time_Now_def split: list.splits)

lemma time_Now_value [simp]: "t_ns (fst (time_Now w)) = w_now w" "t_off (fst (time_Now w)) = w_local w"
  by (simp_all add: time_Now_def)

lemma api_frame [simp]:
  "w_node (snd (api f w)) = w_node w" "w_now (snd (api f w)) = w_now w"
  "w_failures (snd (api f w)) = w_failures w" "w_events (snd (api f w)) = w_events w"
  by (simp_all add: api_def split: prod.splits)

lemma api_result [simp]: "fst (api f w) = fst (f (w_api w))" "w_api (snd (api f w)) = snd (f (w_api w))"
  by (simp_all add: api_def split: prod.splits)

end
