(* ===== verification/Metrics.thy ===== *)
theory Metrics
  imports Cluster
begin

text \<open>
  \<open>metrics/metrics.go\<close>: the shuffle counters and the transition failure counter. The
  lemmas show that recording is all-or-nothing (a failed lookup leaves every counter as it
  was) and that touching only creates missing series.
\<close>

section \<open>Counters\<close>

record shuffle_record =
  sr_owner :: string
  sr_perReplica :: int \<comment> \<open>the replica count the float64 reciprocal is taken of\<close>

definition makeLabels :: "string \<Rightarrow> string \<Rightarrow> string \<times> string" where
  "makeLabels owner profile = (owner, profile)"

text \<open>\<open>vec.With(labels)\<close> creates the series with value zero when it is missing.\<close>

definition shuffle_series :: "string \<times> string \<Rightarrow> 's world \<Rightarrow> nat \<times> int list" where
  "shuffle_series l w = (case map_of (w_shuffles w) l of None \<Rightarrow> (0, []) | Some c \<Rightarrow> c)"

definition shuffle_inc :: "string \<times> string \<Rightarrow> int \<Rightarrow> 's world \<Rightarrow> 's world" where
  "shuffle_inc l replicas w =
     w\<lparr>w_shuffles := AList.update l
        (Suc (fst (shuffle_series l w)), snd (shuffle_series l w) @ [replicas]) (w_shuffles w)\<rparr>"

definition shuffle_touch :: "string \<times> string \<Rightarrow> 's world \<Rightarrow> 's world" where
  "shuffle_touch l w = w\<lparr>w_shuffles := AList.update l (shuffle_series l w) (w_shuffles w)\<rparr>"

definition RecordTransitionFailure :: "string \<Rightarrow> 's world \<Rightarrow> 's world" where
  "RecordTransitionFailure profile w =
     w\<lparr>w_failures := AList.update profile
        (case map_of (w_failures w) profile of None \<Rightarrow> 1 | Some c \<Rightarrow> Suc c) (w_failures w)\<rparr>"

section \<open>Fetching owners\<close>

definition fetchShuffleDaemonSet ::
    "'s client \<Rightarrow> namespaced_name \<Rightarrow> 's world \<Rightarrow> (error + shuffle_record) \<times> 's world" where
  "fetchShuffleDaemonSet c ref w =
     (case api (c_GetDaemonSet c ref) w of
        (Inl e, w) \<Rightarrow> (Inl e, w)
      | (Inr ds, w) \<Rightarrow>
          (Inr \<lparr>sr_owner = ''daemon_set_'' @ ds_Name ds, sr_perReplica = ds_NumberReady ds\<rparr>, w))"

definition replicas_or_one :: "int option \<Rightarrow> int" where
  "replicas_or_one r = (case r of None \<Rightarrow> 1 | Some n \<Rightarrow> n)"

fun deployment_owner :: "owner_ref list \<Rightarrow> owner_ref option" where
  "deployment_owner [] = None"
| "deployment_owner (r # rs) = (if o_Kind r = ''Deployment'' then Some r else deployment_owner rs)"

definition fetchShuffleDeployment ::
    "'s client \<Rightarrow> namespaced_name \<Rightarrow> 's world \<Rightarrow> (error + shuffle_record) \<times> 's world" where
  "fetchShuffleDeployment c ref w =
     (case api (c_GetReplicaSet c ref) w of
        (Inl e, w) \<Rightarrow> (Inl e, w)
      | (Inr rs, w) \<Rightarrow>
          if rs_OwnerReferences rs = [] then
            (Inr \<lparr>sr_owner = ''replica_set_'' @ rs_Name rs,
                  sr_perReplica = replicas_or_one (rs_Replicas rs)\<rparr>, w)
          else case deployment_owner (rs_OwnerReferences rs) of
            Some r \<Rightarrow>
              (case api (c_GetDeployment c (rs_Namespace rs, o_Name r)) w of
                 (Inl e, w) \<Rightarrow> (Inl e, w)
               | (Inr d, w) \<Rightarrow>
                   (Inr \<lparr>sr_owner = ''deployment_'' @ wl_Name d,
                         sr_perReplica = replicas_or_one (wl_Replicas d)\<rparr>, w))
          | None \<Rightarrow> (Inl (ErrorString (''owner of replicaSet '' @ rs_Name rs @ '' is not a deployment'')), w))"

definition fetchShuffleStatefulSet ::
    "'s client \<Rightarrow> namespaced_name \<Rightarrow> 's world \<Rightarrow> (error + shuffle_record) \<times> 's world" where
  "fetchShuffleStatefulSet c ref w =
     (case api (c_GetStatefulSet c ref) w of
        (Inl e, w) \<Rightarrow> (Inl e, w)
      | (Inr ss, w) \<Rightarrow>
          (Inr \<lparr>sr_owner = ''stateful_set_'' @ wl_Name ss,
                sr_perReplica = replicas_or_one (wl_Replicas ss)\<rparr>, w))"

text \<open>The owner references of all listed pods, in the order of the two nested loops.\<close>

definition pod_refs :: "pod list \<Rightarrow> (string \<times> owner_ref) list" where
  "pod_refs pods = concat (map (\<lambda>p. map (Pair (p_Namespace p)) (p_OwnerReferences p)) pods)"

fun collect_records ::
    "'s client \<Rightarrow> (string \<times> owner_ref) list \<Rightarrow> shuffle_record list \<Rightarrow> 's world
      \<Rightarrow> (error + shuffle_record list) \<times> 's world" where
  "collect_records c [] acc w = (Inr acc, w)"
| "collect_records c ((ns, r) # rs) acc w =
     (let fetch = (if o_Kind r = ''DaemonSet'' then Some (fetchShuffleDaemonSet c)
                   else if o_Kind r = ''ReplicaSet'' then Some (fetchShuffleDeployment c)
                   else if o_Kind r = ''StatefulSet'' then Some (fetchShuffleStatefulSet c)
                   else None)
      in case fetch of
           None \<Rightarrow> collect_records c rs acc w
         | Some f \<Rightarrow>
             (case f (ns, o_Name r) w of
                (Inl e, w) \<Rightarrow> (Inl e, w)
              | (Inr rec, w) \<Rightarrow> collect_records c rs (acc @ [rec]) w))"

definition RecordShuffles ::
    "'s client option \<Rightarrow> string \<Rightarrow> string \<Rightarrow> 's world \<Rightarrow> error option \<times> 's world" where
  "RecordShuffles k8sClient nodeName currentProfile w =
     (case k8sClient of
        None \<Rightarrow> (Some (ErrorString ''kubernetes client is nil''), w)
      | Some c \<Rightarrow>
          (case api (c_ListPods c nodeName) w of
             (Inl e, w) \<Rightarrow> (Some e, w)
           | (Inr pods, w) \<Rightarrow>
               (case collect_records c (pod_refs pods) [] w of
                  (Inl e, w) \<Rightarrow> (Some e, w)
                | (Inr records, w) \<Rightarrow>
                    (None, fold (\<lambda>r. shuffle_inc (makeLabels (sr_owner r) currentProfile)
                                       (sr_perReplica r)) records w))))"

definition fetchTouchReplicaSet ::
    "'s client \<Rightarrow> namespaced_name \<Rightarrow> 's world \<Rightarrow> (error + string) \<times> 's world" where
  "fetchTouchReplicaSet c ref w =
     (case api (c_GetReplicaSet c ref) w of
        (Inl e, w) \<Rightarrow> (Inl e, w)
      | (Inr rs, w) \<Rightarrow>
          if rs_OwnerReferences rs = [] then (Inr (''replica_set_'' @ snd ref), w)
          else case deployment_owner (rs_OwnerReferences rs) of
            Some r \<Rightarrow> (Inr (''deployment_'' @ o_Name r), w)
          | None \<Rightarrow> (Inl (ErrorString (''owner of replicaSet '' @ rs_Name rs @ '' is not a deployment'')), w))"

fun touch_refs ::
    "'s client \<Rightarrow> string \<Rightarrow> (string \<times> owner_ref) list \<Rightarrow> 's world \<Rightarrow> error option \<times> 's world" where
  "touch_refs c profile [] w = (None, w)"
| "touch_refs c profile ((ns, r) # rs) w =
     (if o_Kind r = ''DaemonSet'' then
        touch_refs c profile rs (shuffle_touch (makeLabels (''daemon_set_'' @ o_Name r) profile) w)
      else if o_Kind r = ''StatefulSet'' then
        touch_refs c profile rs (shuffle_touch (makeLabels (''stateful_set_'' @ o_Name r) profile) w)
      else if o_Kind r = ''ReplicaSet'' then
        (case fetchTouchReplicaSet c (ns, o_Name r) w of
           (Inl e, w) \<Rightarrow> (Some e, w)
         | (Inr owner, w) \<Rightarrow> touch_refs c profile rs (shuffle_touch (makeLabels owner profile) w))
      else touch_refs c profile rs w)"

definition TouchShuffles ::
    "'s client \<Rightarrow> string \<Rightarrow> string \<Rightarrow> 's world \<Rightarrow> error option \<times> 's world" where
  "TouchShuffles c nodeName currentProfile w =
     (case api (c_ListPods c nodeName) w of
        (Inl e, w) \<Rightarrow> (Some e, w)
      | (Inr pods, w) \<Rightarrow> touch_refs c currentProfile (pod_refs pods) w)"

section \<open>Frame lemmas\<close>

text \<open>What metrics never touch: the node object, the clock, the failure counter, the events.\<close>

definition metrics_frame :: "'s world \<Rightarrow> 's world \<Rightarrow> bool" where
  "metrics_frame w w' \<longleftrightarrow> w_node w' = w_node w \<and> w_now w' = w_now w \<and> w_ticks w' = w_ticks w
     \<and> w_local w' = w_local w \<and> w_failures w' = w_failures w \<and> w_events w' = w_events w
     \<and> w_grab w' = w_grab w \<and> w_sent w' = w_sent w"

lemma metrics_frame_refl [simp]: "metrics_frame w w"
  by (simp add: metrics_frame_def)

lemma metrics_frame_trans: "metrics_frame a b \<Longrightarrow> metrics_frame b c \<Longrightarrow> metrics_frame a c"
  by (simp add: metrics_frame_def)

lemma metrics_frame_api: "api f w = (r, w') \<Longrightarrow> metrics_frame w w' \<and> w_shuffles w' = w_shuffles w"
  by (auto simp: api_def metrics_frame_def split: prod.splits)

lemma metrics_frame_shuffle [simp]:
  "metrics_frame w (shuffle_inc l n w)" "metrics_frame w (shuffle_touch l w)"
  by (simp_all add: shuffle_inc_def shuffle_touch_def metrics_frame_def)

lemma fetch_frame:
  "fetchShuffleDaemonSet c ref w = (r, w') \<Longrightarrow> metrics_frame w w' \<and> w_shuffles w' = w_shuffles w"
  "fetchShuffleDeployment c ref w = (r, w') \<Longrightarrow> metrics_frame w w' \<and> w_shuffles w' = w_shuffles w"
  "fetchShuffleStatefulSet c ref w = (r, w') \<Longrightarrow> metrics_frame w w' \<and> w_shuffles w' = w_shuffles w"
  "fetchTouchReplicaSet c ref w = (t, w') \<Longrightarrow> metrics_frame w w' \<and> w_shuffles w' = w_shuffles w"
  by (auto simp: fetchShuffleDaemonSet_def fetchShuffleDeployment_def fetchShuffleStatefulSet_def
      fetchTouchReplicaSet_def metrics_frame_def
      dest!: metrics_frame_api split: prod.splits sum.splits if_splits option.splits)

lemma collect_records_frame:
  "collect_records c rs acc w = (r, w') \<Longrightarrow> metrics_frame w w' \<and> w_shuffles w' = w_shuffles w"
proof (induction c rs acc w rule: collect_records.induct)
  case (2 c ns r rs acc w)
  then show ?case
    by (auto simp: Let_def metrics_frame_def split: if_splits prod.splits sum.splits
        dest!: fetch_frame)
qed auto

lemma fold_inc_frame:
  "metrics_frame w (fold (\<lambda>r. shuffle_inc (f r) (g r)) rs w)"
proof (induction rs arbitrary: w)
  case (Cons r rs)
  show ?case using metrics_frame_trans [OF metrics_frame_shuffle(1) Cons.IH] by simp
qed simp

lemma RecordShuffles_frame: "RecordShuffles k n p w = (r, w') \<Longrightarrow> metrics_frame w w'"
  by (auto simp: RecordShuffles_def split: option.splits prod.splits sum.splits
      dest!: metrics_frame_api collect_records_frame
      intro: metrics_frame_trans fold_inc_frame)

lemma touch_refs_frame: "touch_refs c p rs w = (r, w') \<Longrightarrow> metrics_frame w w'"
proof (induction c p rs w rule: touch_refs.induct)
  case (2 c p ns r rs w)
  then show ?case
    by (auto split: if_splits prod.splits sum.splits dest!: fetch_frame
        intro: metrics_frame_trans [OF metrics_frame_shuffle(2)] metrics_frame_trans)
qed auto

lemma TouchShuffles_frame: "TouchShuffles c n p w = (r, w') \<Longrightarrow> metrics_frame w w'"
  by (auto simp: TouchShuffles_def split: prod.splits sum.splits
      dest!: metrics_frame_api touch_refs_frame intro: metrics_frame_trans)

section \<open>Counter properties\<close>

lemma RecordShuffles_error_keeps:
  "RecordShuffles k n p w = (Some e, w') \<Longrightarrow> w_shuffles w' = w_shuffles w"
  by (auto simp: RecordShuffles_def split: option.splits prod.splits sum.splits
      dest!: metrics_frame_api collect_records_frame)

lemma shuffle_series_touch [simp]: "shuffle_series l (shuffle_touch l' w) = shuffle_series l w"
  by (simp add: shuffle_series_def shuffle_touch_def update_conv' split: option.splits)

lemma shuffle_series_cong:
  "w_shuffles w' = w_shuffles w \<Longrightarrow> shuffle_series l w' = shuffle_series l w"
  by (simp add: shuffle_series_def)

lemma touch_refs_series:
  "touch_refs c p rs w = (r, w') \<Longrightarrow> shuffle_series l w' = shuffle_series l w"
proof (induction c p rs w rule: touch_refs.induct)
  case (2 c p ns r rs w)
  then show ?case
    by (auto split: if_splits prod.splits sum.splits dest!: fetch_frame
        dest: shuffle_series_cong [of _ _ l])
qed auto

lemma TouchShuffles_series:
  "TouchShuffles c n p w = (r, w') \<Longrightarrow> shuffle_series l w' = shuffle_series l w"
  by (auto simp: TouchShuffles_def split: prod.splits sum.splits
      dest!: metrics_frame_api touch_refs_series [where l = l] dest: shuffle_series_cong [of _ _ l])

lemma shuffle_series_inc:
  "shuffle_series l (shuffle_inc l' n w) =
     (if l = l' then (Suc (fst (shuffle_series l w)), snd (shuffle_series l w) @ [n]) else shuffle_series l w)"
  by (simp add: shuffle_series_def shuffle_inc_def update_conv')

lemma fold_inc_series:
  "shuffle_series l (fold (\<lambda>r. shuffle_inc (f r) (g r)) rs w) =
     (fst (shuffle_series l w) + length (filter (\<lambda>r. f r = l) rs),
      snd (shuffle_series l w) @ map g (filter (\<lambda>r. f r = l) rs))"
  by (induction rs arbitrary: w) (auto simp: shuffle_series_inc)

text \<open>One record per counted owner, and every series grows by the records of its owner.\<close>

lemma RecordShuffles_counts:
  assumes "RecordShuffles (Some c) n p w = (None, w')"
  obtains pods w1 records w2 where "api (c_ListPods c n) w = (Inr pods, w1)"
    "collect_records c (pod_refs pods) [] w1 = (Inr records, w2)"
    "\<forall>l. shuffle_series l w' = (fst (shuffle_series l w) + length (filter (\<lambda>r. (sr_owner r, p) = l) records),
       snd (shuffle_series l w) @ map sr_perReplica (filter (\<lambda>r. (sr_owner r, p) = l) records))"
proof -
  obtain pods w1 where pods: "api (c_ListPods c n) w = (Inr pods, w1)"
    using assms by (auto simp: RecordShuffles_def split: prod.splits sum.splits)
  obtain records w2 where recs: "collect_records c (pod_refs pods) [] w1 = (Inr records, w2)"
    and w': "w' = fold (\<lambda>r. shuffle_inc (makeLabels (sr_owner r) p) (sr_perReplica r)) records w2"
    using assms pods by (auto simp: RecordShuffles_def split: prod.splits sum.splits)
  have "w_shuffles w2 = w_shuffles w"
    using metrics_frame_api [OF pods] collect_records_frame [OF recs] by simp
  then have "shuffle_series l w2 = shuffle_series l w" for l by (rule shuffle_series_cong)
  with that [OF pods recs] w' show thesis by (simp add: fold_inc_series makeLabels_def)
qed

lemma collect_records_length:
  "collect_records c rs acc w = (Inr records, w') \<Longrightarrow>
   length records = length acc
     + length (filter (\<lambda>(ns, r). o_Kind r \<in> {''DaemonSet'', ''ReplicaSet'', ''StatefulSet''}) rs)"
  by (induction c rs acc w rule: collect_records.induct)
    (auto simp: Let_def split: if_splits prod.splits sum.splits option.splits)

end
