(* ===== verification/Plugins.thy ===== *)
theory Plugins
  imports Metrics
begin

text \<open>
  Package \<open>plugin\<close>: check, trigger and notification chains (\<open>check.go\<close>,
  \<open>trigger.go\<close>, \<open>notification.go\<close>). A Go interface value is a record of its methods, so
  every statement about chains holds for arbitrary plugins; \<open>None\<close> as the result of a
  method is a panic. The lemmas give the behaviour of chains branch by branch; the locales
  state what the chain relies on when a plugin must leave the node object alone.
\<close>

section \<open>Plugin parameters and results\<close>

datatype any = StrV string | IntV int | SecondsV int | FloatV int | BoolV bool | ListV "any list"
  \<comment> \<open>\<open>SecondsV\<close> is \<open>Duration.Seconds()\<close> of a number of nanoseconds, \<open>FloatV\<close> a float64 by its bits\<close>

record check_result =
  cr_ID :: string
  cr_Passed :: bool
  cr_Info :: "(string, any) gomap"

definition Passed :: "(string, any) gomap \<Rightarrow> check_result" where
  "Passed info = \<lparr>cr_ID = [], cr_Passed = True, cr_Info = info\<rparr>"

definition PassedWithReason :: "string \<Rightarrow> check_result" where
  "PassedWithReason reason = \<lparr>cr_ID = [], cr_Passed = True, cr_Info = Some [(''reason'', StrV reason)]\<rparr>"

definition Failed :: "(string, any) gomap \<Rightarrow> check_result" where
  "Failed info = \<lparr>cr_ID = [], cr_Passed = False, cr_Info = info\<rparr>"

definition FailedWithReason :: "string \<Rightarrow> check_result" where
  "FailedWithReason reason = \<lparr>cr_ID = [], cr_Passed = False, cr_Info = Some [(''reason'', StrV reason)]\<rparr>"

lemma result_simps [simp]:
  "cr_Passed (Passed i)" "cr_Passed (PassedWithReason r)"
  "\<not> cr_Passed (Failed i)" "\<not> cr_Passed (FailedWithReason r)"
  by (simp_all add: Passed_def PassedWithReason_def Failed_def FailedWithReason_def)

text \<open>\<open>plugin.Parameters\<close>; the node, the clock and the recorder are part of the world.\<close>

record 's params =
  P_State :: string
  P_Profile :: string
  P_InMaintenance :: bool
  P_LogDetails :: bool
  P_Client :: "'s client"
  P_LastTransition :: gotime

type_synonym ('s, 'a) plugin_method = "'s params \<Rightarrow> 's world \<Rightarrow> ('a \<times> 's world) option"

section \<open>Check chains (plugin/check.go)\<close>

record 's checker =
  Check :: "('s, check_result \<times> error option) plugin_method"
  c_ID :: string
  OnTransition :: "('s, error option) plugin_method"

record 's check_instance =
  ci_Plugin :: "'s checker"
  ci_Name :: string

record check_chain_result =
  ccr_Passed :: bool
  ccr_Info :: "(string \<times> check_result) list"
  ccr_Expression :: string

text \<open>\<open>gval.Evaluable\<close>: the compiled boolean expression, applied to the named results.\<close>

type_synonym evaluable = "(string \<times> bool) list \<Rightarrow> error + bool"

record 's check_chain =
  cc_Plugins :: "'s check_instance list"
  cc_Evaluable :: "evaluable option"
  cc_Expression :: string

definition empty_check_chain :: "'s check_chain" where
  "empty_check_chain = \<lparr>cc_Plugins = [], cc_Evaluable = None, cc_Expression = []\<rparr>"

definition with_error_info :: "error \<Rightarrow> (string, any) gomap \<Rightarrow> (string, any) gomap" where
  "with_error_info e info = map_option (AList.update ''error'' (StrV (Error e))) (gm_ensure info)"

text \<open>The loop over the plugins: gval parameters, check results and failed instances.\<close>

fun check_loop ::
    "'s check_instance list \<Rightarrow> 's params
      \<Rightarrow> (string \<times> bool) list \<times> (string \<times> check_result) list \<times> string list \<Rightarrow> 's world
      \<Rightarrow> (((string \<times> bool) list \<times> (string \<times> check_result) list \<times> string list) \<times> 's world) option" where
  "check_loop [] p acc w = Some (acc, w)"
| "check_loop (c # cs) p (evalParams, infos, failed) w =
     do { ((r, err), w) \<leftarrow> Check (ci_Plugin c) p w;
          let r = r\<lparr>cr_ID := c_ID (ci_Plugin c), cr_Info := gm_ensure (cr_Info r)\<rparr>;
          case err of
            Some e \<Rightarrow> check_loop cs p
              (AList.update (ci_Name c) False evalParams,
               AList.update (ci_Name c) (r\<lparr>cr_Info := with_error_info e (cr_Info r)\<rparr>) infos,
               failed @ [ci_Name c]) w
          | None \<Rightarrow> check_loop cs p
              (AList.update (ci_Name c) (cr_Passed r) evalParams,
               AList.update (ci_Name c) r infos, failed) w }"

definition CheckChain_Execute ::
    "'s check_chain \<Rightarrow> 's params \<Rightarrow> 's world
      \<Rightarrow> ((check_chain_result \<times> error option) \<times> 's world) option" where
  "CheckChain_Execute chain p w =
     (let result = \<lparr>ccr_Passed = False, ccr_Info = [], ccr_Expression = cc_Expression chain\<rparr>
      in if cc_Evaluable chain = None \<and> cc_Plugins chain = []
         then Some ((result\<lparr>ccr_Passed := True\<rparr>, None), w)
         else do {
           ((evalParams, infos, failed), w) \<leftarrow> check_loop (cc_Plugins chain) p ([], [], []) w;
           let result = result\<lparr>ccr_Info := infos\<rparr>;
           if failed \<noteq> []
           then Some ((result, Some (ErrorString (''failed check instances: '' @ strings_Join failed '', ''))), w)
           else case cc_Evaluable chain of
             None \<Rightarrow> None \<comment> \<open>call of a nil function\<close>
           | Some ev \<Rightarrow>
               (case ev evalParams of
                  Inl e \<Rightarrow> Some ((result, Some e), w)
                | Inr b \<Rightarrow> Some ((result\<lparr>ccr_Passed := b\<rparr>, None), w)) })"

section \<open>Trigger chains (plugin/trigger.go)\<close>

record 's trigger =
  Trigger :: "('s, error option) plugin_method"
  t_ID :: string

record 's trigger_instance =
  ti_Plugin :: "'s trigger"
  ti_Name :: string

type_synonym 's trigger_chain = "'s trigger_instance list"

fun TriggerChain_Execute :: "'s trigger_chain \<Rightarrow> ('s, error option) plugin_method" where
  "TriggerChain_Execute [] p w = Some (None, w)"
| "TriggerChain_Execute (t # ts) p w =
     do { (err, w) \<leftarrow> Trigger (ti_Plugin t) p w;
          case err of
            Some e \<Rightarrow> Some (Some (ChainError (''Trigger instance '' @ ti_Name t @ '' failed'') e), w)
          | None \<Rightarrow> TriggerChain_Execute ts p w }"

section \<open>Notification chains and schedules (plugin/notification.go)\<close>

record 's notifier =
  Notify :: "('s, error option) plugin_method"
  nf_ID :: string

datatype scheduler =
    NotifyPeriodic duration
  | NotifyScheduled gotime "weekday list"
  | NotifyOneshot duration

record notification_data =
  nd_State :: string
  nd_Time :: gotime

record should_notify_params =
  sn_Current :: notification_data
  sn_Last :: notification_data
  sn_StateChange :: gotime

definition NotifyPeriodic_ShouldNotify :: "duration \<Rightarrow> should_notify_params \<Rightarrow> bool" where
  "NotifyPeriodic_ShouldNotify interval p =
     (if nd_State (sn_Current p) \<noteq> nd_State (sn_Last p) then True
      else if Sub (nd_Time (sn_Current p)) (nd_Time (sn_Last p)) \<ge> interval
              \<and> nd_State (sn_Last p) \<noteq> ''operational'' then True
      else False)"

definition NotifyScheduled_ShouldNotify ::
    "gotime \<Rightarrow> weekday list \<Rightarrow> should_notify_params \<Rightarrow> bool" where
  "NotifyScheduled_ShouldNotify inst weekdays p =
     (let current = nd_Time (sn_Current p); last = nd_Time (sn_Last p)
      in if Weekday current \<notin> set weekdays then False
         else let (h, mi, s) = Clock current;
                  compare = time_Date (Year inst) (Month inst) (DayOfMonth inst) h mi s (Nanosecond current)
              in if Before compare inst then False
                 else if DayOfMonth last = DayOfMonth current then False
                 else True)"

definition NotifyOneshot_ShouldNotify ::
    "duration \<Rightarrow> should_notify_params \<Rightarrow> 's world \<Rightarrow> bool \<times> 's world" where
  "NotifyOneshot_ShouldNotify delay p w =
     (if IsZero (sn_StateChange p) then (False, w)
      else if After (nd_Time (sn_Last p)) (sn_StateChange p) then (False, w)
      else let (since, w) = time_Since (sn_StateChange p) w in (since \<ge> delay, w))"

fun ShouldNotify :: "scheduler \<Rightarrow> should_notify_params \<Rightarrow> 's world \<Rightarrow> bool \<times> 's world" where
  "ShouldNotify (NotifyPeriodic i) p w = (NotifyPeriodic_ShouldNotify i p, w)"
| "ShouldNotify (NotifyScheduled i ds) p w = (NotifyScheduled_ShouldNotify i ds p, w)"
| "ShouldNotify (NotifyOneshot d) p w = NotifyOneshot_ShouldNotify d p w"

record 's notification_instance =
  ni_Plugin :: "'s notifier"
  ni_Schedule :: "scheduler option"
  ni_Name :: string

type_synonym 's notification_chain = "'s notification_instance list"

fun NotificationChain_Execute :: "'s notification_chain \<Rightarrow> ('s, error option) plugin_method" where
  "NotificationChain_Execute [] p w = Some (None, w)"
| "NotificationChain_Execute (n # ns) p w =
     do { (err, w) \<leftarrow> Notify (ni_Plugin n) p w;
          case err of
            Some e \<Rightarrow> Some (Some (ChainError (''Notification instance '' @ ni_Name n @ '' failed'') e), w)
          | None \<Rightarrow> NotificationChain_Execute ns p w }"

section \<open>Behaviour of trigger and notification chains\<close>

lemma TriggerChain_append:
  "TriggerChain_Execute (xs @ ys) p w =
     do { (err, w) \<leftarrow> TriggerChain_Execute xs p w;
          case err of Some e \<Rightarrow> Some (Some e, w) | None \<Rightarrow> TriggerChain_Execute ys p w }"
  by (induction xs p w rule: TriggerChain_Execute.induct)
    (auto split: option.splits prod.splits bind_splits)

text \<open>A failing chain ran a successful prefix and then the instance whose error it wraps.\<close>

lemma TriggerChain_error:
  assumes "TriggerChain_Execute ts p w = Some (Some e, w')"
  shows "\<exists>pre t post e' w1. ts = pre @ t # post
    \<and> TriggerChain_Execute pre p w = Some (None, w1)
    \<and> Trigger (ti_Plugin t) p w1 = Some (Some e', w')
    \<and> e = ChainError (''Trigger instance '' @ ti_Name t @ '' failed'') e'"
  using assms
proof (induction ts arbitrary: w)
  case (Cons t ts)
  obtain err w1 where t: "Trigger (ti_Plugin t) p w = Some (err, w1)"
    using Cons.prems by (auto simp: bind_eq_Some_conv)
  show ?case
  proof (cases err)
    case None
    with Cons t obtain pre t' post e' w2 where "ts = pre @ t' # post"
      "TriggerChain_Execute pre p w1 = Some (None, w2)"
      "Trigger (ti_Plugin t') p w2 = Some (Some e', w')"
      "e = ChainError (''Trigger instance '' @ ti_Name t' @ '' failed'') e'"
      by fastforce
    with t None show ?thesis
      by (intro exI [of _ "t # pre"] exI [of _ t'] exI [of _ post] exI [of _ e'] exI [of _ w2]) auto
  next
    case (Some e')
    with Cons.prems t show ?thesis
      by (intro exI [of _ "[]"] exI [of _ t] exI [of _ ts] exI [of _ e'] exI [of _ w]) auto
  qed
qed simp

text \<open>A chain signals a retry exactly when the instance it stopped at did.\<close>

lemma TriggerChain_retry:
  "TriggerChain_Execute ts p w = Some (Some e, w') \<Longrightarrow> as_RetryError e \<Longrightarrow>
   \<exists>t \<in> set ts. \<exists>e' w1. Trigger (ti_Plugin t) p w1 = Some (Some e', w') \<and> as_RetryError e'"
  by (drule TriggerChain_error) fastforce

section \<open>Behaviour of check chains\<close>

text \<open>One step of the loop, with what it does to each of the three collections.\<close>

lemma check_loop_ConsE:
  assumes "check_loop (c # cs) p (ev, infos, failed) w = Some res"
  obtains r err w1 infos1 where "Check (ci_Plugin c) p w = Some ((r, err), w1)"
    and "check_loop cs p (AList.update (ci_Name c) (err = None \<and> cr_Passed r) ev, infos1,
           failed @ (if err = None then [] else [ci_Name c])) w1 = Some res"
proof -
  obtain r err w1 where c: "Check (ci_Plugin c) p w = Some ((r, err), w1)"
    using assms by (auto simp: bind_eq_Some_conv)
  from assms c that show thesis by (cases err) (auto simp: Let_def)
qed

lemma check_loop_failed_grows:
  "check_loop cs p (ev, infos, failed) w = Some ((ev', infos', failed'), w') \<Longrightarrow>
   \<exists>more. failed' = failed @ more"
proof (induction cs arbitrary: ev infos failed w)
  case (Cons c cs)
  from Cons.prems show ?case
    by (rule check_loop_ConsE) (drule Cons.IH, auto)
qed simp

text \<open>The results of a run of the plugins, in order, when each of them returns without error.\<close>

fun run_checks ::
    "'s check_instance list \<Rightarrow> 's params \<Rightarrow> 's world \<Rightarrow> ((string \<times> bool) list \<times> 's world) option" where
  "run_checks [] p w = Some ([], w)"
| "run_checks (c # cs) p w =
     (case Check (ci_Plugin c) p w of
        Some ((r, None), w) \<Rightarrow>
          map_option (\<lambda>(bs, w). ((ci_Name c, cr_Passed r) # bs, w)) (run_checks cs p w)
      | _ \<Rightarrow> None)"

lemma check_loop_no_failure:
  "check_loop cs p (ev, infos, []) w = Some ((ev', infos', []), w') \<Longrightarrow>
   \<exists>bs. run_checks cs p w = Some (bs, w') \<and> ev' = fold (\<lambda>(n, b). AList.update n b) bs ev"
proof (induction cs arbitrary: ev infos w)
  case (Cons c cs)
  from Cons.prems obtain r err w1 infos1 where c: "Check (ci_Plugin c) p w = Some ((r, err), w1)"
    and l: "check_loop cs p (AList.update (ci_Name c) (err = None \<and> cr_Passed r) ev, infos1,
        [] @ (if err = None then [] else [ci_Name c])) w1 = Some ((ev', infos', []), w')"
    by (rule check_loop_ConsE)
  from check_loop_failed_grows [OF l] have "err = None" by (auto split: if_splits)
  with l Cons.IH c show ?case by fastforce
qed simp

text \<open>
  What a passed chain means: it is the empty chain, or every plugin of it was run in order
  without an error and the expression evaluates to true on their results.
\<close>

lemma CheckChain_passed:
  assumes "CheckChain_Execute chain p w = Some ((r, err), w')" and "ccr_Passed r"
  shows "err = None \<and>
    (cc_Evaluable chain = None \<and> cc_Plugins chain = [] \<and> w' = w \<or>
     (\<exists>ev bs. cc_Evaluable chain = Some ev \<and> run_checks (cc_Plugins chain) p w = Some (bs, w')
        \<and> ev (fold (\<lambda>(n, b). AList.update n b) bs []) = Inr True))"
  using assms
  by (auto simp: CheckChain_Execute_def Let_def bind_eq_Some_conv dest!: check_loop_no_failure
      split: if_splits option.splits sum.splits)

lemma CheckChain_error_not_passed:
  "CheckChain_Execute chain p w = Some ((r, Some e), w') \<Longrightarrow> \<not> ccr_Passed r"
  using CheckChain_passed by fastforce

section \<open>Interfaces a chain relies on\<close>

text \<open>
  Checks are evaluated on every reconcile, whether or not a transition follows, so neither a
  check nor its transition hook may change the node object that is patched at the end.
\<close>

locale checker_keeps_node =
  fixes chk :: "'s checker"
  assumes check_node: "Check chk p w = Some (r, w') \<Longrightarrow> w_node w' = w_node w"
    and hook_node: "OnTransition chk p w = Some (e, w') \<Longrightarrow> w_node w' = w_node w"

lemma check_loop_keeps_node:
  assumes "\<forall>c \<in> set cs. checker_keeps_node (ci_Plugin c)"
    and "check_loop cs p acc w = Some (acc', w')"
  shows "w_node w' = w_node w"
  using assms
proof (induction cs arbitrary: acc w)
  case (Cons c cs)
  obtain ev infos failed where acc: "acc = (ev, infos, failed)" by (cases acc)
  from Cons.prems(2) [unfolded acc] obtain r err w1 infos1 acc1 where
    c: "Check (ci_Plugin c) p w = Some ((r, err), w1)"
    and l: "check_loop cs p acc1 w1 = Some (acc', w')"
    by (rule check_loop_ConsE)
  have "w_node w1 = w_node w"
    using Cons.prems(1) c by (auto dest: checker_keeps_node.check_node)
  moreover have "w_node w' = w_node w1" using Cons l by auto
  ultimately show ?case by simp
qed simp

lemma CheckChain_keeps_node:
  assumes "\<forall>c \<in> set (cc_Plugins chain). checker_keeps_node (ci_Plugin c)"
    and "CheckChain_Execute chain p w = Some (r, w')"
  shows "w_node w' = w_node w"
  using assms(2) check_loop_keeps_node [OF assms(1)]
  by (auto simp: CheckChain_Execute_def Let_def bind_eq_Some_conv
      split: if_splits option.splits sum.splits)

section \<open>Schedules\<close>

text \<open>Schedulers decide; they read the clock at most and change nothing else.\<close>

locale scheduler_interface =
  fixes should :: "should_notify_params \<Rightarrow> 's world \<Rightarrow> bool \<times> 's world"
  assumes should_frame: "should p w = (b, w') \<Longrightarrow>
      w_node w' = w_node w \<and> w_api w' = w_api w \<and> w_sent w' = w_sent w"
    and should_clock: "should p w = (b, w') \<Longrightarrow> w_now w \<le> w_now w'"

lemma time_Since_unfold: "time_Since t w = (Sub (fst (time_Now w)) t, snd (time_Now w))"
  by (simp add: time_Since_def split: prod.splits)

interpretation sched: scheduler_interface "ShouldNotify s" for s
proof
  fix p b and w w' :: "'a world"
  assume "ShouldNotify s p w = (b, w')"
  then show "w_node w' = w_node w \<and> w_api w' = w_api w \<and> w_sent w' = w_sent w"
    by (cases s) (auto simp: NotifyOneshot_ShouldNotify_def time_Since_unfold time_Now_def
        split: if_splits)
next
  fix p b and w w' :: "'a world"
  assume "ShouldNotify s p w = (b, w')"
  then show "w_now w \<le> w_now w'"
    by (cases s) (auto simp: NotifyOneshot_ShouldNotify_def time_Since_unfold time_Now_mono
        split: if_splits)
qed

text \<open>
  A clock reading put on the date of a UTC instant keeps its time of day, so comparing the
  two compares times of day.
\<close>

lemma on_date_of:
  assumes "t_off inst = 0" and "Clock t = (h, mi, s)"
  shows "t_ns (time_Date (Year inst) (Month inst) (DayOfMonth inst) h mi s (Nanosecond t))
       = t_ns inst - ns_of_day inst + ns_of_day t"
proof -
  obtain y m d where date: "Date inst = (y, m, d)" by (cases "Date inst")
  then have "days_from_civil y m d = day_number inst"
    unfolding Date_def by (rule days_from_civil_of)
  moreover have "t_ns inst = day_number inst * Day + ns_of_day inst"
    using wall_split [of inst] assms(1) by (simp add: wall_def)
  ultimately show ?thesis
    using Clock_recompose [OF assms(2)] date
    by (simp add: time_Date_def Year_def Month_def DayOfMonth_def)
qed

lemma NotifyScheduled_iff:
  assumes "t_off inst = 0"
  shows "NotifyScheduled_ShouldNotify inst ds p \<longleftrightarrow>
     Weekday (nd_Time (sn_Current p)) \<in> set ds
     \<and> ns_of_day inst \<le> ns_of_day (nd_Time (sn_Current p))
     \<and> DayOfMonth (nd_Time (sn_Last p)) \<noteq> DayOfMonth (nd_Time (sn_Current p))"
proof -
  obtain h mi s where c: "Clock (nd_Time (sn_Current p)) = (h, mi, s)"
    by (cases "Clock (nd_Time (sn_Current p))")
  show ?thesis
    using on_date_of [OF assms c]
    by (auto simp: NotifyScheduled_ShouldNotify_def Let_def c Before_def)
qed

lemma NotifyOneshot_iff:
  "fst (NotifyOneshot_ShouldNotify delay p w) \<longleftrightarrow>
     t_ns (sn_StateChange p) \<noteq> 0 \<and> t_ns (nd_Time (sn_Last p)) \<le> t_ns (sn_StateChange p)
     \<and> delay \<le> Sub (fst (time_Now w)) (sn_StateChange p)"
  by (auto simp: NotifyOneshot_ShouldNotify_def IsZero_def After_def time_Since_unfold)

lemma NotifyPeriodic_iff:
  "NotifyPeriodic_ShouldNotify i p \<longleftrightarrow>
     nd_State (sn_Current p) \<noteq> nd_State (sn_Last p) \<or>
     nd_State (sn_Last p) \<noteq> ''operational'' \<and> i \<le> Sub (nd_Time (sn_Current p)) (nd_Time (sn_Last p))"
  by (auto simp: NotifyPeriodic_ShouldNotify_def)

end
