(* ===== verification/NodeStates.thy ===== *)
theory NodeStates
  imports Plugins
begin

text \<open>
  Package \<open>state\<close>: the state labels, the per-node data, the three node states, the
  evaluation of transitions and \<open>Apply\<close>. The definitions follow \<open>state.go\<close>,
  \<open>operational.go\<close>, \<open>required.go\<close> and \<open>maintenance.go\<close> in order. A \<open>*Data\<close> that
  is mutated is passed and returned; a nil \<open>*ProfileData\<close> is \<open>None\<close>. Decoding of the
  JSON annotation is a parameter.
\<close>

section \<open>Labels and data\<close>

type_synonym NodeStateLabel = string

definition Operational :: NodeStateLabel where "Operational = ''operational''"
definition Required :: NodeStateLabel where "Required = ''maintenance-required''"
definition InMaintenance :: NodeStateLabel where "InMaintenance = ''in-maintenance''"
definition profileSeparator :: string where "profileSeparator = ''--''"

lemmas label_defs = Operational_def Required_def InMaintenance_def

lemma labels_distinct [simp]:
  "Operational \<noteq> Required" "Required \<noteq> Operational" "Operational \<noteq> InMaintenance"
  "InMaintenance \<noteq> Operational" "Required \<noteq> InMaintenance" "InMaintenance \<noteq> Required"
  by (simp_all add: label_defs)

definition ContainsProfile :: "string \<Rightarrow> string \<Rightarrow> bool" where
  "ContainsProfile allProfiles profile \<longleftrightarrow>
     profile \<in> set (strings_Split allProfiles profileSeparator)"

definition ValidateLabel :: "string \<Rightarrow> error + NodeStateLabel" where
  "ValidateLabel s =
     (if s = Operational then Inr Operational
      else if s = Required then Inr Required
      else if s = InMaintenance then Inr InMaintenance
      else Inl (ErrorString ([CHR 39] @ s @ [CHR 39] @ '' is not a valid NodeStateLabel'')))"

record 's transition =
  tr_Check :: "'s check_chain"
  tr_Trigger :: "'s trigger_chain"
  tr_Next :: NodeStateLabel

record transition_result =
  trr_Passed :: bool
  trr_Target :: NodeStateLabel
  trr_Chain :: check_chain_result
  trr_Error :: string

record transitions_result =
  ts_Next :: NodeStateLabel
  ts_Infos :: "transition_result list"

record apply_result =
  ar_Next :: NodeStateLabel
  ar_Transitions :: "transition_result list"
  ar_Error :: string

record profile_result =
  pr_Applied :: apply_result
  pr_Name :: string
  pr_State :: NodeStateLabel

record node_info =
  ninf_Node :: string
  ninf_Profiles :: "profile_result list"
  ninf_Labels :: "(string \<times> string) list"
  ninf_Updated :: gotime

record 's plugin_chains =
  pc_Enter :: "'s trigger_chain"
  pc_Notification :: "'s notification_chain"
  pc_Transitions :: "'s transition list"

definition empty_chains :: "'s plugin_chains" where
  "empty_chains = \<lparr>pc_Enter = [], pc_Notification = [], pc_Transitions = []\<rparr>"

record 's profile =
  pf_Name :: string
  pf_Chains :: "(NodeStateLabel \<times> 's plugin_chains) list"

record profile_data =
  pd_Transition :: gotime
  pd_Current :: NodeStateLabel
  pd_Previous :: NodeStateLabel

record data =
  d_Profiles :: "(string, profile_data option) gomap"
  d_Notifications :: "(string, gotime) gomap"

definition empty_data :: data where
  "empty_data = \<lparr>d_Profiles = None, d_Notifications = None\<rparr>"

definition ParseData :: "(string \<Rightarrow> error + data) \<Rightarrow> string \<Rightarrow> error + data" where
  "ParseData decode dataStr =
     (case (if dataStr \<noteq> [] then decode dataStr else Inr empty_data) of
        Inl e \<Rightarrow> Inl (WrapError ''failed to parse json value in data annotation: '' e)
      | Inr d \<Rightarrow> Inr (d\<lparr>d_Notifications := gm_ensure (d_Notifications d)\<rparr>))"

section \<open>Transitions\<close>

definition Transition_Execute ::
    "'s transition \<Rightarrow> ('s, transition_result \<times> error option) plugin_method" where
  "Transition_Execute t p w =
     do { ((chainResult, err), w) \<leftarrow> CheckChain_Execute (tr_Check t) p w;
          case err of
            Some e \<Rightarrow>
              Some ((\<lparr>trr_Passed = False, trr_Target = tr_Next t, trr_Chain = chainResult,
                      trr_Error = Error e\<rparr>, Some e), w)
          | None \<Rightarrow>
              if \<not> ccr_Passed chainResult \<or> (tr_Next t = InMaintenance \<and> P_InMaintenance p)
              then Some ((\<lparr>trr_Passed = False, trr_Target = tr_Next t, trr_Chain = chainResult,
                           trr_Error = []\<rparr>, None), w)
              else Some ((\<lparr>trr_Passed = True, trr_Target = tr_Next t, trr_Chain = chainResult,
                           trr_Error = []\<rparr>, None), w) }"

fun exec_transitions ::
    "'s transition list \<Rightarrow> 's params \<Rightarrow> transition_result list \<times> error list \<Rightarrow> 's world
      \<Rightarrow> ((transition_result list \<times> error list) \<times> 's world) option" where
  "exec_transitions [] p acc w = Some (acc, w)"
| "exec_transitions (t # ts) p (results, errs) w =
     do { ((result, err), w) \<leftarrow> Transition_Execute t p w;
          exec_transitions ts p
            (results @ [result], case err of None \<Rightarrow> errs | Some e \<Rightarrow> errs @ [e]) w }"

fun run_hooks :: "'s check_instance list \<Rightarrow> ('s, error option) plugin_method" where
  "run_hooks [] p w = Some (None, w)"
| "run_hooks (c # cs) p w =
     do { (err, w) \<leftarrow> OnTransition (ci_Plugin c) p w;
          case err of Some e \<Rightarrow> Some (Some e, w) | None \<Rightarrow> run_hooks cs p w }"

fun pick_transition ::
    "('s transition \<times> transition_result) list \<Rightarrow> transitions_result
      \<Rightarrow> ('s, transitions_result \<times> error option) plugin_method" where
  "pick_transition [] final p w = Some ((final, None), w)"
| "pick_transition ((t, result) # rest) final p w =
     (if \<not> trr_Passed result then pick_transition rest final p w
      else do { (err, w) \<leftarrow> run_hooks (cc_Plugins (tr_Check t)) p w;
                case err of
                  Some e \<Rightarrow> Some ((final, Some e), w)
                | None \<Rightarrow> Some ((final\<lparr>ts_Next := trr_Target result\<rparr>, None), w) })"

definition transitionDefault ::
    "'s params \<Rightarrow> NodeStateLabel \<Rightarrow> 's transition list \<Rightarrow> 's world
      \<Rightarrow> ((transitions_result \<times> error option) \<times> 's world) option" where
  "transitionDefault p current ts w =
     do { ((results, errs), w) \<leftarrow> exec_transitions ts p ([], []) w;
          let final = \<lparr>ts_Next = current, ts_Infos = results\<rparr>;
          case errors_Join errs of
            Some e \<Rightarrow> Some ((final, Some (WrapError ''had failed transition checks: '' e)), w)
          | None \<Rightarrow> pick_transition (zip ts results) final p w }"

section \<open>Notifications\<close>

text \<open>The body of the loop over the chain, for one instance.\<close>

definition notify_instance ::
    "'s params \<Rightarrow> data \<Rightarrow> 's notification_instance \<Rightarrow> 's world \<Rightarrow> ((error option \<times> data) \<times> 's world) option" where
  "notify_instance p d n w =
     (case ni_Schedule n of
        None \<Rightarrow> Some ((Some (ErrorString (''notification plugin instance '' @ ni_Name n
                  @ '' has no schedule assigned'')), d), w)
      | Some schedule \<Rightarrow> do {
          notifications \<leftarrow> (case gm_get (d_Notifications d) (ni_Name n) of
              None \<Rightarrow> gm_put (ni_Name n) zero_time (d_Notifications d)
            | Some _ \<Rightarrow> Some (d_Notifications d));
          let d = d\<lparr>d_Notifications := notifications\<rparr>;
          let (now0, w) = time_Now w;
          let now = UTC now0;
          case gm_get (d_Profiles d) (P_Profile p) of
            None \<Rightarrow> Some ((Some (ErrorString (''cannot determine state of profile '' @ P_Profile p
              @ '' because state data does not contain information regarding that profile'')), d), w)
          | Some None \<Rightarrow> Some ((Some (ErrorString (''cannot determine state of profile '' @ P_Profile p
              @ '' because state data for it is nil'')), d), w)
          | Some (Some currentState) \<Rightarrow>
              let (shouldNotify, w) = ShouldNotify schedule
                    \<lparr>sn_Current = \<lparr>nd_State = pd_Current currentState, nd_Time = now\<rparr>,
                     sn_Last = \<lparr>nd_State = pd_Previous currentState,
                       nd_Time = (case gm_get (d_Notifications d) (ni_Name n) of
                                    None \<Rightarrow> zero_time | Some t \<Rightarrow> t)\<rparr>,
                     sn_StateChange = pd_Transition currentState\<rparr> w
              in if \<not> shouldNotify then Some ((None, d), w)
                 else do {
                   (err, w) \<leftarrow> Notify (ni_Plugin n) p w;
                   case err of
                     Some e \<Rightarrow> Some ((Some e, d), w)
                   | None \<Rightarrow> do {
                       notifications \<leftarrow> gm_put (ni_Name n) now (d_Notifications d);
                       Some ((None, d\<lparr>d_Notifications := notifications\<rparr>), w) } } })"

fun notifyDefault ::
    "'s params \<Rightarrow> data \<Rightarrow> 's notification_chain \<Rightarrow> 's world \<Rightarrow> ((error option \<times> data) \<times> 's world) option" where
  "notifyDefault p d [] w = Some ((None, d), w)"
| "notifyDefault p d (n # ns) w =
     do { ((err, d), w) \<leftarrow> notify_instance p d n w;
          case err of Some e \<Rightarrow> Some ((Some e, d), w) | None \<Rightarrow> notifyDefault p d ns w }"

section \<open>Node states\<close>

datatype 's node_state =
    operational "'s plugin_chains" NodeStateLabel
  | maintenanceRequired "'s plugin_chains" NodeStateLabel
  | inMaintenance "'s plugin_chains" NodeStateLabel

definition newOperational :: "'s plugin_chains \<Rightarrow> 's node_state" where
  "newOperational cs = operational cs Operational"

definition newMaintenanceRequired :: "'s plugin_chains \<Rightarrow> 's node_state" where
  "newMaintenanceRequired cs = maintenanceRequired cs Required"

definition newInMaintenance :: "'s plugin_chains \<Rightarrow> 's node_state" where
  "newInMaintenance cs = inMaintenance cs InMaintenance"

fun NodeState_Label :: "'s node_state \<Rightarrow> NodeStateLabel" where
  "NodeState_Label (operational c l) = l"
| "NodeState_Label (maintenanceRequired c l) = l"
| "NodeState_Label (inMaintenance c l) = l"

fun NodeState_chains :: "'s node_state \<Rightarrow> 's plugin_chains" where
  "NodeState_chains (operational c l) = c"
| "NodeState_chains (maintenanceRequired c l) = c"
| "NodeState_chains (inMaintenance c l) = c"

fun NodeState_Enter :: "'s node_state \<Rightarrow> ('s, error option) plugin_method" where
  "NodeState_Enter (operational c l) p w = TriggerChain_Execute (pc_Enter c) p w"
| "NodeState_Enter (maintenanceRequired c l) p w = TriggerChain_Execute (pc_Enter c) p w"
| "NodeState_Enter (inMaintenance c l) p w =
     do { (err, w) \<leftarrow> TriggerChain_Execute (pc_Enter c) p w;
          case err of
            Some e \<Rightarrow> Some (Some e, w)
          | None \<Rightarrow> let (_, w) = RecordShuffles (Some (P_Client p)) (n_Name (w_node w)) (P_Profile p) w
                    in Some (None, w) }"

definition NodeState_Notify ::
    "'s node_state \<Rightarrow> 's params \<Rightarrow> data \<Rightarrow> 's world \<Rightarrow> ((error option \<times> data) \<times> 's world) option" where
  "NodeState_Notify st p d w = notifyDefault p d (pc_Notification (NodeState_chains st)) w"

fun find_trigger :: "'s transition list \<Rightarrow> NodeStateLabel \<Rightarrow> 's transition option" where
  "find_trigger [] next = None"
| "find_trigger (t # ts) next = (if tr_Next t = next then Some t else find_trigger ts next)"

definition NodeState_Trigger :: "'s node_state \<Rightarrow> NodeStateLabel \<Rightarrow> ('s, error option) plugin_method" where
  "NodeState_Trigger st next p w =
     (case find_trigger (pc_Transitions (NodeState_chains st)) next of
        Some t \<Rightarrow> TriggerChain_Execute (tr_Trigger t) p w
      | None \<Rightarrow> Some (Some (ErrorString (''could not find triggers from '' @ NodeState_Label st
                  @ '' to '' @ next)), w))"

definition NodeState_Transition ::
    "'s node_state \<Rightarrow> ('s, transitions_result \<times> error option) plugin_method" where
  "NodeState_Transition st p w =
     transitionDefault p (NodeState_Label st) (pc_Transitions (NodeState_chains st)) w"

definition FromLabel :: "NodeStateLabel \<Rightarrow> 's plugin_chains \<Rightarrow> error + 's node_state" where
  "FromLabel label cs =
     (if label = Operational then Inr (newOperational cs)
      else if label = Required then Inr (newMaintenanceRequired cs)
      else if label = InMaintenance then Inr (newInMaintenance cs)
      else Inl (ErrorString (''node state '' @ [CHR 34] @ label @ [CHR 34] @ '' is not known'')))"

section \<open>Apply\<close>

definition handleTransitionError ::
    "'s params \<Rightarrow> apply_result \<Rightarrow> data \<Rightarrow> error \<Rightarrow> string \<Rightarrow> 's world
      \<Rightarrow> (apply_result \<times> error option) \<times> data \<times> 's world" where
  "handleTransitionError p result d err pre w =
     (let w = RecordTransitionFailure (P_Profile p) w;
          w = emit_event (n_Name (w_node w)) ''ChangeMaintenanceStateFailed''
                (pre @ '' for profile '' @ P_Profile p @ '': Will stay in '' @ P_State p @ '' state'') w
      in ((result\<lparr>ar_Error := Error err\<rparr>,
           Some (WrapError (strings_ToLower pre @ '' for profile '' @ P_Profile p @ '': '') err)), d, w))"

text \<open>\<open>Apply\<close> from the trigger step on, then from the notifications on, then as a whole.\<close>

definition Apply_trigger ::
    "'s node_state \<Rightarrow> data \<Rightarrow> 's params \<Rightarrow> apply_result \<Rightarrow> NodeStateLabel \<Rightarrow> 's world
      \<Rightarrow> ((apply_result \<times> error option) \<times> data \<times> 's world) option" where
  "Apply_trigger st d p result next w =
     (if next \<noteq> NodeState_Label st then do {
        (err, w) \<leftarrow> NodeState_Trigger st next p w;
        case err of
          Some e \<Rightarrow> Some (handleTransitionError p result d e ''At least one trigger plugin failed'' w)
        | None \<Rightarrow>
            Some ((result\<lparr>ar_Next := next\<rparr>, None), d,
              emit_event (n_Name (w_node w)) ''ChangedMaintenanceState''
                (''The node is now in the '' @ next @ '' state caused by profile '' @ P_Profile p) w) }
      else Some ((result, None), d, w))"

definition Apply_evaluate ::
    "'s node_state \<Rightarrow> data \<Rightarrow> 's params \<Rightarrow> apply_result \<Rightarrow> 's world
      \<Rightarrow> ((apply_result \<times> error option) \<times> data \<times> 's world) option" where
  "Apply_evaluate st d p result w =
     do { ((err, d), w) \<leftarrow> NodeState_Notify st p d w;
          case err of
            Some e \<Rightarrow> Some (handleTransitionError p result d e ''At least one notification plugin failed'' w)
          | None \<Rightarrow> do {
              ((transitions, err), w) \<leftarrow> NodeState_Transition st p w;
              let result = result\<lparr>ar_Transitions := ts_Infos transitions\<rparr>;
              case err of
                Some e \<Rightarrow> Some (handleTransitionError p result d e ''At least one check plugin failed'' w)
              | None \<Rightarrow> Apply_trigger st d p result (ts_Next transitions) w } }"

definition Apply ::
    "'s node_state \<Rightarrow> data \<Rightarrow> 's params \<Rightarrow> 's world
      \<Rightarrow> ((apply_result \<times> error option) \<times> data \<times> 's world) option" where
  "Apply st d p w =
     (let result = \<lparr>ar_Next = NodeState_Label st, ar_Transitions = [], ar_Error = []\<rparr>
      in case gm_get (d_Profiles d) (P_Profile p) of
        None \<Rightarrow>
          let err = ErrorString (''could not find profile '' @ [CHR 39] @ P_Profile p @ [CHR 39] @ '' in state data'')
          in Some ((result\<lparr>ar_Error := Error err\<rparr>, Some err), d, w)
      | Some None \<Rightarrow> None \<comment> \<open>nil dereference of stateInfo\<close>
      | Some (Some stateInfo) \<Rightarrow> do {
          (err, w) \<leftarrow> (if pd_Previous stateInfo \<noteq> pd_Current stateInfo then NodeState_Enter st p w
                        else Some (None, w));
          case err of
            Some e \<Rightarrow>
              if as_RetryError e then Some ((result, Some e), d, w)
              else Some (handleTransitionError p result d e (''Failed to enter state '' @ NodeState_Label st) w)
          | None \<Rightarrow> Apply_evaluate st d p result w })"

section \<open>Profiles of a node\<close>

record 's profile_state =
  ps_Profile :: "'s profile"
  ps_State :: NodeStateLabel

definition getProfiles :: "string \<Rightarrow> (string, 's profile) gomap \<Rightarrow> 's profile list" where
  "getProfiles profilesStr available =
     List.map_filter (gm_get available) (strings_Split profilesStr profileSeparator)"

definition or_default :: "string \<Rightarrow> string" where
  "or_default profilesStr = (if profilesStr = [] then DefaultProfileName else profilesStr)"

fun with_states :: "data \<Rightarrow> 's profile list \<Rightarrow> 's profile_state list option" where
  "with_states d [] = Some []"
| "with_states d (pf # pfs) =
     (case gm_get (d_Profiles d) (pf_Name pf) of
        Some (Some pd) \<Rightarrow>
          do { rest \<leftarrow> with_states d pfs;
               Some (\<lparr>ps_Profile = pf, ps_State = pd_Current pd\<rparr> # rest) }
      | _ \<Rightarrow> None) \<comment> \<open>nil dereference\<close>"

definition GetProfilesWithState ::
    "data \<Rightarrow> string \<Rightarrow> (string, 's profile) gomap \<Rightarrow> 's profile_state list option" where
  "GetProfilesWithState d profilesStr available =
     with_states d (getProfiles (or_default profilesStr) available)"

fun init_profiles :: "'s profile list \<Rightarrow> data \<Rightarrow> 'w world \<Rightarrow> (data \<times> 'w world) option" where
  "init_profiles [] d w = Some (d, w)"
| "init_profiles (pf # pfs) d w =
     (case gm_get (d_Profiles d) (pf_Name pf) of
        Some _ \<Rightarrow> init_profiles pfs d w
      | None \<Rightarrow>
          let (now, w) = time_Now w
          in do { ps \<leftarrow> gm_put (pf_Name pf)
                    (Some \<lparr>pd_Transition = now, pd_Current = Operational, pd_Previous = Operational\<rparr>)
                    (d_Profiles d);
                  init_profiles pfs (d\<lparr>d_Profiles := ps\<rparr>) w })"

definition MaintainProfileStates ::
    "data \<Rightarrow> string \<Rightarrow> (string, 's profile) gomap \<Rightarrow> 'w world \<Rightarrow> (data \<times> 'w world) option" where
  "MaintainProfileStates d profilesStr available w =
     (let d = d\<lparr>d_Profiles := gm_ensure (d_Profiles d)\<rparr>;
          profilesStr = or_default profilesStr;
          toRemove = filter (\<lambda>n. \<not> ContainsProfile profilesStr n) (map fst (gm_items (d_Profiles d)));
          d = d\<lparr>d_Profiles := fold gm_del toRemove (d_Profiles d)\<rparr>
      in init_profiles (getProfiles profilesStr available) d w)"

section \<open>Transition evaluation\<close>

lemma ContainsProfile_default: "ContainsProfile DefaultProfileName n \<longleftrightarrow> n = DefaultProfileName"
proof -
  have "strings_Split DefaultProfileName profileSeparator = [DefaultProfileName]" by code_simp
  then show ?thesis by (simp add: ContainsProfile_def)
qed

text \<open>What a single evaluated transition reports about itself.\<close>

definition reports :: "'s params \<Rightarrow> 's transition \<Rightarrow> transition_result \<Rightarrow> bool" where
  "reports p t r \<longleftrightarrow> trr_Target r = tr_Next t \<and>
     (trr_Passed r \<longrightarrow> ccr_Passed (trr_Chain r) \<and> \<not> (tr_Next t = InMaintenance \<and> P_InMaintenance p))"

lemma Transition_Execute_reports:
  assumes "Transition_Execute t p w = Some ((r, err), w')"
  shows "reports p t r \<and> (err \<noteq> None \<longrightarrow> \<not> trr_Passed r)"
proof -
  obtain cr err1 w1 where "CheckChain_Execute (tr_Check t) p w = Some ((cr, err1), w1)"
    using assms by (auto simp: Transition_Execute_def bind_eq_Some_conv)
  with assms show ?thesis
    by (cases err1) (auto simp: Transition_Execute_def reports_def split: if_splits)
qed

lemma exec_transitions_reports:
  "exec_transitions ts p (rs0, es0) w = Some ((rs, es), w') \<Longrightarrow>
   \<exists>rs1 es1. rs = rs0 @ rs1 \<and> es = es0 @ es1 \<and> list_all2 (reports p) ts rs1"
proof (induction ts arbitrary: rs0 es0 w)
  case (Cons t ts)
  then obtain r err w1 where t: "Transition_Execute t p w = Some ((r, err), w1)"
    and rest: "exec_transitions ts p (rs0 @ [r], case err of None \<Rightarrow> es0 | Some e \<Rightarrow> es0 @ [e]) w1
      = Some ((rs, es), w')"
    by (auto simp: bind_eq_Some_conv)
  from Cons.IH [OF rest] Transition_Execute_reports [OF t] show ?case
    by (auto split: option.splits)
qed simp

text \<open>The first passed transition decides.\<close>

fun first_passed :: "transition_result list \<Rightarrow> NodeStateLabel option" where
  "first_passed [] = None"
| "first_passed (r # rs) = (if trr_Passed r then Some (trr_Target r) else first_passed rs)"

lemma first_passed_member:
  "first_passed rs = Some l \<Longrightarrow> \<exists>r \<in> set rs. trr_Passed r \<and> trr_Target r = l"
  by (induction rs) (auto split: if_splits)

lemma pick_transition_spec:
  "length ts = length rs \<Longrightarrow> pick_transition (zip ts rs) final p w = Some ((res, err), w') \<Longrightarrow>
   ts_Infos res = ts_Infos final \<and>
   ts_Next res = (if err = None then (case first_passed rs of None \<Rightarrow> ts_Next final | Some l \<Rightarrow> l)
                  else ts_Next final)"
proof (induction ts rs rule: list_induct2)
  case (Cons t ts r rs)
  then show ?case
    by (cases "trr_Passed r") (auto simp: bind_eq_Some_conv split: option.splits)
qed auto

lemma transitionDefault_spec:
  assumes "transitionDefault p current ts w = Some ((res, err), w')"
  shows "list_all2 (reports p) ts (ts_Infos res)"
    and "err \<noteq> None \<Longrightarrow> ts_Next res = current"
    and "err = None \<Longrightarrow>
      ts_Next res = (case first_passed (ts_Infos res) of None \<Rightarrow> current | Some l \<Rightarrow> l)"
proof -
  obtain rs es w1 where ex: "exec_transitions ts p ([], []) w = Some ((rs, es), w1)"
    using assms by (auto simp: transitionDefault_def bind_eq_Some_conv)
  from exec_transitions_reports [OF ex] have rep: "list_all2 (reports p) ts rs" by auto
  then have len: "length ts = length rs" by (rule list_all2_lengthD)
  let ?final = "\<lparr>ts_Next = current, ts_Infos = rs\<rparr>"
  show "list_all2 (reports p) ts (ts_Infos res)" "err \<noteq> None \<Longrightarrow> ts_Next res = current"
    "err = None \<Longrightarrow>
      ts_Next res = (case first_passed (ts_Infos res) of None \<Rightarrow> current | Some l \<Rightarrow> l)"
    using assms ex rep pick_transition_spec [OF len, of ?final p w1]
    by (auto simp: transitionDefault_def Let_def split: option.splits)
qed

text \<open>
  The contract \<open>state.go\<close> documents for implementations of \<open>NodeState\<close>, and what a
  caller may conclude from it.
\<close>

locale node_state_interface =
  fixes label :: NodeStateLabel
    and trans :: "('s, transitions_result \<times> error option) plugin_method"
    and edges :: "'s transition list"
  assumes trans_error: "trans p w = Some ((res, Some e), w') \<Longrightarrow> ts_Next res = label"
    and trans_next: "trans p w = Some ((res, None), w') \<Longrightarrow> ts_Next res \<noteq> label \<Longrightarrow>
      first_passed (ts_Infos res) = Some (ts_Next res)"
    and trans_infos: "trans p w = Some ((res, err), w') \<Longrightarrow> list_all2 (reports p) edges (ts_Infos res)"
begin

lemma moved_by_edge:
  assumes "trans p w = Some ((res, err), w')" and "ts_Next res \<noteq> label"
  shows "err = None \<and> (\<exists>(t, r) \<in> set (zip edges (ts_Infos res)).
    tr_Next t = ts_Next res \<and> trr_Passed r \<and> reports p t r)"
proof -
  have err: "err = None" using assms trans_error by (cases err) auto
  with assms trans_next have "first_passed (ts_Infos res) = Some (ts_Next res)" by blast
  then obtain r where r: "r \<in> set (ts_Infos res)" "trr_Passed r" "trr_Target r = ts_Next res"
    by (auto dest: first_passed_member)
  from r(1) obtain i where i: "i < length (ts_Infos res)" "r = ts_Infos res ! i"
    by (auto simp: in_set_conv_nth)
  have la: "list_all2 (reports p) edges (ts_Infos res)" using assms(1) by (rule trans_infos)
  then have len: "length edges = length (ts_Infos res)" by (rule list_all2_lengthD)
  have rep: "reports p (edges ! i) r" using la i len by (simp add: list_all2_conv_all_nth)
  have "(edges ! i, r) \<in> set (zip edges (ts_Infos res))"
    using i len by (auto simp: in_set_zip)
  with err r rep show ?thesis by (force simp: reports_def)
qed

lemma guarded_by_maintenance:
  assumes "trans p w = Some ((res, err), w')" and "P_InMaintenance p" and "label \<noteq> InMaintenance"
  shows "ts_Next res \<noteq> InMaintenance"
  using moved_by_edge [OF assms(1)] assms(2,3) by (auto simp: reports_def)

end

interpretation nst: node_state_interface "NodeState_Label st" "NodeState_Transition st"
    "pc_Transitions (NodeState_chains st)" for st
proof
  fix p res e w w'
  assume "NodeState_Transition st p w = Some ((res, Some e), w')"
  then show "ts_Next res = NodeState_Label st"
    unfolding NodeState_Transition_def using transitionDefault_spec(2) by fastforce
next
  fix p res w w'
  assume a: "NodeState_Transition st p w = Some ((res, None), w')" and "ts_Next res \<noteq> NodeState_Label st"
  then show "first_passed (ts_Infos res) = Some (ts_Next res)"
    using transitionDefault_spec(3) [OF a [unfolded NodeState_Transition_def]]
    by (auto split: option.splits)
next
  fix p res err w w'
  assume "NodeState_Transition st p w = Some ((res, err), w')"
  then show "list_all2 (reports p) (pc_Transitions (NodeState_chains st)) (ts_Infos res)"
    unfolding NodeState_Transition_def by (rule transitionDefault_spec(1))
qed

section \<open>Notifications\<close>

text \<open>The two writes an instance can make to its own entry: initialise it, stamp it.\<close>

lemma notify_instance_writes:
  assumes "notify_instance p d n w = Some ((err, d'), w')"
  obtains ns where "d_Profiles d' = d_Profiles d"
    and "ns = d_Notifications d \<or> gm_put (ni_Name n) zero_time (d_Notifications d) = Some ns"
    and "d_Notifications d' = ns \<or> err = None \<and> (\<exists>t. gm_put (ni_Name n) t ns = Some (d_Notifications d'))"
proof (cases "ni_Schedule n")
  case None
  with assms that show thesis by (auto simp: notify_instance_def)
next
  case (Some sched)
  from assms Some obtain ns where ns: "(case gm_get (d_Notifications d) (ni_Name n) of
        None \<Rightarrow> gm_put (ni_Name n) zero_time (d_Notifications d)
      | Some _ \<Rightarrow> Some (d_Notifications d)) = Some ns"
    by (auto simp: notify_instance_def bind_eq_Some_conv)
  obtain now w1 where now: "time_Now w = (now, w1)" by (cases "time_Now w")
  have wr: "ns = d_Notifications d \<or> gm_put (ni_Name n) zero_time (d_Notifications d) = Some ns"
    using ns by (auto split: option.splits)
  have "d_Profiles d' = d_Profiles d \<and>
      (d_Notifications d' = ns \<or> err = None \<and> (\<exists>t. gm_put (ni_Name n) t ns = Some (d_Notifications d')))"
  proof (cases "gm_get (d_Profiles d) (P_Profile p)")
    case None
    with assms Some ns now show ?thesis by (auto simp: notify_instance_def)
  next
    case (Some pd)
    show ?thesis
    proof (cases pd)
      case None
      with assms Some \<open>ni_Schedule n = _\<close> ns now show ?thesis by (auto simp: notify_instance_def)
    next
      case (Some cur)
      let ?sp = "\<lparr>sn_Current = \<lparr>nd_State = pd_Current cur, nd_Time = UTC now\<rparr>,
        sn_Last = \<lparr>nd_State = pd_Previous cur,
          nd_Time = (case gm_get ns (ni_Name n) of None \<Rightarrow> zero_time | Some t \<Rightarrow> t)\<rparr>,
        sn_StateChange = pd_Transition cur\<rparr>"
      obtain b w2 where sn: "ShouldNotify sched ?sp w1 = (b, w2)"
        by (cases "ShouldNotify sched ?sp w1")
      note eqs = \<open>ni_Schedule n = _\<close> \<open>gm_get (d_Profiles d) _ = _\<close> Some ns now sn
      show ?thesis
      proof (cases b)
        case False
        with assms eqs show ?thesis by (simp add: notify_instance_def Let_def) auto
      next
        case True
        with assms eqs obtain err1 w3 where "Notify (ni_Plugin n) p w2 = Some (err1, w3)"
          by (cases "Notify (ni_Plugin n) p w2") (simp_all add: notify_instance_def Let_def, auto)
        with assms eqs True show ?thesis
          by (cases err1; cases "gm_put (ni_Name n) (UTC now) ns")
            (simp_all add: notify_instance_def Let_def, auto)
      qed
    qed
  qed
  with wr that show thesis by blast
qed

lemma notify_instance_frame:
  assumes "notify_instance p d n w = Some ((err, d'), w')"
  shows "d_Profiles d' = d_Profiles d"
    and "k \<noteq> ni_Name n \<Longrightarrow> gm_get (d_Notifications d') k = gm_get (d_Notifications d) k"
    and "d_Notifications d \<noteq> None \<Longrightarrow> d_Notifications d' \<noteq> None"
proof -
  obtain ns where w: "d_Profiles d' = d_Profiles d"
      "ns = d_Notifications d \<or> gm_put (ni_Name n) zero_time (d_Notifications d) = Some ns"
      "d_Notifications d' = ns \<or> (\<exists>t. gm_put (ni_Name n) t ns = Some (d_Notifications d'))"
    using notify_instance_writes [OF assms] by metis
  show "d_Profiles d' = d_Profiles d" by (rule w(1))
  show "gm_get (d_Notifications d') k = gm_get (d_Notifications d) k" if "k \<noteq> ni_Name n"
  proof -
    have "gm_get ns k = gm_get (d_Notifications d) k"
      using w(2) gm_get_put [of "ni_Name n" zero_time "d_Notifications d" ns] that by auto
    moreover have "gm_get (d_Notifications d') k = gm_get ns k"
      using w(3) gm_get_put [of "ni_Name n" _ ns "d_Notifications d'"] that by auto
    ultimately show ?thesis by simp
  qed
  show "d_Notifications d' \<noteq> None" if "d_Notifications d \<noteq> None"
    using w(2,3) that gm_put_not_nil by metis
qed

lemma notify_instance_failed:
  assumes "notify_instance p d n w = Some ((Some e, d'), w')"
  shows "gm_get (d_Notifications d') (ni_Name n) \<in> {gm_get (d_Notifications d) (ni_Name n), Some zero_time}"
  using assms by (rule notify_instance_writes) (auto dest: gm_get_put)

lemma notifyDefault_error:
  assumes "notifyDefault p d ns w = Some ((Some e, d'), w')"
  shows "\<exists>pre n post d1 w1. ns = pre @ n # post \<and> notifyDefault p d pre w = Some ((None, d1), w1)
    \<and> notify_instance p d1 n w1 = Some ((Some e, d'), w')"
  using assms
proof (induction ns arbitrary: d w)
  case (Cons n ns)
  then obtain err d1 w1 where n: "notify_instance p d n w = Some ((err, d1), w1)"
    by (auto simp: bind_eq_Some_conv)
  show ?case
  proof (cases err)
    case None
    with Cons.prems n have "notifyDefault p d1 ns w1 = Some ((Some e, d'), w')" by simp
    from Cons.IH [OF this] obtain pre m post d2 w2 where "ns = pre @ m # post"
      "notifyDefault p d1 pre w1 = Some ((None, d2), w2)" "notify_instance p d2 m w2 = Some ((Some e, d'), w')"
      by blast
    with n None show ?thesis by (intro exI [of _ "n # pre"]) auto
  next
    case (Some e1)
    with Cons.prems n show ?thesis by (intro exI [of _ "[]"]) auto
  qed
qed simp

lemma notifyDefault_frame:
  "notifyDefault p d ns w = Some ((err, d'), w') \<Longrightarrow>
   d_Profiles d' = d_Profiles d \<and>
   (\<forall>k. k \<notin> ni_Name ` set ns \<longrightarrow> gm_get (d_Notifications d') k = gm_get (d_Notifications d) k)"
proof (induction ns arbitrary: d w)
  case (Cons n ns)
  from Cons.prems obtain err1 d1 w1 where n: "notify_instance p d n w = Some ((err1, d1), w1)"
    by (auto simp: bind_eq_Some_conv)
  show ?case
    using Cons notify_instance_frame [OF n] n by (cases err1) auto
qed simp

section \<open>Apply\<close>

text \<open>
  The ways \<open>Apply\<close> can return: before any plugin ran, with a pending \<open>Enter\<close>, on a
  handled error, or after a completed evaluation.
\<close>

lemma handleTransitionError_simps [simp]:
  "fst (fst (handleTransitionError p r d e s w)) = r\<lparr>ar_Error := Error e\<rparr>"
  "snd (fst (handleTransitionError p r d e s w)) =
     Some (WrapError (strings_ToLower s @ '' for profile '' @ P_Profile p @ '': '') e)"
  "fst (snd (handleTransitionError p r d e s w)) = d"
  by (simp_all add: handleTransitionError_def Let_def)

lemma handleTransitionError_eq:
  "handleTransitionError p r d e s w = ((r', err), d', w') \<Longrightarrow>
   ar_Next r' = ar_Next r \<and> d' = d \<and> (\<exists>m. err = Some (WrapError m e))"
  by (auto simp: handleTransitionError_def Let_def)

text \<open>A completed evaluation: notifications sent, checks evaluated, triggers of the move run.\<close>

definition evaluated ::
    "'s node_state \<Rightarrow> data \<Rightarrow> 's params \<Rightarrow> 's world \<Rightarrow> apply_result \<Rightarrow> data \<Rightarrow> 's world \<Rightarrow> bool" where
  "evaluated st d p w r d' w' \<longleftrightarrow>
     (\<exists>w2 w3 res. NodeState_Notify st p d w = Some ((None, d'), w2)
        \<and> NodeState_Transition st p w2 = Some ((res, None), w3)
        \<and> ar_Next r = ts_Next res \<and> ar_Transitions r = ts_Infos res
        \<and> (ts_Next res = NodeState_Label st \<and> w' = w3 \<or>
           ts_Next res \<noteq> NodeState_Label st \<and>
             (\<exists>w4 m. NodeState_Trigger st (ts_Next res) p w3 = Some (None, w4)
                \<and> w' = emit_event (n_Name (w_node w4)) ''ChangedMaintenanceState'' m w4)))"

lemma Apply_trigger_cases:
  assumes "Apply_trigger st d p r next w = Some ((r', err), d', w')"
    and "ar_Next r = NodeState_Label st"
  shows "d' = d \<and> ((\<exists>m e. err = Some (WrapError m e)) \<and> ar_Next r' = NodeState_Label st \<or>
     err = None \<and> ar_Next r' = next \<and> ar_Transitions r' = ar_Transitions r
     \<and> (next = NodeState_Label st \<and> w' = w \<or> next \<noteq> NodeState_Label st \<and>
         (\<exists>w4 m. NodeState_Trigger st next p w = Some (None, w4)
            \<and> w' = emit_event (n_Name (w_node w4)) ''ChangedMaintenanceState'' m w4)))"
proof (cases "next = NodeState_Label st")
  case True
  with assms show ?thesis by (auto simp: Apply_trigger_def)
next
  case False
  then obtain err4 w4 where t: "NodeState_Trigger st next p w = Some (err4, w4)"
    using assms(1) by (auto simp: Apply_trigger_def bind_eq_Some_conv)
  with assms False show ?thesis
    by (cases err4) (auto simp: Apply_trigger_def dest!: handleTransitionError_eq)
qed

lemma Apply_evaluate_cases:
  assumes run: "Apply_evaluate st d p r w = Some ((r', err), d', w')"
    and start: "ar_Next r = NodeState_Label st"
  shows "d_Profiles d' = d_Profiles d \<and>
    ((\<exists>m e. err = Some (WrapError m e)) \<and> ar_Next r' = NodeState_Label st \<or>
     err = None \<and> evaluated st d p w r' d' w')"
proof -
  obtain err2 d2 w2 where n: "NodeState_Notify st p d w = Some ((err2, d2), w2)"
    using run by (auto simp: Apply_evaluate_def bind_eq_Some_conv)
  then have d2: "d_Profiles d2 = d_Profiles d"
    by (auto simp: NodeState_Notify_def dest: notifyDefault_frame)
  show ?thesis
  proof (cases err2)
    case (Some e)
    with run n d2 start show ?thesis
      by (auto simp: Apply_evaluate_def dest!: handleTransitionError_eq)
  next
    case None
    obtain res err3 w3 where t: "NodeState_Transition st p w2 = Some ((res, err3), w3)"
      using run n None by (auto simp: Apply_evaluate_def bind_eq_Some_conv)
    show ?thesis
    proof (cases err3)
      case (Some e)
      with run n None t d2 start show ?thesis
        by (auto simp: Apply_evaluate_def Let_def dest!: handleTransitionError_eq)
    next
      case err3: None
      with run n None t have
        "Apply_trigger st d2 p (r\<lparr>ar_Transitions := ts_Infos res\<rparr>) (ts_Next res) w3 = Some ((r', err), d', w')"
        by (simp add: Apply_evaluate_def Let_def)
      from Apply_trigger_cases [OF this] start d2 n None t err3 show ?thesis
        by (auto simp: evaluated_def)
    qed
  qed
qed

lemma Apply_stages:
  assumes "Apply st d p w = Some ((r, err), d', w')"
  obtains (missing) "gm_get (d_Profiles d) (P_Profile p) = None" "err \<noteq> None"
      "ar_Next r = NodeState_Label st" "d' = d" "w' = w"
  | (enter) info e where "gm_get (d_Profiles d) (P_Profile p) = Some (Some info)"
      "pd_Previous info \<noteq> pd_Current info" "NodeState_Enter st p w = Some (Some e, w')"
      "as_RetryError e" "err = Some e" "ar_Next r = NodeState_Label st" "d' = d"
  | (failed) info e m where "gm_get (d_Profiles d) (P_Profile p) = Some (Some info)"
      "err = Some (WrapError m e)" "ar_Next r = NodeState_Label st" "d_Profiles d' = d_Profiles d"
  | (ran) info w1 where "gm_get (d_Profiles d) (P_Profile p) = Some (Some info)"
      "err = None" "d_Profiles d' = d_Profiles d"
      "pd_Previous info = pd_Current info \<and> w1 = w \<or>
       pd_Previous info \<noteq> pd_Current info \<and> NodeState_Enter st p w = Some (None, w1)"
      "evaluated st d p w1 r d' w'"
proof (cases "gm_get (d_Profiles d) (P_Profile p)")
  case None
  with assms have "err \<noteq> None \<and> ar_Next r = NodeState_Label st \<and> d' = d \<and> w' = w"
    by (auto simp: Apply_def Let_def)
  with None missing show thesis by blast
next
  case (Some pd)
  with assms obtain info where info: "gm_get (d_Profiles d) (P_Profile p) = Some (Some info)"
    by (cases pd) (auto simp: Apply_def Let_def)
  let ?r = "\<lparr>ar_Next = NodeState_Label st, ar_Transitions = [], ar_Error = []\<rparr>"
  obtain err1 w1 where e1: "(if pd_Previous info \<noteq> pd_Current info then NodeState_Enter st p w
      else Some (None, w)) = Some (err1, w1)"
    using assms info by (auto simp: Apply_def Let_def bind_eq_Some_conv)
  show thesis
  proof (cases err1)
    case (Some e)
    then have en: "pd_Previous info \<noteq> pd_Current info" "NodeState_Enter st p w = Some (Some e, w1)"
      using e1 by (auto split: if_splits)
    show thesis
    proof (cases "as_RetryError e")
      case True
      with assms info en have "err = Some e \<and> ar_Next r = NodeState_Label st \<and> d' = d \<and> w' = w1"
        by (auto simp: Apply_def Let_def)
      with enter [OF info en(1)] en(2) True show thesis by blast
    next
      case False
      with assms info en have "handleTransitionError p ?r d e
          (''Failed to enter state '' @ NodeState_Label st) w1 = ((r, err), d', w')"
        by (simp add: Apply_def Let_def)
      from handleTransitionError_eq [OF this] failed [OF info] show thesis by auto
    qed
  next
    case None
    with assms info e1 have "Apply_evaluate st d p ?r w1 = Some ((r, err), d', w')"
      by (simp add: Apply_def Let_def)
    from Apply_evaluate_cases [OF this] have "d_Profiles d' = d_Profiles d"
      "(\<exists>m e. err = Some (WrapError m e)) \<and> ar_Next r = NodeState_Label st \<or>
       err = None \<and> evaluated st d p w1 r d' w'" by simp_all
    moreover have "pd_Previous info = pd_Current info \<and> w1 = w \<or>
        pd_Previous info \<noteq> pd_Current info \<and> NodeState_Enter st p w = Some (None, w1)"
      using e1 None by (auto split: if_splits)
    ultimately show thesis using ran [OF info] failed [OF info] by blast
  qed
qed

section \<open>Profiles of a node\<close>

text \<open>Profiles are stored under their own name, as \<open>loadProfiles\<close> does.\<close>

definition named_by_key :: "(string, 's profile) gomap \<Rightarrow> bool" where
  "named_by_key available \<longleftrightarrow> (\<forall>k pf. gm_get available k = Some pf \<longrightarrow> pf_Name pf = k)"

text \<open>No \<open>*ProfileData\<close> entry is nil.\<close>

definition no_nil_profiles :: "data \<Rightarrow> bool" where
  "no_nil_profiles d \<longleftrightarrow> (\<forall>k. gm_get (d_Profiles d) k \<noteq> Some None)"

definition label_names :: "string \<Rightarrow> string set" where
  "label_names profilesStr = set (strings_Split (or_default profilesStr) profileSeparator)"

lemma ContainsProfile_label_names:
  "ContainsProfile (or_default s) n \<longleftrightarrow> n \<in> label_names s"
  by (simp add: ContainsProfile_def label_names_def)

lemma set_getProfiles:
  "pf \<in> set (getProfiles (or_default s) available) \<longleftrightarrow>
   (\<exists>k \<in> label_names s. gm_get available k = Some pf)"
  by (force simp: getProfiles_def label_names_def List.map_filter_def)

lemma names_getProfiles:
  "named_by_key available \<Longrightarrow>
   pf_Name ` set (getProfiles (or_default s) available) = {k \<in> label_names s. gm_get available k \<noteq> None}"
  by (force simp: set_getProfiles named_by_key_def image_iff)

definition fresh_profile :: "'w world \<Rightarrow> 'w world \<Rightarrow> profile_data \<Rightarrow> bool" where
  "fresh_profile w w' pd \<longleftrightarrow> pd_Current pd = Operational \<and> pd_Previous pd = Operational
     \<and> w_now w \<le> t_ns (pd_Transition pd) \<and> t_ns (pd_Transition pd) \<le> w_now w'"

lemma init_profiles_total:
  "d_Profiles d \<noteq> None \<Longrightarrow> \<exists>d' w'. init_profiles pfs d w = Some (d', w') \<and> d_Profiles d' \<noteq> None"
proof (induction pfs arbitrary: d w)
  case (Cons pf pfs)
  let ?v = "Some \<lparr>pd_Transition = fst (time_Now w), pd_Current = Operational, pd_Previous = Operational\<rparr>"
  obtain ps where ps: "gm_put (pf_Name pf) ?v (d_Profiles d) = Some ps"
    using gm_put_total [OF Cons.prems] by fast
  have go: "\<exists>d' w'. init_profiles pfs (d\<lparr>d_Profiles := ps\<rparr>) (snd (time_Now w)) = Some (d', w') \<and> d_Profiles d' \<noteq> None"
    by (rule Cons.IH) (simp add: gm_put_not_nil [OF ps])
  show ?case
  proof (cases "gm_get (d_Profiles d) (pf_Name pf)")
    case None
    with go ps show ?thesis by (simp add: Let_def case_prod_beta)
  next
    case (Some x)
    with Cons.IH [OF Cons.prems] show ?thesis by simp
  qed
qed simp

lemma init_profiles_clock: "init_profiles pfs d w = Some (d', w') \<Longrightarrow> w_now w \<le> w_now w'"
proof (induction pfs arbitrary: d w)
  case (Cons pf pfs)
  then show ?case using time_Now_mono [of w]
    by (fastforce simp: Let_def case_prod_beta bind_eq_Some_conv split: option.splits)
qed simp

lemma init_profiles_frame:
  "init_profiles pfs d w = Some (d', w') \<Longrightarrow>
   d_Notifications d' = d_Notifications d \<and> w_node w' = w_node w \<and> w_api w' = w_api w"
proof (induction pfs arbitrary: d w)
  case (Cons pf pfs)
  then show ?case
    by (fastforce simp: Let_def case_prod_beta bind_eq_Some_conv split: option.splits)
qed simp

lemma init_profiles_get:
  "init_profiles pfs d w = Some (d', w') \<Longrightarrow>
   case gm_get (d_Profiles d) n of
     Some x \<Rightarrow> gm_get (d_Profiles d') n = Some x
   | None \<Rightarrow> if n \<in> pf_Name ` set pfs
             then \<exists>pd. gm_get (d_Profiles d') n = Some (Some pd) \<and> fresh_profile w w' pd
             else gm_get (d_Profiles d') n = None"
proof (induction pfs arbitrary: d w)
  case Nil
  then show ?case by (auto split: option.splits)
next
  case (Cons pf pfs)
  show ?case
  proof (cases "gm_get (d_Profiles d) (pf_Name pf)")
    case (Some x)
    with Cons show ?thesis by (force split: option.splits)
  next
    case None
    let ?pd = "\<lparr>pd_Transition = fst (time_Now w), pd_Current = Operational, pd_Previous = Operational\<rparr>"
    from Cons.prems None obtain ps where ps: "gm_put (pf_Name pf) (Some ?pd) (d_Profiles d) = Some ps"
      and rest: "init_profiles pfs (d\<lparr>d_Profiles := ps\<rparr>) (snd (time_Now w)) = Some (d', w')"
      by (auto simp: Let_def case_prod_beta bind_eq_Some_conv)
    have mono: "w_now w \<le> w_now (snd (time_Now w))" "w_now (snd (time_Now w)) \<le> w_now w'"
      by (rule time_Now_mono) (rule init_profiles_clock [OF rest])
    have fresh: "fresh_profile w w' pd" if "fresh_profile (snd (time_Now w)) w' pd" for pd
      using that mono by (auto simp: fresh_profile_def)
    have new: "fresh_profile w w' ?pd" using mono by (simp add: fresh_profile_def)
    show ?thesis
      using Cons.IH [OF rest] gm_get_put [OF ps] None new fresh
      by (cases "n = pf_Name pf") (auto split: option.splits)
  qed
qed

lemma gm_get_fold_del: "gm_get (fold gm_del ks m) k = (if k \<in> set ks then None else gm_get m k)"
  by (induction ks arbitrary: m) auto

lemma fold_gm_del_nil [simp]: "fold gm_del ks m = None \<longleftrightarrow> m = None"
  by (induction ks arbitrary: m) auto

lemma stale_removed:
  "gm_get (fold gm_del (filter (\<lambda>n. \<not> P n) (map fst (gm_items m))) m) k
   = (if P k then gm_get m k else None)"
  by (auto simp: gm_get_fold_del image_iff) (metis gm_items_get fst_conv not_None_eq)

lemma MaintainProfileStates_total:
  "\<exists>d' w'. MaintainProfileStates d s available w = Some (d', w') \<and> d_Profiles d' \<noteq> None"
  unfolding MaintainProfileStates_def Let_def by (rule init_profiles_total) simp

lemma MaintainProfileStates_get:
  assumes "MaintainProfileStates d s available w = Some (d', w')" and "named_by_key available"
  shows "if n \<in> label_names s then
      (case gm_get (d_Profiles d) n of
         Some x \<Rightarrow> gm_get (d_Profiles d') n = Some x
       | None \<Rightarrow> if gm_get available n \<noteq> None
                 then \<exists>pd. gm_get (d_Profiles d') n = Some (Some pd) \<and> fresh_profile w w' pd
                 else gm_get (d_Profiles d') n = None)
    else gm_get (d_Profiles d') n = None"
  using init_profiles_get [OF assms(1) [unfolded MaintainProfileStates_def Let_def], of n]
    names_getProfiles [OF assms(2), of s]
  by (auto simp: stale_removed ContainsProfile_label_names split: option.splits if_splits)

lemma no_nil_profilesD:
  "no_nil_profiles d \<Longrightarrow> gm_get (d_Profiles d) k = Some x \<Longrightarrow> \<exists>pd. x = Some pd"
  by (cases x) (auto simp: no_nil_profiles_def)

text \<open>The four fates of a name: removed, kept, created, or unknown.\<close>

lemma MaintainProfileStates_removed:
  assumes "MaintainProfileStates d s available w = Some (d', w')" "named_by_key available"
    and "n \<notin> label_names s"
  shows "gm_get (d_Profiles d') n = None"
  using MaintainProfileStates_get [OF assms(1,2), of n] assms(3) by simp

lemma MaintainProfileStates_kept:
  assumes "MaintainProfileStates d s available w = Some (d', w')" "named_by_key available"
    and "n \<in> label_names s" "gm_get (d_Profiles d) n = Some x"
  shows "gm_get (d_Profiles d') n = Some x"
  using MaintainProfileStates_get [OF assms(1,2), of n] assms(3,4) by simp

lemma MaintainProfileStates_created:
  assumes "MaintainProfileStates d s available w = Some (d', w')" "named_by_key available"
    and "n \<in> label_names s" "gm_get (d_Profiles d) n = None" "gm_get available n \<noteq> None"
  shows "\<exists>pd. gm_get (d_Profiles d') n = Some (Some pd) \<and> fresh_profile w w' pd"
  using MaintainProfileStates_get [OF assms(1,2), of n] assms(3-5) by simp

lemma MaintainProfileStates_unknown:
  assumes "MaintainProfileStates d s available w = Some (d', w')" "named_by_key available"
    and "gm_get (d_Profiles d) n = None" "gm_get available n = None"
  shows "gm_get (d_Profiles d') n = None"
  using MaintainProfileStates_get [OF assms(1,2), of n] assms(3-4) by (simp split: if_splits)

lemma MaintainProfileStates_frame:
  "MaintainProfileStates d s available w = Some (d', w') \<Longrightarrow>
   d_Notifications d' = d_Notifications d \<and> w_node w' = w_node w \<and> w_api w' = w_api w"
  by (auto simp: MaintainProfileStates_def Let_def dest: init_profiles_frame)

lemma with_states_Some:
  "(\<forall>pf \<in> set pfs. \<exists>pd. gm_get (d_Profiles d) (pf_Name pf) = Some (Some pd)) \<Longrightarrow>
   \<exists>pss. with_states d pfs = Some pss"
  by (induction pfs) auto

lemma with_states_spec:
  "with_states d pfs = Some pss \<Longrightarrow>
   map ps_Profile pss = pfs \<and>
   (\<forall>ps \<in> set pss. \<exists>pd. gm_get (d_Profiles d) (pf_Name (ps_Profile ps)) = Some (Some pd)
      \<and> ps_State ps = pd_Current pd)"
  by (induction pfs arbitrary: pss) (auto simp: bind_eq_Some_conv split: option.splits)

lemma GetProfilesWithState_after_maintain:
  assumes m: "MaintainProfileStates d s available w = Some (d', w')"
    and av: "named_by_key available" and nn: "no_nil_profiles d"
  shows "\<exists>pss. GetProfilesWithState d' s available = Some pss"
  unfolding GetProfilesWithState_def
proof (rule with_states_Some, rule ballI)
  fix pf assume "pf \<in> set (getProfiles (or_default s) available)"
  then have "pf_Name pf \<in> label_names s" "gm_get available (pf_Name pf) \<noteq> None"
    using av by (auto simp: set_getProfiles named_by_key_def)
  then show "\<exists>pd. gm_get (d_Profiles d') (pf_Name pf) = Some (Some pd)"
    using MaintainProfileStates_kept [OF m av] MaintainProfileStates_created [OF m av]
      no_nil_profilesD [OF nn] by (cases "gm_get (d_Profiles d) (pf_Name pf)") blast+
qed

lemma MaintainProfileStates_no_nil:
  assumes m: "MaintainProfileStates d s available w = Some (d', w')"
    and av: "named_by_key available" and nn: "no_nil_profiles d"
  shows "no_nil_profiles d'"
  unfolding no_nil_profiles_def
proof
  fix k
  show "gm_get (d_Profiles d') k \<noteq> Some None"
    using MaintainProfileStates_get [OF m av, of k] no_nil_profilesD [OF nn, of k]
    by (cases "gm_get (d_Profiles d) k") (auto split: if_splits)
qed

text \<open>A second call finds nothing to do: it neither reads the clock nor changes an entry.\<close>

lemma init_profiles_noop:
  "\<forall>pf \<in> set pfs. gm_get (d_Profiles d) (pf_Name pf) \<noteq> None \<Longrightarrow> init_profiles pfs d w = Some (d, w)"
  by (induction pfs) auto

lemma fold_gm_del_noop: "\<forall>k \<in> set ks. gm_get m k = None \<Longrightarrow> gm_get (fold gm_del ks m) = gm_get m"
  by (auto simp: gm_get_fold_del fun_eq_iff)

lemma stale_none:
  "(\<And>k. gm_get m k \<noteq> None \<Longrightarrow> P k) \<Longrightarrow> filter (\<lambda>n. \<not> P n) (map fst (gm_items m)) = []"
  by (auto simp: filter_empty_conv) (metis gm_items_get option.distinct(1) prod.collapse fst_conv)

lemma MaintainProfileStates_idem:
  assumes m: "MaintainProfileStates d s available w = Some (d', w')" and av: "named_by_key available"
  shows "MaintainProfileStates d' s available w2 = Some (d', w2)"
proof -
  note get = MaintainProfileStates_get [OF m av]
  have nn: "d_Profiles d' \<noteq> None"
    using MaintainProfileStates_total [of d s available w] m by auto
  then have ens: "gm_ensure (d_Profiles d') = d_Profiles d'" by auto
  have stale: "filter (\<lambda>n. \<not> ContainsProfile (or_default s) n) (map fst (gm_items (d_Profiles d'))) = []"
  proof (rule stale_none)
    fix k assume k: "gm_get (d_Profiles d') k \<noteq> None"
    have "k \<in> label_names s"
      by (rule ccontr) (use k MaintainProfileStates_removed [OF m av, of k] in simp)
    then show "ContainsProfile (or_default s) k" by (simp add: ContainsProfile_label_names)
  qed
  have "gm_get (d_Profiles d') (pf_Name pf) \<noteq> None"
    if "pf \<in> set (getProfiles (or_default s) available)" for pf
    using get [of "pf_Name pf"] that av
    by (auto simp: set_getProfiles named_by_key_def split: option.splits)
  then show ?thesis
    by (simp add: MaintainProfileStates_def Let_def ens stale init_profiles_noop)
qed

end
