(* ===== verification/Registry.thy ===== *)
theory Registry
  imports Plugins
begin

text \<open>
  \<open>plugin/plugin.go\<close> and the schedule constructors of \<open>plugin/notification.go\<close>: the
  registry, the construction of chains from configuration strings and the loading of plugin
  instances. The YAML library (\<open>ucfg\<close>) and the expression library (\<open>gval\<close>) are not
  part of the repository: a decoded configuration is a value of an arbitrary type \<open>'c\<close>, the
  decoders and the expression compiler are parameters. A plugin constructor receives the
  address of the object it allocates.
\<close>

section \<open>Parsing of clock times\<close>

text \<open>\<open>time.Parse("15:04", s)\<close>: an hour of one or two digits, a colon, two digits.\<close>

definition digit :: "char \<Rightarrow> int option" where
  "digit c = (let n = of_char c :: int in if 48 \<le> n \<and> n \<le> 57 then Some (n - 48) else None)"

fun getnum :: "bool \<Rightarrow> string \<Rightarrow> (int \<times> string) option" where
  "getnum fixed [] = None"
| "getnum fixed [a] = (case digit a of None \<Rightarrow> None | Some x \<Rightarrow> if fixed then None else Some (x, []))"
| "getnum fixed (a # b # rest) =
     (case digit a of
        None \<Rightarrow> None
      | Some x \<Rightarrow>
          (case digit b of
             None \<Rightarrow> if fixed then None else Some (x, b # rest)
           | Some y \<Rightarrow> Some (10 * x + y, rest)))"

definition parse_error :: "string \<Rightarrow> error" where
  "parse_error s = ErrorString (''parsing time '' @ [CHR 34] @ s @ [CHR 34])"

definition time_Parse_HHMM :: "string \<Rightarrow> error + gotime" where
  "time_Parse_HHMM s =
     (case getnum False s of
        Some (h, CHR '':'' # rest) \<Rightarrow>
          (case getnum True rest of
             Some (m, []) \<Rightarrow>
               if h < 24 \<and> m < 60 then Inr (time_Date 0 1 1 h m 0 0) else Inl (parse_error s)
           | _ \<Rightarrow> Inl (parse_error s))
      | _ \<Rightarrow> Inl (parse_error s))"

section \<open>Schedules from configuration\<close>

record 'c decoders =
  dec_interval :: "'c \<Rightarrow> error + duration option" \<comment> \<open>field \<open>interval\<close>, if present\<close>
  dec_delay :: "'c \<Rightarrow> error + duration option" \<comment> \<open>field \<open>delay\<close>, if present\<close>
  dec_scheduled :: "'c \<Rightarrow> error + string \<times> string list" \<comment> \<open>fields \<open>instant\<close>, \<open>weekdays\<close>\<close>

definition newNotifyPeriodic :: "'c decoders \<Rightarrow> 'c \<Rightarrow> error + scheduler" where
  "newNotifyPeriodic dec config =
     (case dec_interval dec config of
        Inl e \<Rightarrow> Inl e
      | Inr i \<Rightarrow> Inr (NotifyPeriodic (case i of None \<Rightarrow> Hour | Some d \<Rightarrow> d)))"

fun parse_weekdays :: "string list \<Rightarrow> error + weekday list" where
  "parse_weekdays [] = Inr []"
| "parse_weekdays (s # ss) =
     (case WeekdayFromString s of
        Inl e \<Rightarrow> Inl e
      | Inr d \<Rightarrow> (case parse_weekdays ss of Inl e \<Rightarrow> Inl e | Inr ds \<Rightarrow> Inr (d # ds)))"

definition newNotifyScheduled :: "'c decoders \<Rightarrow> 'c \<Rightarrow> error + scheduler" where
  "newNotifyScheduled dec config =
     (case dec_scheduled dec config of
        Inl e \<Rightarrow> Inl e
      | Inr (inst, weekdays) \<Rightarrow>
          if weekdays = [] then Inl (ErrorString ''a notification schedule needs to have weekdays specified'')
          else case time_Parse_HHMM inst of
            Inl e \<Rightarrow> Inl e
          | Inr t \<Rightarrow> (case parse_weekdays weekdays of
                       Inl e \<Rightarrow> Inl e
                     | Inr ds \<Rightarrow> Inr (NotifyScheduled t ds)))"

definition newNotifyOneshot :: "'c decoders \<Rightarrow> 'c \<Rightarrow> error + scheduler" where
  "newNotifyOneshot dec config =
     (case dec_delay dec config of
        Inl e \<Rightarrow> Inl e
      | Inr d \<Rightarrow> Inr (NotifyOneshot (case d of None \<Rightarrow> Minute | Some d \<Rightarrow> d)))"

section \<open>Registry\<close>

type_synonym ('c, 'p) constructor = "'c option \<Rightarrow> nat \<Rightarrow> (error + 'p) option"

record ('s, 'c) registry =
  NotificationInstances :: "(string, 's notification_instance) gomap"
  NotificationPlugins :: "(string, ('c, 's notifier) constructor) gomap"
  CheckInstances :: "(string, 's check_instance) gomap"
  CheckPlugins :: "(string, ('c, 's checker) constructor) gomap"
  TriggerInstances :: "(string, 's trigger_instance) gomap"
  TriggerPlugins :: "(string, ('c, 's trigger) constructor) gomap"
  next_address :: nat

definition NewRegistry :: "('s, 'c) registry" where
  "NewRegistry = \<lparr>NotificationInstances = gm_make, NotificationPlugins = gm_make,
     CheckInstances = gm_make, CheckPlugins = gm_make,
     TriggerInstances = gm_make, TriggerPlugins = gm_make, next_address = 0\<rparr>"

section \<open>Chains from configuration strings\<close>

definition AndSeparator :: string where "AndSeparator = ''&&''"
definition OrSeparator :: string where "OrSeparator = ''||''"

definition quoted_unknown :: "string \<Rightarrow> string \<Rightarrow> error" where
  "quoted_unknown kind name = ErrorString (''the requested '' @ kind @ '' '' @ [CHR 34] @ name @ [CHR 34]
     @ '' is not known to the registry'')"

definition stripSymbols :: "string \<Rightarrow> string list \<Rightarrow> string" where
  "stripSymbols base symbols = foldl (\<lambda>b symbol. strings_ReplaceAll b symbol []) base symbols"

fun lookup_names :: "(string, 'i) gomap \<Rightarrow> string \<Rightarrow> string list \<Rightarrow> error + 'i list" where
  "lookup_names m kind [] = Inr []"
| "lookup_names m kind (name # names) =
     (case gm_get m (strings_TrimSpace1 name) of
        None \<Rightarrow> Inl (quoted_unknown kind name)
      | Some i \<Rightarrow> (case lookup_names m kind names of Inl e \<Rightarrow> Inl e | Inr is \<Rightarrow> Inr (i # is)))"

definition NewCheckChain ::
    "(string \<Rightarrow> error + evaluable) \<Rightarrow> ('s, 'c) registry \<Rightarrow> string \<Rightarrow> error + 's check_chain" where
  "NewCheckChain gval r config =
     (if config = [] then Inr empty_check_chain
      else let stripped = stripSymbols config [AndSeparator, OrSeparator, ''('', '')'', ''!'']
           in case lookup_names (CheckInstances r) ''check instance''
                     (filter (\<lambda>name. name \<noteq> []) (strings_Split stripped '' '')) of
                Inl e \<Rightarrow> Inl e
              | Inr plugins \<Rightarrow>
                  (case gval config of
                     Inl e \<Rightarrow> Inl e
                   | Inr ev \<Rightarrow> Inr \<lparr>cc_Plugins = plugins, cc_Evaluable = Some ev, cc_Expression = config\<rparr>))"

definition NewNotificationChain :: "('s, 'c) registry \<Rightarrow> string \<Rightarrow> error + 's notification_chain" where
  "NewNotificationChain r config =
     (if config = [] then Inr []
      else lookup_names (NotificationInstances r) ''notification instance'' (strings_Split config AndSeparator))"

definition NewTriggerChain :: "('s, 'c) registry \<Rightarrow> string \<Rightarrow> error + 's trigger_chain" where
  "NewTriggerChain r config =
     (if config = [] then Inr []
      else lookup_names (TriggerInstances r) ''trigger instance'' (strings_Split config AndSeparator))"

section \<open>Loading instances\<close>

record 'c instance_descriptor =
  id_Name :: string
  id_Type :: string
  id_Config :: "'c option"

record 'c schedule_descriptor =
  sd_Type :: string
  sd_Config :: "'c option"

record 'c notification_descriptor =
  nod_Name :: string
  nod_Type :: string
  nod_Schedule :: "'c schedule_descriptor"
  nod_Config :: "'c option"

record 'c instances_descriptor =
  ids_Check :: "'c instance_descriptor list"
  ids_Notify :: "'c notification_descriptor list"
  ids_Trigger :: "'c instance_descriptor list"

definition wrapConfig :: "('c \<Rightarrow> 'c) \<Rightarrow> 'c instance_descriptor \<Rightarrow> 'c option" where
  "wrapConfig wrap descriptor = map_option wrap (id_Config descriptor)"

definition loadCheckInstance ::
    "('c \<Rightarrow> 'c) \<Rightarrow> 'c instance_descriptor \<Rightarrow> ('s, 'c) registry \<Rightarrow> (error + ('s, 'c) registry) option" where
  "loadCheckInstance wrap desc r =
     (case gm_get (CheckPlugins r) (id_Type desc) of
        None \<Rightarrow> Some (Inl (quoted_unknown ''check plugin type'' (id_Type desc)))
      | Some new \<Rightarrow> do {
          res \<leftarrow> new (wrapConfig wrap desc) (next_address r);
          case res of
            Inl e \<Rightarrow> Some (Inl e)
          | Inr plugin \<Rightarrow> do {
              is \<leftarrow> gm_put (id_Name desc) \<lparr>ci_Plugin = plugin, ci_Name = id_Name desc\<rparr> (CheckInstances r);
              Some (Inr (r\<lparr>CheckInstances := is, next_address := Suc (next_address r)\<rparr>)) } })"

definition loadTriggerInstance ::
    "('c \<Rightarrow> 'c) \<Rightarrow> 'c instance_descriptor \<Rightarrow> ('s, 'c) registry \<Rightarrow> (error + ('s, 'c) registry) option" where
  "loadTriggerInstance wrap desc r =
     (case gm_get (TriggerPlugins r) (id_Type desc) of
        None \<Rightarrow> Some (Inl (quoted_unknown ''trigger plugin type'' (id_Type desc)))
      | Some new \<Rightarrow> do {
          res \<leftarrow> new (wrapConfig wrap desc) (next_address r);
          case res of
            Inl e \<Rightarrow> Some (Inl e)
          | Inr plugin \<Rightarrow> do {
              is \<leftarrow> gm_put (id_Name desc) \<lparr>ti_Plugin = plugin, ti_Name = id_Name desc\<rparr> (TriggerInstances r);
              Some (Inr (r\<lparr>TriggerInstances := is, next_address := Suc (next_address r)\<rparr>)) } })"

definition make_schedule :: "'c decoders \<Rightarrow> string \<Rightarrow> 'c \<Rightarrow> error + scheduler" where
  "make_schedule dec type conf =
     (let t = strings_ToLower type
      in if t = ''periodic'' then newNotifyPeriodic dec conf
         else if t = ''scheduled'' then newNotifyScheduled dec conf
         else if t = ''oneshot'' then newNotifyOneshot dec conf
         else Inl (ErrorString (''notification scheduler with name '' @ type @ '' is unknown'')))"

definition loadNotificationInstance ::
    "'c decoders \<Rightarrow> ('c \<Rightarrow> 'c) \<Rightarrow> 'c notification_descriptor \<Rightarrow> ('s, 'c) registry
      \<Rightarrow> (error + ('s, 'c) registry) option" where
  "loadNotificationInstance dec wrap desc r =
     (case gm_get (NotificationPlugins r) (nod_Type desc) of
        None \<Rightarrow> Some (Inl (quoted_unknown ''notification plugin type'' (nod_Type desc)))
      | Some new \<Rightarrow> do {
          res \<leftarrow> new (map_option wrap (nod_Config desc)) (next_address r);
          case res of
            Inl e \<Rightarrow> Some (Inl e)
          | Inr plugin \<Rightarrow>
              (case sd_Config (nod_Schedule desc) of
                 None \<Rightarrow> Some (Inl (ErrorString ''a notification instance does not have a schedule assigned''))
               | Some conf \<Rightarrow>
                   (case make_schedule dec (sd_Type (nod_Schedule desc)) (wrap conf) of
                      Inl e \<Rightarrow> Some (Inl e)
                    | Inr schedule \<Rightarrow> do {
                        is \<leftarrow> gm_put (nod_Name desc)
                          \<lparr>ni_Plugin = plugin, ni_Schedule = Some schedule, ni_Name = nod_Name desc\<rparr>
                          (NotificationInstances r);
                        Some (Inr (r\<lparr>NotificationInstances := is, next_address := Suc (next_address r)\<rparr>)) })) })"

text \<open>Loading a list of descriptors stops at the first error.\<close>

fun load_all :: "('d \<Rightarrow> 'r \<Rightarrow> (error + 'r) option) \<Rightarrow> 'd list \<Rightarrow> 'r \<Rightarrow> (error + 'r) option" where
  "load_all load [] r = Some (Inr r)"
| "load_all load (d # ds) r =
     do { res \<leftarrow> load d r;
          case res of Inl e \<Rightarrow> Some (Inl e) | Inr r \<Rightarrow> load_all load ds r }"

definition LoadInstances ::
    "'c decoders \<Rightarrow> ('c \<Rightarrow> 'c) \<Rightarrow> 'c instances_descriptor \<Rightarrow> ('s, 'c) registry
      \<Rightarrow> (error + ('s, 'c) registry) option" where
  "LoadInstances dec wrap desc r =
     do { res \<leftarrow> load_all (loadCheckInstance wrap) (ids_Check desc) r;
          case res of
            Inl e \<Rightarrow> Some (Inl e)
          | Inr r \<Rightarrow> do {
              res \<leftarrow> load_all (loadNotificationInstance dec wrap) (ids_Notify desc) r;
              case res of
                Inl e \<Rightarrow> Some (Inl e)
              | Inr r \<Rightarrow> load_all (loadTriggerInstance wrap) (ids_Trigger desc) r } }"

section \<open>Registry invariant\<close>

text \<open>
  Every instance is stored under its own name and every notification instance carries a
  schedule; the instance maps are never nil.
\<close>

definition registry_ok :: "('s, 'c) registry \<Rightarrow> bool" where
  "registry_ok r \<longleftrightarrow>
     NotificationInstances r \<noteq> None \<and> CheckInstances r \<noteq> None \<and> TriggerInstances r \<noteq> None \<and>
     gm_all (\<lambda>k i. ni_Name i = k \<and> ni_Schedule i \<noteq> None) (NotificationInstances r) \<and>
     gm_all (\<lambda>k i. ci_Name i = k) (CheckInstances r) \<and>
     gm_all (\<lambda>k i. ti_Name i = k) (TriggerInstances r)"

lemma registry_ok_New: "registry_ok NewRegistry"
  by (simp add: registry_ok_def NewRegistry_def)

text \<open>What loading of one instance promises, and what follows for a whole configuration.\<close>

locale instance_loader =
  fixes load :: "'d \<Rightarrow> ('s, 'c) registry \<Rightarrow> (error + ('s, 'c) registry) option"
  assumes load_ok: "registry_ok r \<Longrightarrow> load d r = Some (Inr r') \<Longrightarrow> registry_ok r'"
    and load_plugins: "load d r = Some (Inr r') \<Longrightarrow> CheckPlugins r' = CheckPlugins r
      \<and> NotificationPlugins r' = NotificationPlugins r \<and> TriggerPlugins r' = TriggerPlugins r"
    and load_fresh: "load d r = Some (Inr r') \<Longrightarrow> next_address r' = Suc (next_address r)"
begin

lemma load_all_ok: "registry_ok r \<Longrightarrow> load_all load ds r = Some (Inr r') \<Longrightarrow> registry_ok r'"
proof (induction ds arbitrary: r)
  case (Cons d ds)
  from Cons.prems(2) obtain r1 where "load d r = Some (Inr r1)" "load_all load ds r1 = Some (Inr r')"
    by (auto simp: go_simps)
  with Cons load_ok show ?case by blast
qed simp

lemma load_all_addresses:
  "load_all load ds r = Some (Inr r') \<Longrightarrow> next_address r' = next_address r + length ds"
proof (induction ds arbitrary: r)
  case (Cons d ds)
  from Cons.prems obtain r1 where "load d r = Some (Inr r1)" "load_all load ds r1 = Some (Inr r')"
    by (auto simp: go_simps)
  with Cons load_fresh show ?case by fastforce
qed simp

end

lemma loadCheckInstance_Inr:
  assumes "loadCheckInstance wrap d r = Some (Inr r')"
  obtains i im where "gm_put (id_Name d) i (CheckInstances r) = Some im" "ci_Name i = id_Name d"
    "r' = r\<lparr>CheckInstances := im, next_address := Suc (next_address r)\<rparr>"
  using assms by (auto simp: loadCheckInstance_def go_simps split: option.splits)

lemma loadTriggerInstance_Inr:
  assumes "loadTriggerInstance wrap d r = Some (Inr r')"
  obtains i im where "gm_put (id_Name d) i (TriggerInstances r) = Some im" "ti_Name i = id_Name d"
    "r' = r\<lparr>TriggerInstances := im, next_address := Suc (next_address r)\<rparr>"
  using assms by (auto simp: loadTriggerInstance_def go_simps split: option.splits)

lemma loadNotificationInstance_Inr:
  assumes "loadNotificationInstance dec wrap d r = Some (Inr r')"
  obtains i im where "gm_put (nod_Name d) i (NotificationInstances r) = Some im"
    "ni_Name i = nod_Name d" "ni_Schedule i \<noteq> None"
    "r' = r\<lparr>NotificationInstances := im, next_address := Suc (next_address r)\<rparr>"
  using assms
  by (cases "make_schedule dec (sd_Type (nod_Schedule d)) (wrap (the (sd_Config (nod_Schedule d))))")
    (auto simp: loadNotificationInstance_def go_simps split: option.splits)

interpretation check_loader: instance_loader "loadCheckInstance wrap" for wrap
proof (unfold_locales, goal_cases)
  case (1 r d r')
  from 1(2) obtain i im where i: "gm_put (id_Name d) i (CheckInstances r) = Some im"
    "ci_Name i = id_Name d" "r' = r\<lparr>CheckInstances := im, next_address := Suc (next_address r)\<rparr>"
    by (rule loadCheckInstance_Inr)
  with 1(1) gm_put_not_nil [OF i(1)] gm_all_put [OF i(1), where P = "\<lambda>k i. ci_Name i = k"]
  show ?case by (simp add: registry_ok_def)
qed (erule loadCheckInstance_Inr, simp)+

interpretation trigger_loader: instance_loader "loadTriggerInstance wrap" for wrap
proof (unfold_locales, goal_cases)
  case (1 r d r')
  from 1(2) obtain i im where i: "gm_put (id_Name d) i (TriggerInstances r) = Some im"
    "ti_Name i = id_Name d" "r' = r\<lparr>TriggerInstances := im, next_address := Suc (next_address r)\<rparr>"
    by (rule loadTriggerInstance_Inr)
  with 1(1) gm_put_not_nil [OF i(1)] gm_all_put [OF i(1), where P = "\<lambda>k i. ti_Name i = k"]
  show ?case by (simp add: registry_ok_def)
qed (erule loadTriggerInstance_Inr, simp)+

interpretation notification_loader: instance_loader "loadNotificationInstance dec wrap" for dec wrap
proof (unfold_locales, goal_cases)
  case (1 r d r')
  from 1(2) obtain i im where i: "gm_put (nod_Name d) i (NotificationInstances r) = Some im"
    "ni_Name i = nod_Name d" "ni_Schedule i \<noteq> None"
    "r' = r\<lparr>NotificationInstances := im, next_address := Suc (next_address r)\<rparr>"
    by (rule loadNotificationInstance_Inr)
  with 1(1) gm_put_not_nil [OF i(1)]
    gm_all_put [OF i(1), where P = "\<lambda>k i. ni_Name i = k \<and> ni_Schedule i \<noteq> None"]
  show ?case by (simp add: registry_ok_def)
qed (erule loadNotificationInstance_Inr, simp)+

lemma LoadInstances_ok:
  assumes "registry_ok r" and "LoadInstances dec wrap desc r = Some (Inr r')"
  shows "registry_ok r'"
proof -
  obtain r1 r2 where 1: "load_all (loadCheckInstance wrap) (ids_Check desc) r = Some (Inr r1)"
    and 2: "load_all (loadNotificationInstance dec wrap) (ids_Notify desc) r1 = Some (Inr r2)"
    and 3: "load_all (loadTriggerInstance wrap) (ids_Trigger desc) r2 = Some (Inr r')"
    using assms(2) by (auto simp: LoadInstances_def go_simps)
  show ?thesis
    using trigger_loader.load_all_ok [OF notification_loader.load_all_ok
        [OF check_loader.load_all_ok [OF assms(1) 1] 2] 3] .
qed

lemma LoadInstances_addresses:
  assumes "LoadInstances dec wrap desc r = Some (Inr r')"
  shows "next_address r' = next_address r + length (ids_Check desc) + length (ids_Notify desc)
    + length (ids_Trigger desc)"
  using assms
  by (auto simp: LoadInstances_def go_simps dest!: check_loader.load_all_addresses
      notification_loader.load_all_addresses trigger_loader.load_all_addresses)

section \<open>Chains resolve their names\<close>

lemma lookup_names_Inr:
  "lookup_names m kind names = Inr xs \<longleftrightarrow>
   list_all2 (\<lambda>n i. gm_get m (strings_TrimSpace1 n) = Some i) names xs"
proof (induction names arbitrary: xs)
  case (Cons n ns)
  have "lookup_names m kind (n # ns) = Inr xs \<longleftrightarrow>
      (\<exists>i ys. gm_get m (strings_TrimSpace1 n) = Some i \<and> lookup_names m kind ns = Inr ys \<and> xs = i # ys)"
    by (cases "gm_get m (strings_TrimSpace1 n)"; cases "lookup_names m kind ns") auto
  then show ?case by (simp only: Cons.IH list_all2_Cons1) blast
qed auto

lemma lookup_names_set:
  "lookup_names m kind names = Inr xs \<Longrightarrow> i \<in> set xs \<Longrightarrow> \<exists>k. gm_get m k = Some i"
  by (auto simp: lookup_names_Inr in_set_conv_nth list_all2_conv_all_nth)

lemma NewNotificationChain_scheduled:
  assumes "registry_ok r" and "NewNotificationChain r config = Inr chain" and "n \<in> set chain"
  shows "ni_Schedule n \<noteq> None"
proof -
  from assms(2,3) have "lookup_names (NotificationInstances r) ''notification instance''
      (strings_Split config AndSeparator) = Inr chain"
    by (auto simp: NewNotificationChain_def split: if_splits)
  from lookup_names_set [OF this assms(3)] obtain k
    where "gm_get (NotificationInstances r) k = Some n" by blast
  with assms(1) show ?thesis by (auto simp: registry_ok_def dest: gm_allD)
qed

text \<open>An evaluable is attached exactly to the chains of a non-empty configuration string.\<close>

lemma NewCheckChain_evaluable:
  assumes "NewCheckChain gval r config = Inr chain"
  shows "cc_Evaluable chain \<noteq> None \<or> cc_Plugins chain = []"
  using assms
  by (auto simp: NewCheckChain_def empty_check_chain_def Let_def split: if_splits sum.splits)

end
