(* ===== verification/Config.thy ===== *)
theory Config
  imports NodeStates Registry
begin

text \<open>
  \<open>controllers/config.go\<close>: from the unpacked configuration to the profiles the node
  controller runs with. Unpacking of the YAML document is a parameter. The lemmas show what
  the rest of the controllers relies on: every profile is stored under its own name and has
  chains for the three states, the default profile always exists, every transition leads to
  one of the three states, every notification instance of a chain has a schedule and every
  check chain can be evaluated.
\<close>

section \<open>Descriptors\<close>

record transition_descriptor =
  td_Check :: string
  td_Next :: string
  td_Trigger :: string

record state_descriptor =
  std_Enter :: string
  std_Notify :: string
  std_Transitions :: "transition_descriptor list"

record profile_descriptor =
  prd_Name :: string
  prd_Operational :: state_descriptor
  prd_MaintenanceRequired :: state_descriptor
  prd_InMaintenance :: state_descriptor

record 'c config_descriptor =
  cd_Requeue :: duration
  cd_Instances :: "'c instances_descriptor"
  cd_Profiles :: "profile_descriptor list"
  cd_LabelFilter :: "string list"

record ('s, 'c) config =
  RequeueInterval :: duration
  Profiles :: "(string, 's profile) gomap"
  cfg_Registry :: "('s, 'c) registry"
  DashboardLabelFilter :: "string list"

section \<open>Chains and profiles\<close>

type_synonym gval_compiler = "string \<Rightarrow> error + evaluable"

fun load_transitions ::
    "gval_compiler \<Rightarrow> ('s, 'c) registry \<Rightarrow> transition_descriptor list \<Rightarrow> error + 's transition list" where
  "load_transitions gval r [] = Inr []"
| "load_transitions gval r (t # ts) =
     (case NewCheckChain gval r (td_Check t) of
        Inl e \<Rightarrow> Inl e
      | Inr checkChain \<Rightarrow>
     (case NewTriggerChain r (td_Trigger t) of
        Inl e \<Rightarrow> Inl e
      | Inr triggerChain \<Rightarrow>
     (case ValidateLabel (td_Next t) of
        Inl e \<Rightarrow> Inl e
      | Inr label \<Rightarrow>
     (case load_transitions gval r ts of
        Inl e \<Rightarrow> Inl e
      | Inr rest \<Rightarrow>
          Inr (\<lparr>tr_Check = checkChain, tr_Trigger = triggerChain, tr_Next = label\<rparr> # rest)))))"

definition loadPluginChains ::
    "gval_compiler \<Rightarrow> state_descriptor \<Rightarrow> ('s, 'c) registry \<Rightarrow> error + 's plugin_chains" where
  "loadPluginChains gval conf r =
     (case NewNotificationChain r (std_Notify conf) of
        Inl e \<Rightarrow> Inl e
      | Inr notificationChain \<Rightarrow>
     (case NewTriggerChain r (std_Enter conf) of
        Inl e \<Rightarrow> Inl e
      | Inr enterChain \<Rightarrow>
     (case load_transitions gval r (std_Transitions conf) of
        Inl e \<Rightarrow> Inl e
      | Inr ts \<Rightarrow> Inr \<lparr>pc_Enter = enterChain, pc_Notification = notificationChain, pc_Transitions = ts\<rparr>)))"

definition default_profile :: "'s profile" where
  "default_profile = \<lparr>pf_Name = DefaultProfileName,
     pf_Chains = [(Operational, empty_chains), (InMaintenance, empty_chains), (Required, empty_chains)]\<rparr>"

fun load_profiles_into ::
    "gval_compiler \<Rightarrow> profile_descriptor list \<Rightarrow> ('s, 'c) registry \<Rightarrow> (string, 's profile) gomap
      \<Rightarrow> (error + (string, 's profile) gomap) option" where
  "load_profiles_into gval [] r m = Some (Inr m)"
| "load_profiles_into gval (p # ps) r m =
     (case loadPluginChains gval (prd_Operational p) r of
        Inl e \<Rightarrow> Some (Inl e)
      | Inr operationalChain \<Rightarrow>
     (case loadPluginChains gval (prd_MaintenanceRequired p) r of
        Inl e \<Rightarrow> Some (Inl e)
      | Inr requiredChain \<Rightarrow>
     (case loadPluginChains gval (prd_InMaintenance p) r of
        Inl e \<Rightarrow> Some (Inl e)
      | Inr maintenanceChain \<Rightarrow>
          do { m \<leftarrow> gm_put (prd_Name p)
                 \<lparr>pf_Name = prd_Name p,
                  pf_Chains = [(Operational, operationalChain), (Required, requiredChain),
                               (InMaintenance, maintenanceChain)]\<rparr> m;
               load_profiles_into gval ps r m })))"

definition loadProfiles ::
    "gval_compiler \<Rightarrow> profile_descriptor list \<Rightarrow> ('s, 'c) registry
      \<Rightarrow> (error + (string, 's profile) gomap) option" where
  "loadProfiles gval profiles r =
     do { m \<leftarrow> gm_put DefaultProfileName default_profile gm_make;
          load_profiles_into gval profiles r m }"

section \<open>Loading a configuration\<close>

text \<open>The known plugins are given with their identifiers and constructors.\<close>

fun put_all :: "('k \<times> 'v) list \<Rightarrow> ('k, 'v) gomap \<Rightarrow> ('k, 'v) gomap option" where
  "put_all [] m = Some m"
| "put_all ((k, v) # kvs) m = do { m \<leftarrow> gm_put k v m; put_all kvs m }"

record ('s, 'c) known_plugins =
  kp_checkers :: "(string \<times> ('c, 's checker) constructor) list"
  kp_notifiers :: "(string \<times> ('c, 's notifier) constructor) list"
  kp_triggers :: "(string \<times> ('c, 's trigger) constructor) list"

definition addPluginsToRegistry ::
    "('s, 'c) known_plugins \<Rightarrow> ('s, 'c) registry \<Rightarrow> ('s, 'c) registry option" where
  "addPluginsToRegistry known r =
     do { cs \<leftarrow> put_all (kp_checkers known) (CheckPlugins r);
          ns \<leftarrow> put_all (kp_notifiers known) (NotificationPlugins r);
          ts \<leftarrow> put_all (kp_triggers known) (TriggerPlugins r);
          Some (r\<lparr>CheckPlugins := cs, NotificationPlugins := ns, TriggerPlugins := ts\<rparr>) }"

definition LoadConfig ::
    "('c \<Rightarrow> error + 'c config_descriptor) \<Rightarrow> 'c decoders \<Rightarrow> ('c \<Rightarrow> 'c) \<Rightarrow> gval_compiler
      \<Rightarrow> ('s, 'c) known_plugins \<Rightarrow> 'c \<Rightarrow> (error + ('s, 'c) config) option" where
  "LoadConfig unpack dec wrap gval known conf =
     (case unpack conf of
        Inl e \<Rightarrow> Some (Inl e)
      | Inr global \<Rightarrow> do {
          registry \<leftarrow> addPluginsToRegistry known NewRegistry;
          res \<leftarrow> LoadInstances dec wrap (cd_Instances global) registry;
          case res of
            Inl e \<Rightarrow> Some (Inl e)
          | Inr registry \<Rightarrow> do {
              res \<leftarrow> loadProfiles gval (cd_Profiles global) registry;
              case res of
                Inl e \<Rightarrow> Some (Inl e)
              | Inr profileMap \<Rightarrow>
                  Some (Inr \<lparr>RequeueInterval = cd_Requeue global, Profiles = profileMap,
                    cfg_Registry = registry, DashboardLabelFilter = cd_LabelFilter global\<rparr>) } })"

section \<open>What a loaded configuration guarantees\<close>

definition valid_labels :: "NodeStateLabel set" where
  "valid_labels = {Operational, Required, InMaintenance}"

definition transition_ok :: "'s transition \<Rightarrow> bool" where
  "transition_ok t \<longleftrightarrow> tr_Next t \<in> valid_labels \<and>
     (cc_Evaluable (tr_Check t) \<noteq> None \<or> cc_Plugins (tr_Check t) = [])"

definition chains_ok :: "'s plugin_chains \<Rightarrow> bool" where
  "chains_ok c \<longleftrightarrow> (\<forall>t \<in> set (pc_Transitions c). transition_ok t) \<and>
     (\<forall>n \<in> set (pc_Notification c). ni_Schedule n \<noteq> None)"

definition profile_ok :: "'s profile \<Rightarrow> bool" where
  "profile_ok pf \<longleftrightarrow> fst ` set (pf_Chains pf) = valid_labels \<and> (\<forall>c \<in> snd ` set (pf_Chains pf). chains_ok c)"

lemma ValidateLabel_Inr: "ValidateLabel s = Inr l \<longleftrightarrow> s \<in> valid_labels \<and> l = s"
  by (auto simp: ValidateLabel_def valid_labels_def)

lemma load_transitions_ok:
  "load_transitions gval r ts = Inr res \<Longrightarrow> t \<in> set res \<Longrightarrow> transition_ok t"
proof (induction ts arbitrary: res)
  case (Cons td ts)
  from Cons.prems(1) obtain cc tc rest where cc: "NewCheckChain gval r (td_Check td) = Inr cc"
    and rest: "load_transitions gval r ts = Inr rest" and l: "td_Next td \<in> valid_labels"
    and res: "res = \<lparr>tr_Check = cc, tr_Trigger = tc, tr_Next = td_Next td\<rparr> # rest"
    by (auto simp: ValidateLabel_Inr split: sum.splits)
  from NewCheckChain_evaluable [OF cc] Cons.IH [OF rest] Cons.prems(2) l res show ?case
    by (auto simp: transition_ok_def)
qed simp

lemma loadPluginChains_ok:
  assumes "registry_ok r" and "loadPluginChains gval conf r = Inr c"
  shows "chains_ok c"
proof -
  from assms(2) obtain ns ts where "NewNotificationChain r (std_Notify conf) = Inr ns"
    "load_transitions gval r (std_Transitions conf) = Inr ts"
    "pc_Notification c = ns" "pc_Transitions c = ts"
    by (auto simp: loadPluginChains_def split: sum.splits)
  then show ?thesis
    using load_transitions_ok NewNotificationChain_scheduled [OF assms(1)]
    by (auto simp: chains_ok_def)
qed

lemma default_profile_ok: "profile_ok default_profile" "pf_Name default_profile = DefaultProfileName"
  by (auto simp: profile_ok_def default_profile_def valid_labels_def chains_ok_def empty_chains_def)

lemma gm_put_default: "gm_put DefaultProfileName default_profile gm_make
    = Some (Some [(DefaultProfileName, default_profile)])"
  by (simp add: gm_put_def gm_make_def)

lemma load_profiles_into_ok:
  assumes "registry_ok r"
  shows "load_profiles_into gval ps r m = Some (Inr m') \<Longrightarrow>
    gm_all (\<lambda>k pf. pf_Name pf = k \<and> profile_ok pf) m \<Longrightarrow> gm_get m DefaultProfileName \<noteq> None \<Longrightarrow>
    gm_all (\<lambda>k pf. pf_Name pf = k \<and> profile_ok pf) m' \<and> gm_get m' DefaultProfileName \<noteq> None"
proof (induction ps arbitrary: m)
  case (Cons p ps)
  from Cons.prems(1) obtain oc rc mc m1 where
    c: "loadPluginChains gval (prd_Operational p) r = Inr oc"
      "loadPluginChains gval (prd_MaintenanceRequired p) r = Inr rc"
      "loadPluginChains gval (prd_InMaintenance p) r = Inr mc"
    and m1: "gm_put (prd_Name p) \<lparr>pf_Name = prd_Name p, pf_Chains = [(Operational, oc), (Required, rc),
        (InMaintenance, mc)]\<rparr> m = Some m1"
    and rest: "load_profiles_into gval ps r m1 = Some (Inr m')"
    by (auto simp: go_simps split: sum.splits)
  have ok: "chains_ok oc" "chains_ok rc" "chains_ok mc"
    using loadPluginChains_ok [OF assms] c by blast+
  then have "gm_all (\<lambda>k pf. pf_Name pf = k \<and> profile_ok pf) m1"
    by (intro gm_all_put [OF m1 Cons.prems(2)]) (auto simp: profile_ok_def valid_labels_def)
  moreover have "gm_get m1 DefaultProfileName \<noteq> None"
    using gm_get_put [OF m1] Cons.prems(3) by simp
  ultimately show ?case by (rule Cons.IH [OF rest])
qed simp

lemma loadProfiles_ok:
  assumes "registry_ok r" and "loadProfiles gval ps r = Some (Inr m)"
  shows "gm_all (\<lambda>k pf. pf_Name pf = k \<and> profile_ok pf) m \<and> gm_get m DefaultProfileName \<noteq> None"
proof (rule load_profiles_into_ok [OF assms(1)])
  show "load_profiles_into gval ps r (Some [(DefaultProfileName, default_profile)]) = Some (Inr m)"
    using assms(2) by (simp add: loadProfiles_def gm_put_default)
qed (auto simp: gm_all_def gm_get_def default_profile_ok split: if_splits)

lemma put_all_total: "m \<noteq> None \<Longrightarrow> \<exists>m'. put_all kvs m = Some m' \<and> m' \<noteq> None"
proof (induction kvs arbitrary: m)
  case (Cons kv kvs)
  obtain m1 where m1: "gm_put (fst kv) (snd kv) m = Some m1" using gm_put_total [OF Cons.prems] by fast
  from Cons.IH [OF gm_put_not_nil [OF m1]] m1 show ?case by (cases kv) simp
qed simp

lemma addPluginsToRegistry_New:
  "\<exists>r. addPluginsToRegistry known NewRegistry = Some r \<and> registry_ok r"
proof -
  obtain cs ns ts where "put_all (kp_checkers known) gm_make = Some cs"
    "put_all (kp_notifiers known) gm_make = Some ns" "put_all (kp_triggers known) gm_make = Some ts"
    using put_all_total [OF gm_make_not_nil] by meson
  then show ?thesis
    by (simp add: addPluginsToRegistry_def NewRegistry_def registry_ok_def del: not_None_eq)
qed

lemma LoadConfig_stages:
  assumes "LoadConfig unpack dec wrap gval known conf = Some (Inr cfg)"
  obtains global r where "unpack conf = Inr global" "registry_ok r" "cfg_Registry cfg = r"
    "loadProfiles gval (cd_Profiles global) r = Some (Inr (Profiles cfg))"
    "RequeueInterval cfg = cd_Requeue global"
proof -
  obtain r0 where r0: "addPluginsToRegistry known NewRegistry = Some r0" "registry_ok r0"
    using addPluginsToRegistry_New by blast
  with assms obtain global r where g: "unpack conf = Inr global"
    and r: "LoadInstances dec wrap (cd_Instances global) r0 = Some (Inr r)"
    and p: "loadProfiles gval (cd_Profiles global) r = Some (Inr (Profiles cfg))"
    and c: "cfg_Registry cfg = r" "RequeueInterval cfg = cd_Requeue global"
    by (auto simp: LoadConfig_def go_simps split: sum.splits)
  from LoadInstances_ok [OF r0(2) r] have "registry_ok r" .
  with g p c that show thesis by blast
qed

end
