(* ===== verification/Cache.thy ===== *)
theory Cache
  imports NodeStates
begin

text \<open>
  \<open>cache/cache.go\<close>: the node information shared between the reconcilers and the dashboard.
  Every method holds the mutex for its whole body, so a concurrent run is some interleaving of
  the calls. The cache is shown to refine a plain map from node names to information, up to
  the time stamp \<open>Update\<close> adds, and reconcilers of different nodes do not disturb each
  other whatever the interleaving.
\<close>

section \<open>Operations\<close>

type_synonym node_info_cache = "(string, node_info) gomap"

definition NewNodeInfoCache :: node_info_cache where
  "NewNodeInfoCache = gm_make"

definition cache_Update :: "node_info \<Rightarrow> node_info_cache \<Rightarrow> 's world \<Rightarrow> (node_info_cache \<times> 's world) option" where
  "cache_Update info nodes w =
     (let (now, w) = time_Now w
      in do { nodes \<leftarrow> gm_put (ninf_Node info) (info\<lparr>ninf_Updated := now\<rparr>) nodes;
              Some (nodes, w) })"

definition cache_Delete :: "string \<Rightarrow> node_info_cache \<Rightarrow> node_info_cache" where
  "cache_Delete node nodes = gm_del node nodes"

definition cache_JSON :: "(node_info list \<Rightarrow> error + string) \<Rightarrow> node_info_cache \<Rightarrow> error + string" where
  "cache_JSON marshal nodes = marshal (map snd (gm_items nodes))"

section \<open>Sequences of calls\<close>

datatype cache_op = UpdateOp node_info | DeleteOp string

fun op_node :: "cache_op \<Rightarrow> string" where
  "op_node (UpdateOp info) = ninf_Node info"
| "op_node (DeleteOp node) = node"

fun cache_step :: "cache_op \<Rightarrow> node_info_cache \<times> 's world \<Rightarrow> (node_info_cache \<times> 's world) option" where
  "cache_step (UpdateOp info) (nodes, w) = cache_Update info nodes w"
| "cache_step (DeleteOp node) (nodes, w) = Some (cache_Delete node nodes, w)"

fun run_ops :: "('op \<Rightarrow> 'st \<Rightarrow> 'st option) \<Rightarrow> 'op list \<Rightarrow> 'st \<Rightarrow> 'st option" where
  "run_ops step [] st = Some st"
| "run_ops step (o1 # os) st = do { st \<leftarrow> step o1 st; run_ops step os st }"

section \<open>Abstract map\<close>

definition untimed :: "node_info \<Rightarrow> node_info" where
  "untimed info = info\<lparr>ninf_Updated := zero_time\<rparr>"

fun abs_step :: "cache_op \<Rightarrow> (string \<Rightarrow> node_info option) \<Rightarrow> string \<Rightarrow> node_info option" where
  "abs_step (UpdateOp info) m = m(ninf_Node info \<mapsto> untimed info)"
| "abs_step (DeleteOp node) m = m(node := None)"

definition cache_view :: "node_info_cache \<times> 's world \<Rightarrow> string \<Rightarrow> node_info option" where
  "cache_view st n = map_option untimed (gm_get (fst st) n)"

lemma abs_step_other: "n \<noteq> op_node o1 \<Longrightarrow> abs_step o1 m n = m n"
  by (cases o1) auto

lemma abs_step_local: "m n = m' n \<Longrightarrow> abs_step o1 m n = abs_step o1 m' n"
  by (cases o1) auto

lemma abs_fold_local: "m n = m' n \<Longrightarrow> fold abs_step os m n = fold abs_step os m' n"
proof (induction os arbitrary: m m')
  case (Cons o1 os)
  show ?case unfolding fold_Cons o_apply
    using Cons.prems by (intro Cons.IH abs_step_local)
qed simp

lemma abs_fold_other:
  "n \<notin> op_node ` set os \<Longrightarrow> fold abs_step os m n = m n"
  by (induction os arbitrary: m) (auto simp: abs_step_other)

text \<open>The view of one node depends only on the calls about that node, in their order.\<close>

lemma abs_fold_filter:
  "fold abs_step (filter (\<lambda>o1. op_node o1 = n) os) m n = fold abs_step os m n"
proof (induction os arbitrary: m)
  case (Cons o1 os)
  show ?case
  proof (cases "op_node o1 = n")
    case True
    with Cons show ?thesis by simp
  next
    case False
    then have "fold abs_step os (abs_step o1 m) n = fold abs_step os m n"
      by (intro abs_fold_local) (simp add: abs_step_other)
    with False Cons show ?thesis by simp
  qed
qed simp

lemma filter_shuffles_right:
  "zs \<in> shuffles xs ys \<Longrightarrow> \<forall>y \<in> set ys. \<not> P y \<Longrightarrow> filter P zs = filter P xs"
proof (induction xs ys arbitrary: zs rule: shuffles.induct)
  case (3 x xs y ys)
  from "3.prems"(1) consider zs' where "zs = x # zs'" "zs' \<in> shuffles xs (y # ys)"
    | zs' where "zs = y # zs'" "zs' \<in> shuffles (x # xs) ys"
    by auto
  then show ?case using 3 by cases auto
qed (auto simp: filter_empty_conv)

section \<open>The cache as a keyed store\<close>

text \<open>
  What the callers rely on: each call succeeds on an initialised store and changes the view
  as the abstract map does.
\<close>

locale node_store =
  fixes step :: "cache_op \<Rightarrow> 'st \<Rightarrow> 'st option"
    and view :: "'st \<Rightarrow> string \<Rightarrow> node_info option"
    and ready :: "'st \<Rightarrow> bool"
  assumes step_refines: "ready st \<Longrightarrow> \<exists>st'. step o1 st = Some st' \<and> ready st' \<and> view st' = abs_step o1 (view st)"
begin

lemma run_refines:
  "ready st \<Longrightarrow> \<exists>st'. run_ops step os st = Some st' \<and> ready st' \<and> view st' = fold abs_step os (view st)"
proof (induction os arbitrary: st)
  case (Cons o1 os)
  from step_refines [OF Cons.prems] obtain st1 where
    st1: "step o1 st = Some st1" "ready st1" "view st1 = abs_step o1 (view st)" by blast
  from Cons.IH [OF st1(2)] st1 show ?case by simp
qed simp

lemma interleaving_irrelevant:
  assumes "ready st" and "zs \<in> shuffles xs ys" and "\<forall>y \<in> set ys. op_node y \<noteq> n"
  shows "\<exists>st1 st2. run_ops step zs st = Some st1 \<and> run_ops step xs st = Some st2 \<and> view st1 n = view st2 n"
proof -
  obtain st1 st2 where s: "run_ops step zs st = Some st1" "view st1 = fold abs_step zs (view st)"
    "run_ops step xs st = Some st2" "view st2 = fold abs_step xs (view st)"
    using run_refines [OF assms(1), of zs] run_refines [OF assms(1), of xs] by auto
  have "filter (\<lambda>o1. op_node o1 = n) zs = filter (\<lambda>o1. op_node o1 = n) xs"
    using assms(3) by (intro filter_shuffles_right [OF assms(2)]) auto
  then have "view st1 n = view st2 n"
    unfolding s(2,4) by (subst (1 2) abs_fold_filter [symmetric]) simp
  with s show ?thesis by blast
qed

end

lemma untimed_set_time [simp]: "untimed (info\<lparr>ninf_Updated := t\<rparr>) = untimed info"
  by (simp add: untimed_def)

interpretation nic: node_store cache_step cache_view "\<lambda>st. fst st \<noteq> None"
proof
  fix st :: "node_info_cache \<times> 'a world" and o1
  assume ready: "fst st \<noteq> None"
  obtain nodes w where st: "st = (nodes, w)" by (cases st)
  show "\<exists>st'. cache_step o1 st = Some st' \<and> fst st' \<noteq> None \<and> cache_view st' = abs_step o1 (cache_view st)"
  proof (cases o1)
    case (UpdateOp info)
    obtain nodes' where put: "gm_put (ninf_Node info) (info\<lparr>ninf_Updated := fst (time_Now w)\<rparr>) nodes = Some nodes'"
      using gm_put_total ready st by (metis fst_conv)
    have "cache_step o1 st = Some (nodes', snd (time_Now w))"
      using UpdateOp st put by (simp add: cache_Update_def case_prod_beta)
    moreover have "cache_view (nodes', snd (time_Now w)) = abs_step o1 (cache_view st)"
      using UpdateOp st gm_get_put [OF put] by (auto simp: cache_view_def fun_eq_iff)
    ultimately show ?thesis using gm_put_not_nil [OF put] by auto
  next
    case (DeleteOp node)
    with st ready show ?thesis by (simp add: cache_Delete_def cache_view_def fun_eq_iff del: not_None_eq)
  qed
qed

text \<open>Every call of \<open>JSON\<close> serialises exactly the stored entries, each once.\<close>

lemma cache_JSON_entries: "set (map snd (gm_items nodes)) = {i. \<exists>n. gm_get nodes n = Some i}"
  by (force simp: gm_items_get [symmetric])

end
