(* ===== verification/Handler.thy ===== *)
theory Handler
  imports Config Cache
begin

text \<open>
  \<open>controllers/node_handler.go\<close> and \<open>controllers/node_controller.go\<close>: one
  reconciliation of a node. The state of a handler is the decoded data, the shared cache and
  the world; the node object is \<open>w_node\<close>. The JSON codec of the data annotation, the
  semantic equality of nodes, the configuration loader and the polling helper of
  \<open>k8s.io/apimachinery\<close> are parameters.
\<close>

section \<open>Handlers\<close>

record 's handler_state =
  hs_data :: data
  hs_cache :: node_info_cache
  hs_world :: "'s world"

record ('s, 'c) reconcile_params =
  rp_client :: "'s client"
  rp_config :: "('s, 'c) config"

type_synonym ('s, 'c) node_handler =
  "('s, 'c) reconcile_params \<Rightarrow> 's handler_state \<Rightarrow> (error option \<times> 's handler_state) option"

definition EnsureLabelMap :: "('s, 'c) node_handler" where
  "EnsureLabelMap rp h =
     (let w = hs_world h; node = w_node w
      in Some (None, h\<lparr>hs_world := w\<lparr>w_node := node\<lparr>n_Labels := gm_ensure (n_Labels node)\<rparr>\<rparr>\<rparr>))"

definition profiles_label :: "'s world \<Rightarrow> string" where
  "profiles_label w = gm_str (n_Labels (w_node w)) ProfileLabelKey"

definition MaintainProfileStates_handler :: "('s, 'c) node_handler" where
  "MaintainProfileStates_handler rp h =
     do { (d, w) \<leftarrow> MaintainProfileStates (hs_data h) (profiles_label (hs_world h))
            (Profiles (rp_config rp)) (hs_world h);
          Some (None, h\<lparr>hs_data := d, hs_world := w\<rparr>) }"

definition anyInMaintenance :: "'s profile_state list \<Rightarrow> bool" where
  "anyInMaintenance profileStates \<longleftrightarrow> (\<exists>ps \<in> set profileStates. ps_State ps = InMaintenance)"

fun filterNodeLabels :: "(string, string) gomap \<Rightarrow> string list \<Rightarrow> (string \<times> string) list" where
  "filterNodeLabels nodeLabels [] = []"
| "filterNodeLabels nodeLabels (key # keys) =
     (case gm_get nodeLabels key of
        None \<Rightarrow> filterNodeLabels nodeLabels keys
      | Some val \<Rightarrow> AList.update key val (filterNodeLabels nodeLabels keys))"

text \<open>
  The first loop of \<open>ApplyProfiles\<close>: results, hard errors and the profiles whose
  \<open>Enter\<close> chain asked for a retry.
\<close>

record apply_acc =
  aa_results :: "profile_result list"
  aa_errs :: "error list"
  aa_retry :: "string list"

definition chains_of :: "'s profile_state \<Rightarrow> 's plugin_chains" where
  "chains_of ps = (case map_of (pf_Chains (ps_Profile ps)) (ps_State ps) of
     None \<Rightarrow> empty_chains | Some c \<Rightarrow> c)"

definition plugin_params ::
    "('s, 'c) reconcile_params \<Rightarrow> 's profile_state list \<Rightarrow> 's profile_state \<Rightarrow> profile_data \<Rightarrow> 's world
      \<Rightarrow> 's params" where
  "plugin_params rp profileStates ps pd w =
     \<lparr>P_State = ps_State ps, P_Profile = pf_Name (ps_Profile ps),
      P_InMaintenance = anyInMaintenance profileStates,
      P_LogDetails = (gm_str (n_Labels (w_node w)) LogDetailsLabelKey = ''true''),
      P_Client = rp_client rp, P_LastTransition = pd_Transition pd\<rparr>"

fun apply_loop ::
    "('s, 'c) reconcile_params \<Rightarrow> 's profile_state list \<Rightarrow> 's profile_state list \<Rightarrow> apply_acc \<Rightarrow> data \<Rightarrow> 's world
      \<Rightarrow> (apply_acc \<times> data \<times> 's world) option" where
  "apply_loop rp all [] acc d w = Some (acc, d, w)"
| "apply_loop rp all (ps # pss) acc d w =
     (let (_, w) = TouchShuffles (rp_client rp) (n_Name (w_node w)) (pf_Name (ps_Profile ps)) w
      in case FromLabel (ps_State ps) (chains_of ps) of
        Inl e \<Rightarrow> apply_loop rp all pss (acc\<lparr>aa_errs := aa_errs acc
          @ [WrapError ''failed to create internal state from unknown label value: '' e]\<rparr>) d w
      | Inr stateObj \<Rightarrow>
          (case gm_get (d_Profiles d) (pf_Name (ps_Profile ps)) of
             Some (Some pd) \<Rightarrow> do {
               ((applied, err), d, w) \<leftarrow> Apply stateObj d (plugin_params rp all ps pd w) w;
               let acc = acc\<lparr>aa_results := aa_results acc @
                 [\<lparr>pr_Applied = applied, pr_Name = pf_Name (ps_Profile ps), pr_State = NodeState_Label stateObj\<rparr>]\<rparr>;
               case err of
                 None \<Rightarrow> apply_loop rp all pss acc d w
               | Some e \<Rightarrow>
                   if as_RetryError e
                   then apply_loop rp all pss (acc\<lparr>aa_retry := pf_Name (ps_Profile ps) # aa_retry acc\<rparr>) d w
                   else apply_loop rp all pss (acc\<lparr>aa_errs := aa_errs acc @ [e]\<rparr>) d w }
           | _ \<Rightarrow> None)) \<comment> \<open>nil dereference\<close>"

text \<open>The second loop: record the outcome of every profile that is not to be retried.\<close>

definition record_result ::
    "'s profile_state \<Rightarrow> profile_result \<Rightarrow> data \<Rightarrow> 's world \<Rightarrow> (data \<times> 's world) option" where
  "record_result ps result d w =
     (case gm_get (d_Profiles d) (pf_Name (ps_Profile ps)) of
        Some (Some pd) \<Rightarrow>
          (let (pd, w) =
                 (if ps_State ps \<noteq> ar_Next (pr_Applied result)
                  then let (now, w) = time_Now w
                       in (pd\<lparr>pd_Transition := UTC now, pd_Current := ar_Next (pr_Applied result)\<rparr>, w)
                  else (pd, w))
           in do { profiles \<leftarrow> gm_put (pf_Name (ps_Profile ps))
                     (Some (pd\<lparr>pd_Previous := pr_State result\<rparr>)) (d_Profiles d);
                   Some (d\<lparr>d_Profiles := profiles\<rparr>, w) })
      | _ \<Rightarrow> None) \<comment> \<open>nil dereference\<close>"

fun record_loop ::
    "string list \<Rightarrow> 's profile_state list \<Rightarrow> profile_result list \<Rightarrow> data \<Rightarrow> 's world
      \<Rightarrow> (data \<times> 's world) option" where
  "record_loop retry [] results d w = Some (d, w)"
| "record_loop retry (ps # pss) results d w =
     (if pf_Name (ps_Profile ps) \<in> set retry then record_loop retry pss (tl results) d w
      else case results of
        [] \<Rightarrow> None \<comment> \<open>index out of range\<close>
      | result # rest \<Rightarrow>
          do { (d, w) \<leftarrow> record_result ps result d w; record_loop retry pss rest d w })"

definition ApplyProfiles :: "('s, 'c) node_handler" where
  "ApplyProfiles rp h =
     do { profileStates \<leftarrow> GetProfilesWithState (hs_data h) (profiles_label (hs_world h))
            (Profiles (rp_config rp));
          (acc, d, w) \<leftarrow> apply_loop rp profileStates profileStates
            \<lparr>aa_results = [], aa_errs = [], aa_retry = []\<rparr> (hs_data h) (hs_world h);
          (nodes, w) \<leftarrow> cache_Update
            \<lparr>ninf_Node = n_Name (w_node w), ninf_Profiles = aa_results acc,
             ninf_Labels = filterNodeLabels (n_Labels (w_node w)) (DashboardLabelFilter (rp_config rp)),
             ninf_Updated = zero_time\<rparr> (hs_cache h) w;
          case errors_Join (aa_errs acc) of
            Some e \<Rightarrow> Some (Some (WrapError ''failed to apply current state: '' e),
              \<lparr>hs_data = d, hs_cache = nodes, hs_world = w\<rparr>)
          | None \<Rightarrow> do {
              (d, w) \<leftarrow> record_loop (aa_retry acc) profileStates (aa_results acc) d w;
              Some (None, \<lparr>hs_data = d, hs_cache = nodes, hs_world = w\<rparr>) } }"

definition set_state_label :: "NodeStateLabel \<Rightarrow> 's world \<Rightarrow> 's world option" where
  "set_state_label l w =
     do { labels \<leftarrow> gm_put StateLabelKey l (n_Labels (w_node w));
          Some (w\<lparr>w_node := (w_node w)\<lparr>n_Labels := labels\<rparr>\<rparr>) }"

text \<open>The label the three exits of \<open>UpdateMaintenanceStateLabel\<close> write.\<close>

definition most_critical :: "'s profile_state list \<Rightarrow> NodeStateLabel" where
  "most_critical profileStates =
     (if \<exists>ps \<in> set profileStates. ps_State ps = InMaintenance then InMaintenance
      else if \<exists>ps \<in> set profileStates. ps_State ps = Required then Required
      else Operational)"

definition UpdateMaintenanceStateLabel :: "('s, 'c) node_handler" where
  "UpdateMaintenanceStateLabel rp h =
     do { profileStates \<leftarrow> GetProfilesWithState (hs_data h) (profiles_label (hs_world h))
            (Profiles (rp_config rp));
          let w = hs_world h;
          let w = w\<lparr>w_node := (w_node w)\<lparr>n_Labels := gm_ensure (n_Labels (w_node w))\<rparr>\<rparr>;
          w \<leftarrow> set_state_label (most_critical profileStates) w;
          Some (None, h\<lparr>hs_world := w\<rparr>) }"

fun run_handlers :: "('s, 'c) node_handler list \<Rightarrow> ('s, 'c) node_handler" where
  "run_handlers [] rp h = Some (None, h)"
| "run_handlers (f # fs) rp h =
     do { (err, h) \<leftarrow> f rp h;
          case err of Some e \<Rightarrow> Some (Some e, h) | None \<Rightarrow> run_handlers fs rp h }"

definition handlers :: "('s, 'c) node_handler list" where
  "handlers = [EnsureLabelMap, MaintainProfileStates_handler, ApplyProfiles, UpdateMaintenanceStateLabel]"

definition HandleNode :: "('s, 'c) node_handler" where
  "HandleNode rp h = run_handlers handlers rp h"

section \<open>Reconciliation\<close>

record codec =
  cd_decode :: "string \<Rightarrow> error + data"
  cd_encode :: "data \<Rightarrow> error + string"

definition writeData :: "codec \<Rightarrow> data \<Rightarrow> node \<Rightarrow> (error option \<times> node) option" where
  "writeData codec d node =
     (case cd_encode codec d of
        Inl e \<Rightarrow> Some (Some (WrapError ''failed to marshal internal data: '' e), node)
      | Inr dataBytes \<Rightarrow> do {
          annotations \<leftarrow> gm_put DataAnnotationKey dataBytes (gm_ensure (n_Annotations node));
          Some (None, node\<lparr>n_Annotations := annotations\<rparr>) })"

definition reconcileInternal ::
    "codec \<Rightarrow> ('s, 'c) reconcile_params \<Rightarrow> node_info_cache \<Rightarrow> 's world
      \<Rightarrow> (error option \<times> node_info_cache \<times> 's world) option" where
  "reconcileInternal codec rp nodes w =
     (case ParseData (cd_decode codec) (gm_str (n_Annotations (w_node w)) DataAnnotationKey) of
        Inl e \<Rightarrow> Some (Some e, nodes, w)
      | Inr d \<Rightarrow> do {
          (err, h) \<leftarrow> HandleNode rp \<lparr>hs_data = d, hs_cache = nodes, hs_world = w\<rparr>;
          case err of
            Some e \<Rightarrow> Some (Some e, hs_cache h, hs_world h)
          | None \<Rightarrow> do {
              (err, node) \<leftarrow> writeData codec (hs_data h) (w_node (hs_world h));
              Some (err, hs_cache h, (hs_world h)\<lparr>w_node := node\<rparr>) } })"

text \<open>The condition \<open>pollCacheUpdate\<close> polls for; \<open>atoi\<close> is \<open>strconv.Atoi\<close>.\<close>

definition cache_caught_up ::
    "(string \<Rightarrow> error + int) \<Rightarrow> 's client \<Rightarrow> string \<Rightarrow> string \<Rightarrow> ('s, bool) request" where
  "cache_caught_up atoi cl name targetVersion s =
     (case c_GetNode cl name s of
        (Inl e, s) \<Rightarrow> (Inl e, s)
      | (Inr nextNode, s) \<Rightarrow>
          (case atoi (n_ResourceVersion nextNode) of
             Inl e \<Rightarrow> (Inl e, s)
           | Inr nextVersion \<Rightarrow>
               (case atoi targetVersion of
                  Inl e \<Rightarrow> (Inl e, s)
                | Inr currentVersion \<Rightarrow> (Inr (nextVersion \<ge> currentVersion), s))))"

text \<open>\<open>wait.PollImmediate\<close>: evaluate the condition at most the given number of times.\<close>

type_synonym 's poller = "duration \<Rightarrow> duration \<Rightarrow> ('s, bool) request \<Rightarrow> 's \<Rightarrow> error option \<times> 's"

definition pollCacheUpdate ::
    "(string \<Rightarrow> error + int) \<Rightarrow> 's poller \<Rightarrow> 's client \<Rightarrow> string \<Rightarrow> string \<Rightarrow> 's \<Rightarrow> error option \<times> 's" where
  "pollCacheUpdate atoi poll cl name targetVersion s =
     poll 20000000 Second (cache_caught_up atoi cl name targetVersion) s"

record 's runtime =
  rt_codec :: codec
  rt_DeepEqual :: "node \<Rightarrow> node \<Rightarrow> bool"
  rt_Atoi :: "string \<Rightarrow> error + int"
  rt_poll :: "'s poller"

definition Reconcile ::
    "'s runtime \<Rightarrow> 's client \<Rightarrow> (error + 'y) \<Rightarrow> ('y \<Rightarrow> (error + ('s, 'c) config) option) \<Rightarrow> string
      \<Rightarrow> node_info_cache \<Rightarrow> 's world \<Rightarrow> (duration option \<times> node_info_cache \<times> 's world) option" where
  "Reconcile rt cl conf load name nodes w =
     (case conf of
        Inl _ \<Rightarrow> Some (None, nodes, w)
      | Inr conf \<Rightarrow> do {
          loaded \<leftarrow> load conf;
          case loaded of
            Inl _ \<Rightarrow> Some (None, nodes, w)
          | Inr config \<Rightarrow>
              let (got, w) = api (c_GetNode cl name) w in
              (case got of
                 Inl e \<Rightarrow>
                   if IsNotFound e then Some (None, cache_Delete name nodes, w)
                   else Some (Some (RequeueInterval config), nodes, w)
               | Inr theNode \<Rightarrow> do {
                   (err, nodes, w) \<leftarrow> reconcileInternal (rt_codec rt)
                     \<lparr>rp_client = cl, rp_config = config\<rparr> nodes (w\<lparr>w_node := theNode\<rparr>);
                   case err of
                     Some _ \<Rightarrow> Some (Some (RequeueInterval config), nodes, w)
                   | None \<Rightarrow>
                       if rt_DeepEqual rt (w_node w) theNode
                       then Some (Some (RequeueInterval config), nodes, w)
                       else
                         let (patched, w) = api (c_PatchNode cl (w_node w) theNode) w;
                             w = (case patched of Inl _ \<Rightarrow> w | Inr node \<Rightarrow> w\<lparr>w_node := node\<rparr>);
                             (_, w) = api (pollCacheUpdate (rt_Atoi rt) (rt_poll rt) cl (n_Name (w_node w))
                                             (n_ResourceVersion (w_node w))) w
                         in Some (Some (RequeueInterval config), nodes, w) }) })"

section \<open>What one reconciliation does to the profiles\<close>

lemma FromLabel_Inr:
  "FromLabel l c = Inr st \<Longrightarrow> l \<in> valid_labels \<and> NodeState_Label st = l \<and> NodeState_chains st = c"
  by (auto simp: FromLabel_def valid_labels_def newOperational_def newMaintenanceRequired_def
      newInMaintenance_def split: if_splits)

text \<open>A change of state follows a transition of the current state whose checks passed.\<close>

definition passed_edge :: "'s params \<Rightarrow> 's plugin_chains \<Rightarrow> apply_result \<Rightarrow> bool" where
  "passed_edge p c r \<longleftrightarrow> (\<exists>(t, tr) \<in> set (zip (pc_Transitions c) (ar_Transitions r)).
     tr_Next t = ar_Next r \<and> trr_Passed tr \<and> ccr_Passed (trr_Chain tr)
     \<and> \<not> (ar_Next r = InMaintenance \<and> P_InMaintenance p))"

lemma Apply_moves:
  assumes "Apply st d p w = Some ((r, err), d', w')" and "ar_Next r \<noteq> NodeState_Label st"
  shows "err = None \<and> passed_edge p (NodeState_chains st) r"
  using assms(1)
proof (cases rule: Apply_stages)
  case (ran info w1)
  from ran(5) obtain w2 w3 res where
    t: "NodeState_Transition st p w2 = Some ((res, None), w3)"
    and r: "ar_Next r = ts_Next res" "ar_Transitions r = ts_Infos res"
    by (auto simp: evaluated_def)
  from nst.moved_by_edge [OF t] assms(2) r show ?thesis
    using ran(2) by (fastforce simp: passed_edge_def reports_def)
qed (use assms(2) in auto)

text \<open>The outcome of a profile: its old state, and the old or a reachable new state.\<close>

definition profile_outcome :: "'s profile_state list \<Rightarrow> 's profile_state \<Rightarrow> profile_result \<Rightarrow> bool" where
  "profile_outcome all ps r \<longleftrightarrow> pr_Name r = pf_Name (ps_Profile ps) \<and> pr_State r = ps_State ps
     \<and> ps_State ps \<in> valid_labels \<and>
     (ar_Next (pr_Applied r) \<noteq> ps_State ps \<longrightarrow>
       (\<exists>p. P_InMaintenance p = anyInMaintenance all \<and> passed_edge p (chains_of ps) (pr_Applied r)))"

lemma Apply_profiles: "Apply st d p w = Some ((r, err), d', w') \<Longrightarrow> d_Profiles d' = d_Profiles d"
  by (erule Apply_stages) auto

lemma TouchShuffles_node: "w_node (snd (TouchShuffles c n p w)) = w_node w"
  using TouchShuffles_frame [of c n p w] by (cases "TouchShuffles c n p w") (auto simp: metrics_frame_def)

lemma apply_loop_ConsE:
  assumes "apply_loop rp all (ps # pss) acc d w = Some res"
  obtains (unknown) e w1 where "FromLabel (ps_State ps) (chains_of ps) = Inl e"
      "apply_loop rp all pss (acc\<lparr>aa_errs := aa_errs acc
        @ [WrapError ''failed to create internal state from unknown label value: '' e]\<rparr>) d w1 = Some res"
  | (applied) st pd w1 r err d1 w2 acc1 where "FromLabel (ps_State ps) (chains_of ps) = Inr st"
      "gm_get (d_Profiles d) (pf_Name (ps_Profile ps)) = Some (Some pd)"
      "w1 = snd (TouchShuffles (rp_client rp) (n_Name (w_node w)) (pf_Name (ps_Profile ps)) w)"
      "Apply st d (plugin_params rp all ps pd w1) w1 = Some ((r, err), d1, w2)"
      "aa_results acc1 = aa_results acc @
         [\<lparr>pr_Applied = r, pr_Name = pf_Name (ps_Profile ps), pr_State = NodeState_Label st\<rparr>]"
      "aa_errs acc1 = aa_errs acc @ (case err of Some e \<Rightarrow> if as_RetryError e then [] else [e] | None \<Rightarrow> [])"
      "aa_retry acc1 = (case err of Some e \<Rightarrow> if as_RetryError e then [pf_Name (ps_Profile ps)] else []
         | None \<Rightarrow> []) @ aa_retry acc"
      "apply_loop rp all pss acc1 d1 w2 = Some res"
proof -
  obtain t w1 where tw: "TouchShuffles (rp_client rp) (n_Name (w_node w)) (pf_Name (ps_Profile ps)) w = (t, w1)"
    by (cases "TouchShuffles (rp_client rp) (n_Name (w_node w)) (pf_Name (ps_Profile ps)) w")
  show thesis
  proof (cases "FromLabel (ps_State ps) (chains_of ps)")
    case (Inl e)
    with assms tw unknown show thesis by auto
  next
    case (Inr st)
    with assms tw obtain pd where pd: "gm_get (d_Profiles d) (pf_Name (ps_Profile ps)) = Some (Some pd)"
      by (cases "gm_get (d_Profiles d) (pf_Name (ps_Profile ps))"; cases "the (gm_get (d_Profiles d) (pf_Name (ps_Profile ps)))") auto
    with Inr assms tw obtain r err d1 w2 where
      ap: "Apply st d (plugin_params rp all ps pd w1) w1 = Some ((r, err), d1, w2)"
      by (auto simp: bind_eq_Some_conv)
    let ?acc1 = "acc\<lparr>aa_results := aa_results acc @
        [\<lparr>pr_Applied = r, pr_Name = pf_Name (ps_Profile ps), pr_State = NodeState_Label st\<rparr>],
      aa_errs := aa_errs acc @ (case err of Some e \<Rightarrow> if as_RetryError e then [] else [e] | None \<Rightarrow> []),
      aa_retry := (case err of Some e \<Rightarrow> if as_RetryError e then [pf_Name (ps_Profile ps)] else []
         | None \<Rightarrow> []) @ aa_retry acc\<rparr>"
    have "apply_loop rp all pss ?acc1 d1 w2 = Some res"
      using assms tw Inr pd ap by (cases err) (auto simp: Let_def split: if_splits)
    then show thesis by (intro applied [OF Inr pd _ ap, of ?acc1]) (simp_all add: tw)
  qed
qed

lemma apply_loop_errs: "apply_loop rp all pss acc d w = Some (acc', d', w') \<Longrightarrow> \<exists>es. aa_errs acc' = aa_errs acc @ es"
proof (induction pss arbitrary: acc d w)
  case (Cons ps pss)
  from Cons.prems show ?case by (cases rule: apply_loop_ConsE) (auto dest!: Cons.IH)
qed simp

lemma apply_loop_profiles: "apply_loop rp all pss acc d w = Some (acc', d', w') \<Longrightarrow> d_Profiles d' = d_Profiles d"
proof (induction pss arbitrary: acc d w)
  case (Cons ps pss)
  from Cons.prems show ?case by (cases rule: apply_loop_ConsE) (auto dest!: Cons.IH Apply_profiles)
qed simp

lemma apply_loop_outcomes:
  "apply_loop rp all pss acc d w = Some (acc', d', w') \<Longrightarrow> aa_errs acc' = [] \<Longrightarrow>
   \<exists>rs. aa_results acc' = aa_results acc @ rs \<and> list_all2 (profile_outcome all) pss rs"
proof (induction pss arbitrary: acc d w)
  case (Cons ps pss)
  from Cons.prems(1) show ?case
  proof (cases rule: apply_loop_ConsE)
    case (unknown e w1)
    from apply_loop_errs [OF unknown(2)] Cons.prems(2) show ?thesis by simp
  next
    case (applied st pd w1 r err d1 w2 acc1)
    let ?r = "\<lparr>pr_Applied = r, pr_Name = pf_Name (ps_Profile ps), pr_State = NodeState_Label st\<rparr>"
    have "profile_outcome all ps ?r"
      using FromLabel_Inr [OF applied(1)] Apply_moves [OF applied(4)]
      by (force simp: profile_outcome_def plugin_params_def)
    moreover obtain rs where "aa_results acc' = aa_results acc1 @ rs" "list_all2 (profile_outcome all) pss rs"
      using Cons.IH [OF applied(8) Cons.prems(2)] by blast
    ultimately show ?thesis using applied(5) by auto
  qed
qed simp

text \<open>What the second loop writes for one profile, given the clock reading used.\<close>

definition recorded :: "'s profile_state \<Rightarrow> profile_result \<Rightarrow> 's world \<Rightarrow> profile_data \<Rightarrow> profile_data \<Rightarrow> bool" where
  "recorded ps r w pd pd' \<longleftrightarrow> pd_Previous pd' = pr_State r \<and>
     (if ps_State ps = ar_Next (pr_Applied r)
      then pd_Current pd' = pd_Current pd \<and> pd_Transition pd' = pd_Transition pd
      else pd_Current pd' = ar_Next (pr_Applied r) \<and> t_ns (pd_Transition pd') = w_now w
        \<and> t_off (pd_Transition pd') = 0)"

lemma record_result_Some:
  assumes "record_result ps r d w = Some (d', w')"
  obtains pd pd' where "gm_get (d_Profiles d) (pf_Name (ps_Profile ps)) = Some (Some pd)"
    "gm_put (pf_Name (ps_Profile ps)) (Some pd') (d_Profiles d) = Some (d_Profiles d')"
    "recorded ps r w pd pd'" "d_Notifications d' = d_Notifications d"
    "w_node w' = w_node w" "w_api w' = w_api w" "w_now w \<le> w_now w'"
proof -
  obtain pd where pd: "gm_get (d_Profiles d) (pf_Name (ps_Profile ps)) = Some (Some pd)"
    using assms
    by (cases "gm_get (d_Profiles d) (pf_Name (ps_Profile ps))";
        cases "the (gm_get (d_Profiles d) (pf_Name (ps_Profile ps)))") (auto simp: record_result_def)
  let ?moved = "pd\<lparr>pd_Transition := UTC (fst (time_Now w)), pd_Current := ar_Next (pr_Applied r)\<rparr>"
  let ?pd' = "(if ps_State ps \<noteq> ar_Next (pr_Applied r) then ?moved else pd)\<lparr>pd_Previous := pr_State r\<rparr>"
  show thesis
  proof (rule that [OF pd, of ?pd'])
    show "gm_put (pf_Name (ps_Profile ps)) (Some ?pd') (d_Profiles d) = Some (d_Profiles d')"
      using assms pd by (auto simp: record_result_def Let_def case_prod_beta go_simps split: if_splits)
  qed (use assms pd time_Now_mono [of w] in
      \<open>auto simp: record_result_def Let_def case_prod_beta go_simps recorded_def UTC_def split: if_splits\<close>)
qed

lemma record_loop_ConsE:
  assumes "record_loop retry (ps # pss) (r # rs) d w = Some (d', w')"
  obtains (retried) "pf_Name (ps_Profile ps) \<in> set retry" "record_loop retry pss rs d w = Some (d', w')"
  | (wrote) d1 w1 where "pf_Name (ps_Profile ps) \<notin> set retry"
      "record_result ps r d w = Some (d1, w1)" "record_loop retry pss rs d1 w1 = Some (d', w')"
  using assms by (auto simp: bind_eq_Some_conv split: if_splits)

lemma record_loop_clock:
  "length pss = length rs \<Longrightarrow> record_loop retry pss rs d w = Some (d', w') \<Longrightarrow> w_now w \<le> w_now w'"
proof (induction pss rs arbitrary: d w rule: list_induct2)
  case (Cons ps pss r rs)
  from Cons.prems show ?case
  proof (cases rule: record_loop_ConsE)
    case (wrote d1 w1)
    from wrote(2) have "w_now w \<le> w_now w1" by (rule record_result_Some)
    with Cons.IH [OF wrote(3)] show ?thesis by simp
  qed (rule Cons.IH)
qed simp

lemma record_loop_frame:
  "length pss = length rs \<Longrightarrow> record_loop retry pss rs d w = Some (d', w') \<Longrightarrow>
   d_Notifications d' = d_Notifications d \<and> w_node w' = w_node w \<and> w_api w' = w_api w \<and>
   (\<forall>n. n \<notin> pf_Name ` ps_Profile ` set pss \<or> n \<in> set retry \<longrightarrow> gm_get (d_Profiles d') n = gm_get (d_Profiles d) n)"
proof (induction pss rs arbitrary: d w rule: list_induct2)
  case (Cons ps pss r rs)
  from Cons.prems show ?case
  proof (cases rule: record_loop_ConsE)
    case retried
    with Cons.IH [OF retried(2)] show ?thesis by auto
  next
    case (wrote d1 w1)
    obtain pd pd' where
      "gm_put (pf_Name (ps_Profile ps)) (Some pd') (d_Profiles d) = Some (d_Profiles d1)"
      "d_Notifications d1 = d_Notifications d" "w_node w1 = w_node w" "w_api w1 = w_api w"
      using wrote(2) by (rule record_result_Some)
    with Cons.IH [OF wrote(3)] wrote(1) show ?thesis by (auto dest!: gm_get_put)
  qed
qed simp

text \<open>With distinct profile names every non-retried profile is written exactly once.\<close>

lemma record_loop_spec:
  "length pss = length rs \<Longrightarrow> record_loop retry pss rs d w = Some (d', w') \<Longrightarrow>
   distinct (map (pf_Name \<circ> ps_Profile) pss) \<Longrightarrow> (ps, r) \<in> set (zip pss rs) \<Longrightarrow>
   pf_Name (ps_Profile ps) \<notin> set retry \<Longrightarrow>
   \<exists>pd pd' w1. gm_get (d_Profiles d) (pf_Name (ps_Profile ps)) = Some (Some pd)
     \<and> gm_get (d_Profiles d') (pf_Name (ps_Profile ps)) = Some (Some pd')
     \<and> recorded ps r w1 pd pd' \<and> w_now w \<le> w_now w1 \<and> w_now w1 \<le> w_now w'"
proof (induction pss rs arbitrary: d w rule: list_induct2)
  case (Cons ps' pss r' rs)
  have other: "pf_Name (ps_Profile ps') \<noteq> pf_Name (ps_Profile ps)" if "(ps, r) \<in> set (zip pss rs)"
    using that Cons.prems(2) by (force dest: set_zip_leftD)
  from Cons.prems(1) show ?case
  proof (cases rule: record_loop_ConsE)
    case retried
    with Cons show ?thesis by auto
  next
    case (wrote d1 w1)
    obtain pd pd' where pd: "gm_get (d_Profiles d) (pf_Name (ps_Profile ps')) = Some (Some pd)"
      "gm_put (pf_Name (ps_Profile ps')) (Some pd') (d_Profiles d) = Some (d_Profiles d1)"
      "recorded ps' r' w pd pd'" "w_now w \<le> w_now w1"
      using wrote(2) by (rule record_result_Some)
    note get = gm_get_put [OF pd(2)]
    show ?thesis
    proof (cases "(ps, r) \<in> set (zip pss rs)")
      case True
      from Cons.IH [OF wrote(3) _ True] Cons.prems(2,4) obtain q q' w2 where
        "gm_get (d_Profiles d1) (pf_Name (ps_Profile ps)) = Some (Some q)"
        "gm_get (d_Profiles d') (pf_Name (ps_Profile ps)) = Some (Some q')"
        "recorded ps r w2 q q'" "w_now w1 \<le> w_now w2" "w_now w2 \<le> w_now w'" by auto
      with get other [OF True] pd(4) show ?thesis
        by (intro exI [of _ q] exI [of _ q'] exI [of _ w2]) auto
    next
      case False
      with Cons.prems(3) have eq: "ps = ps'" "r = r'" by auto
      have "gm_get (d_Profiles d') (pf_Name (ps_Profile ps)) = gm_get (d_Profiles d1) (pf_Name (ps_Profile ps))"
        using record_loop_frame [OF Cons.hyps wrote(3)] Cons.prems(2) eq by (auto simp: image_image)
      with eq pd get record_loop_clock [OF Cons.hyps wrote(3)] show ?thesis
        by (intro exI [of _ pd] exI [of _ pd'] exI [of _ w]) auto
    qed
  qed
qed simp

text \<open>Without distinctness: any relation between entries that one write keeps is kept by all.\<close>

lemma record_loop_all:
  assumes step: "\<And>ps r w pd pd'. (ps, r) \<in> set (zip pss rs) \<Longrightarrow> P (pf_Name (ps_Profile ps)) (Some pd) \<Longrightarrow>
      recorded ps r w pd pd' \<Longrightarrow> P (pf_Name (ps_Profile ps)) (Some pd')"
    and len: "length pss = length rs"
    and run: "record_loop retry pss rs d w = Some (d', w')"
    and init: "gm_all P (d_Profiles d)"
  shows "gm_all P (d_Profiles d')"
  using len run init step
proof (induction pss rs arbitrary: d w rule: list_induct2)
  case (Cons ps pss r rs)
  have st: "P (pf_Name (ps_Profile ps)) (Some pd')"
    if "(ps, r) \<in> set (zip pss rs)" "P (pf_Name (ps_Profile ps)) (Some pd)" "recorded ps r w pd pd'"
    for ps r w pd pd'
    by (rule Cons.prems(3) [OF _ that(2,3)]) (simp add: that(1))
  from Cons.prems(1) show ?case
  proof (cases rule: record_loop_ConsE)
    case retried
    from Cons.IH [OF retried(2) Cons.prems(2) st] show ?thesis .
  next
    case (wrote d1 w1)
    obtain pd pd' where pd: "gm_get (d_Profiles d) (pf_Name (ps_Profile ps)) = Some (Some pd)"
      "gm_put (pf_Name (ps_Profile ps)) (Some pd') (d_Profiles d) = Some (d_Profiles d1)"
      "recorded ps r w pd pd'"
      using wrote(2) by (rule record_result_Some)
    have "P (pf_Name (ps_Profile ps)) (Some pd')"
      using Cons.prems(3) [OF _ gm_allD [OF Cons.prems(2) pd(1)] pd(3)] by simp
    from Cons.IH [OF wrote(3) gm_all_put [OF pd(2) Cons.prems(2) this] st] show ?thesis .
  qed
qed simp


section \<open>Stages of a reconciliation\<close>

lemma ApplyProfiles_stages:
  assumes "ApplyProfiles rp h = Some (err, h')"
  obtains (errors) pss acc w1 e where
      "GetProfilesWithState (hs_data h) (profiles_label (hs_world h)) (Profiles (rp_config rp)) = Some pss"
      "apply_loop rp pss pss \<lparr>aa_results = [], aa_errs = [], aa_retry = []\<rparr> (hs_data h) (hs_world h)
         = Some (acc, hs_data h', w1)"
      "aa_errs acc \<noteq> []" "err = Some (WrapError ''failed to apply current state: '' e)"
      "w_node (hs_world h') = w_node w1"
  | (recorded) pss acc d1 w1 w2 where
      "GetProfilesWithState (hs_data h) (profiles_label (hs_world h)) (Profiles (rp_config rp)) = Some pss"
      "apply_loop rp pss pss \<lparr>aa_results = [], aa_errs = [], aa_retry = []\<rparr> (hs_data h) (hs_world h)
         = Some (acc, d1, w1)"
      "aa_errs acc = []" "err = None" "w_node w2 = w_node w1" "w_now w1 \<le> w_now w2"
      "record_loop (aa_retry acc) pss (aa_results acc) d1 w2 = Some (hs_data h', hs_world h')"
proof -
  from assms obtain pss where pss:
    "GetProfilesWithState (hs_data h) (profiles_label (hs_world h)) (Profiles (rp_config rp)) = Some pss"
    by (auto simp: ApplyProfiles_def bind_eq_Some_conv)
  with assms obtain acc d1 w1 where loop:
    "apply_loop rp pss pss \<lparr>aa_results = [], aa_errs = [], aa_retry = []\<rparr> (hs_data h) (hs_world h)
       = Some (acc, d1, w1)"
    by (auto simp: ApplyProfiles_def bind_eq_Some_conv)
  let ?info = "\<lparr>ninf_Node = n_Name (w_node w1), ninf_Profiles = aa_results acc,
    ninf_Labels = filterNodeLabels (n_Labels (w_node w1)) (DashboardLabelFilter (rp_config rp)),
    ninf_Updated = zero_time\<rparr>"
  from assms pss loop obtain nodes w2 where up: "cache_Update ?info (hs_cache h) w1 = Some (nodes, w2)"
    by (auto simp: ApplyProfiles_def bind_eq_Some_conv)
  then have "w2 = snd (time_Now w1)"
    by (auto simp: cache_Update_def case_prod_beta go_simps)
  then have w2: "w_node w2 = w_node w1" "w_now w1 \<le> w_now w2"
    by (simp_all add: time_Now_mono)
  show thesis
  proof (cases "aa_errs acc = []")
    case True
    with assms pss loop up have "err = None" "record_loop (aa_retry acc) pss (aa_results acc) d1 w2
        = Some (hs_data h', hs_world h')"
      by (auto simp: ApplyProfiles_def errors_Join_def bind_eq_Some_conv)
    with recorded [OF pss loop True] w2 show thesis by blast
  next
    case False
    with assms pss loop up have "\<exists>e. err = Some (WrapError ''failed to apply current state: '' e)"
        "hs_data h' = d1" "hs_world h' = w2"
      by (auto simp: ApplyProfiles_def errors_Join_def)
    with errors [OF pss _ False] loop w2 show thesis by auto
  qed
qed

lemma UpdateMaintenanceStateLabel_Some:
  assumes "UpdateMaintenanceStateLabel rp h = Some (err, h')"
  obtains pss where
    "GetProfilesWithState (hs_data h) (profiles_label (hs_world h)) (Profiles (rp_config rp)) = Some pss"
    "err = None" "hs_data h' = hs_data h"
    "gm_get (n_Labels (w_node (hs_world h'))) =
       (gm_get (n_Labels (w_node (hs_world h))))(StateLabelKey \<mapsto> most_critical pss)"
    "n_Annotations (w_node (hs_world h')) = n_Annotations (w_node (hs_world h))"
proof -
  let ?w0 = "(hs_world h)\<lparr>w_node := (w_node (hs_world h))\<lparr>n_Labels := gm_ensure (n_Labels (w_node (hs_world h)))\<rparr>\<rparr>"
  from assms obtain pss w where pss:
    "GetProfilesWithState (hs_data h) (profiles_label (hs_world h)) (Profiles (rp_config rp)) = Some pss"
    and w: "set_state_label (most_critical pss) ?w0 = Some w" and h': "err = None" "h' = h\<lparr>hs_world := w\<rparr>"
    by (auto simp: UpdateMaintenanceStateLabel_def bind_eq_Some_conv Let_def)
  from w obtain ls where "gm_put StateLabelKey (most_critical pss) (gm_ensure (n_Labels (w_node (hs_world h)))) = Some ls"
    "w = ?w0\<lparr>w_node := (w_node ?w0)\<lparr>n_Labels := ls\<rparr>\<rparr>"
    by (auto simp: set_state_label_def bind_eq_Some_conv)
  with pss h' that show thesis by (auto dest!: gm_get_put)
qed

lemma HandleNode_stages:
  assumes "HandleNode rp h = Some (err, h')"
  obtains d1 w0 w1 err2 h2 where
    "w0 = (hs_world h)\<lparr>w_node := (w_node (hs_world h))\<lparr>n_Labels := gm_ensure (n_Labels (w_node (hs_world h)))\<rparr>\<rparr>"
    "profiles_label w0 = profiles_label (hs_world h)"
    "MaintainProfileStates (hs_data h) (profiles_label (hs_world h)) (Profiles (rp_config rp)) w0 = Some (d1, w1)"
    "profiles_label w1 = profiles_label (hs_world h)"
    "ApplyProfiles rp (h\<lparr>hs_data := d1, hs_world := w1\<rparr>) = Some (err2, h2)"
    "err2 \<noteq> None \<and> err = err2 \<and> h' = h2 \<or>
     err2 = None \<and> err = None \<and> UpdateMaintenanceStateLabel rp h2 = Some (None, h')"
proof -
  let ?w0 = "(hs_world h)\<lparr>w_node := (w_node (hs_world h))\<lparr>n_Labels := gm_ensure (n_Labels (w_node (hs_world h)))\<rparr>\<rparr>"
  have l0: "profiles_label ?w0 = profiles_label (hs_world h)"
    by (simp add: profiles_label_def gm_str_def)
  from assms l0 obtain d1 w1 where m: "MaintainProfileStates (hs_data h) (profiles_label (hs_world h))
      (Profiles (rp_config rp)) ?w0 = Some (d1, w1)"
    by (auto simp: HandleNode_def handlers_def EnsureLabelMap_def Let_def
        MaintainProfileStates_handler_def bind_eq_Some_conv)
  then have "w_node w1 = w_node ?w0" by (auto dest: MaintainProfileStates_frame)
  then have l1: "profiles_label w1 = profiles_label (hs_world h)"
    using l0 by (simp add: profiles_label_def)
  have step: "HandleNode rp h = run_handlers [ApplyProfiles, UpdateMaintenanceStateLabel] rp
      (h\<lparr>hs_data := d1, hs_world := w1\<rparr>)"
    using m l0 by (simp add: HandleNode_def handlers_def EnsureLabelMap_def Let_def
        MaintainProfileStates_handler_def)
  with assms obtain err2 h2 where a: "ApplyProfiles rp (h\<lparr>hs_data := d1, hs_world := w1\<rparr>) = Some (err2, h2)"
    by (auto simp: bind_eq_Some_conv)
  have "err2 \<noteq> None \<and> err = err2 \<and> h' = h2 \<or>
     err2 = None \<and> err = None \<and> UpdateMaintenanceStateLabel rp h2 = Some (None, h')"
  proof (cases err2)
    case None
    with assms step a obtain err3 where "UpdateMaintenanceStateLabel rp h2 = Some (err3, h')" "err = err3"
      by (auto simp: go_simps)
    with None show ?thesis by (auto elim: UpdateMaintenanceStateLabel_Some)
  qed (use assms step a in auto)
  with that [OF refl l0 m l1 a] show thesis by blast
qed

section \<open>Steps of a profile\<close>

text \<open>
  The change one successful reconciliation makes to the entry of a profile: nothing (its
  \<open>Enter\<close> chain asked for a retry), or the state before the reconciliation becomes
  \<open>Previous\<close> and \<open>Current\<close> stays or follows a configured transition, into maintenance
  only if no profile of the node is there.
\<close>

definition profile_step :: "('s, 'c) config \<Rightarrow> bool \<Rightarrow> string \<Rightarrow> profile_data \<Rightarrow> profile_data \<Rightarrow> bool" where
  "profile_step cfg anyM n pd pd' \<longleftrightarrow> pd' = pd \<or>
     pd_Previous pd' = pd_Current pd \<and>
     (pd_Current pd' = pd_Current pd \<and> pd_Transition pd' = pd_Transition pd \<or>
      (\<exists>pf c t. gm_get (Profiles cfg) n = Some pf \<and> map_of (pf_Chains pf) (pd_Current pd) = Some c
         \<and> t \<in> set (pc_Transitions c) \<and> tr_Next t = pd_Current pd')
      \<and> (pd_Current pd' = InMaintenance \<longrightarrow> \<not> anyM))"

definition in_maintenance :: "('s, 'c) config \<Rightarrow> string \<Rightarrow> data \<Rightarrow> bool" where
  "in_maintenance cfg label d \<longleftrightarrow> (\<exists>n \<in> label_names label. gm_get (Profiles cfg) n \<noteq> None
     \<and> (\<exists>pd. gm_get (d_Profiles d) n = Some (Some pd) \<and> pd_Current pd = InMaintenance))"

lemma profile_state_of:
  assumes "GetProfilesWithState d s available = Some pss" and "named_by_key available" and "ps \<in> set pss"
  shows "gm_get available (pf_Name (ps_Profile ps)) = Some (ps_Profile ps)"
    and "pf_Name (ps_Profile ps) \<in> label_names s"
    and "\<exists>pd. gm_get (d_Profiles d) (pf_Name (ps_Profile ps)) = Some (Some pd) \<and> ps_State ps = pd_Current pd"
proof -
  note ws = with_states_spec [OF assms(1) [unfolded GetProfilesWithState_def]]
  then have "ps_Profile ps \<in> set (getProfiles (or_default s) available)"
    using assms(3) by (metis image_eqI set_map)
  then show "gm_get available (pf_Name (ps_Profile ps)) = Some (ps_Profile ps)"
    "pf_Name (ps_Profile ps) \<in> label_names s"
    using assms(2) by (auto simp: set_getProfiles named_by_key_def)
  show "\<exists>pd. gm_get (d_Profiles d) (pf_Name (ps_Profile ps)) = Some (Some pd) \<and> ps_State ps = pd_Current pd"
    using ws assms(3) by auto
qed

lemma names_of_states:
  assumes "GetProfilesWithState d s available = Some pss" and "named_by_key available"
  shows "map (pf_Name \<circ> ps_Profile) pss
    = filter (\<lambda>n. gm_get available n \<noteq> None) (strings_Split (or_default s) profileSeparator)"
proof -
  have "map pf_Name (List.map_filter (gm_get available) ns) = filter (\<lambda>n. gm_get available n \<noteq> None) ns" for ns
    using assms(2) by (induction ns) (auto simp: map_filter_simps named_by_key_def split: option.splits)
  then show ?thesis
    using with_states_spec [OF assms(1) [unfolded GetProfilesWithState_def]]
    by (auto simp: getProfiles_def simp flip: map_map)
qed

lemma anyInMaintenance_iff:
  assumes "GetProfilesWithState d s (Profiles cfg) = Some pss" and "named_by_key (Profiles cfg)"
  shows "anyInMaintenance pss \<longleftrightarrow> in_maintenance cfg s d"
proof
  assume "anyInMaintenance pss"
  then obtain ps where ps: "ps \<in> set pss" "ps_State ps = InMaintenance" by (auto simp: anyInMaintenance_def)
  from profile_state_of [OF assms ps(1)] ps(2) show "in_maintenance cfg s d"
    by (auto simp: in_maintenance_def intro!: bexI [of _ "pf_Name (ps_Profile ps)"])
next
  assume "in_maintenance cfg s d"
  then obtain n pd where n: "n \<in> label_names s" "gm_get (Profiles cfg) n \<noteq> None"
    "gm_get (d_Profiles d) n = Some (Some pd)" "pd_Current pd = InMaintenance"
    by (auto simp: in_maintenance_def)
  then have "n \<in> set (map (pf_Name \<circ> ps_Profile) pss)"
    unfolding names_of_states [OF assms] by (simp add: label_names_def)
  then obtain ps where ps: "ps \<in> set pss" "n = pf_Name (ps_Profile ps)" by auto
  with n profile_state_of(3) [OF assms ps(1)] show "anyInMaintenance pss"
    by (auto simp: anyInMaintenance_def)
qed

lemma recorded_step:
  assumes "GetProfilesWithState d s (Profiles cfg) = Some pss" and "named_by_key (Profiles cfg)"
    and "ps \<in> set pss" and "profile_outcome pss ps r" and "recorded ps r w pd pd'"
    and "gm_get (d_Profiles d) (pf_Name (ps_Profile ps)) = Some (Some pd)"
  shows "profile_step cfg (in_maintenance cfg s d) (pf_Name (ps_Profile ps)) pd pd'"
proof (cases "ar_Next (pr_Applied r) = ps_State ps")
  case True
  with assms(4-6) profile_state_of(3) [OF assms(1-3)] show ?thesis
    by (auto simp: profile_step_def recorded_def profile_outcome_def)
next
  case False
  then obtain p where p: "P_InMaintenance p = anyInMaintenance pss"
    and e: "passed_edge p (chains_of ps) (pr_Applied r)"
    using assms(4) by (auto simp: profile_outcome_def)
  from e obtain t where t: "t \<in> set (pc_Transitions (chains_of ps))" "tr_Next t = ar_Next (pr_Applied r)"
    "\<not> (ar_Next (pr_Applied r) = InMaintenance \<and> anyInMaintenance pss)"
    using p by (auto simp: passed_edge_def dest: set_zip_leftD)
  from t(1) obtain c where c: "map_of (pf_Chains (ps_Profile ps)) (ps_State ps) = Some c" "chains_of ps = c"
    by (auto simp: chains_of_def empty_chains_def split: option.splits)
  show ?thesis
    using False assms(4-6) t c profile_state_of [OF assms(1-3)] anyInMaintenance_iff [OF assms(1,2)]
    by (auto simp: profile_step_def recorded_def profile_outcome_def)
qed

lemma ApplyProfiles_step:
  assumes run: "ApplyProfiles rp h = Some (None, h')"
    and cfg: "named_by_key (Profiles (rp_config rp))"
    and dist: "distinct (strings_Split (or_default (profiles_label (hs_world h))) profileSeparator)"
    and old: "gm_get (d_Profiles (hs_data h)) n = Some (Some pd)"
  shows "\<exists>pd'. gm_get (d_Profiles (hs_data h')) n = Some (Some pd') \<and>
    profile_step (rp_config rp) (in_maintenance (rp_config rp) (profiles_label (hs_world h)) (hs_data h)) n pd pd'"
  using run
proof (cases rule: ApplyProfiles_stages)
  case (recorded pss acc d1 w1 w2)
  from apply_loop_outcomes [OF recorded(2,3)] have out: "list_all2 (profile_outcome pss) pss (aa_results acc)"
    by simp
  then have len: "length pss = length (aa_results acc)" by (rule list_all2_lengthD)
  have same: "d_Profiles d1 = d_Profiles (hs_data h)" by (rule apply_loop_profiles [OF recorded(2)])
  have dn: "distinct (map (pf_Name \<circ> ps_Profile) pss)"
    unfolding names_of_states [OF recorded(1) cfg] using dist by simp
  show ?thesis
  proof (cases "n \<in> (pf_Name \<circ> ps_Profile) ` set pss \<and> n \<notin> set (aa_retry acc)")
    case True
    then obtain i where i: "i < length pss" "n = pf_Name (ps_Profile (pss ! i))"
      by (auto simp: in_set_conv_nth)
    let ?ps = "pss ! i" and ?r = "aa_results acc ! i"
    have z: "(?ps, ?r) \<in> set (zip pss (aa_results acc))" using i len by (auto simp: in_set_zip)
    from record_loop_spec [OF len recorded(7) dn z] True i obtain q pd' w3 where
      q: "gm_get (d_Profiles d1) n = Some (Some q)" "gm_get (d_Profiles (hs_data h')) n = Some (Some pd')"
        "recorded ?ps ?r w3 q pd'" by auto
    have "profile_outcome pss ?ps ?r" using out i by (simp add: list_all2_conv_all_nth)
    from recorded_step [OF recorded(1) cfg _ this q(3)] q old same i show ?thesis by auto
  next
    case False
    then have "gm_get (d_Profiles (hs_data h')) n = gm_get (d_Profiles d1) n"
      using record_loop_frame [OF len recorded(7)] by (auto simp: image_image o_def)
    with same old show ?thesis by (auto simp: profile_step_def)
  qed
qed simp

section \<open>Validity of the persisted data\<close>

definition data_ok :: "data \<Rightarrow> bool" where
  "data_ok d \<longleftrightarrow> gm_all (\<lambda>n x. \<exists>pd. x = Some pd \<and> pd_Current pd \<in> valid_labels
     \<and> pd_Previous pd \<in> valid_labels) (d_Profiles d)"

definition config_ok :: "('s, 'c) config \<Rightarrow> bool" where
  "config_ok cfg \<longleftrightarrow> gm_all (\<lambda>k pf. pf_Name pf = k \<and> profile_ok pf) (Profiles cfg)"

lemma config_ok_named: "config_ok cfg \<Longrightarrow> named_by_key (Profiles cfg)"
  by (auto simp: config_ok_def named_by_key_def gm_all_def)

lemma data_ok_no_nil: "data_ok d \<Longrightarrow> no_nil_profiles d"
  by (force simp: data_ok_def gm_all_def no_nil_profiles_def)

lemma config_ok_edge:
  assumes "config_ok cfg" and "gm_get (Profiles cfg) n = Some pf"
    and "map_of (pf_Chains pf) l = Some c" and "t \<in> set (pc_Transitions c)"
  shows "tr_Next t \<in> valid_labels"
proof -
  from assms(1,2) have "profile_ok pf" by (auto simp: config_ok_def gm_all_def)
  moreover from assms(3) have "c \<in> snd ` set (pf_Chains pf)" by (force dest: map_of_SomeD)
  ultimately show ?thesis using assms(4) by (auto simp: profile_ok_def chains_ok_def transition_ok_def)
qed

lemma outcome_valid:
  assumes "config_ok cfg" and "gm_get (Profiles cfg) (pf_Name (ps_Profile ps)) = Some (ps_Profile ps)"
    and "profile_outcome pss ps r"
  shows "ar_Next (pr_Applied r) \<in> valid_labels" and "pr_State r \<in> valid_labels"
proof -
  show "pr_State r \<in> valid_labels" using assms(3) by (simp add: profile_outcome_def)
  show "ar_Next (pr_Applied r) \<in> valid_labels"
  proof (cases "ar_Next (pr_Applied r) = ps_State ps")
    case True
    with assms(3) show ?thesis by (simp add: profile_outcome_def)
  next
    case False
    with assms(3) obtain t where t: "t \<in> set (pc_Transitions (chains_of ps))" "tr_Next t = ar_Next (pr_Applied r)"
      by (auto simp: profile_outcome_def passed_edge_def dest: set_zip_leftD)
    then obtain c where "map_of (pf_Chains (ps_Profile ps)) (ps_State ps) = Some c" "chains_of ps = c"
      by (auto simp: chains_of_def empty_chains_def split: option.splits)
    with config_ok_edge [OF assms(1,2)] t show ?thesis by metis
  qed
qed

lemma ApplyProfiles_data_ok:
  assumes run: "ApplyProfiles rp h = Some (err, h')" and cfg: "config_ok (rp_config rp)"
    and ok: "data_ok (hs_data h)"
  shows "data_ok (hs_data h')"
  using run
proof (cases rule: ApplyProfiles_stages)
  case (errors pss acc w1 e)
  from apply_loop_profiles [OF errors(2)] ok show ?thesis by (simp add: data_ok_def)
next
  case (recorded pss acc d1 w1 w2)
  from apply_loop_outcomes [OF recorded(2,3)] have out: "list_all2 (profile_outcome pss) pss (aa_results acc)"
    by simp
  then have len: "length pss = length (aa_results acc)" by (rule list_all2_lengthD)
  show ?thesis unfolding data_ok_def
  proof (rule record_loop_all [OF _ len recorded(7)])
    show "gm_all (\<lambda>n x. \<exists>pd. x = Some pd \<and> pd_Current pd \<in> valid_labels \<and> pd_Previous pd \<in> valid_labels)
        (d_Profiles d1)"
      using ok apply_loop_profiles [OF recorded(2)] by (simp add: data_ok_def)
  next
    fix ps r w pd pd'
    assume z: "(ps, r) \<in> set (zip pss (aa_results acc))" and rec: "recorded ps r w pd pd'"
      and old: "\<exists>q. Some pd = Some q \<and> pd_Current q \<in> valid_labels \<and> pd_Previous q \<in> valid_labels"
    from z out have po: "profile_outcome pss ps r" by (auto simp: list_all2_iff)
    from z have "ps \<in> set pss" by (rule set_zip_leftD)
    from outcome_valid [OF cfg profile_state_of(1) [OF recorded(1) config_ok_named [OF cfg] this] po] rec old
    show "\<exists>q. Some pd' = Some q \<and> pd_Current q \<in> valid_labels \<and> pd_Previous q \<in> valid_labels"
      by (auto simp: recorded_def split: if_splits)
  qed
qed

lemma MaintainProfileStates_data_ok:
  assumes m: "MaintainProfileStates d s available w = Some (d', w')"
    and av: "named_by_key available" and ok: "data_ok d"
  shows "data_ok d'"
  unfolding data_ok_def gm_all_def
proof (intro allI impI)
  fix n x assume x: "gm_get (d_Profiles d') n = Some x"
  show "\<exists>pd. x = Some pd \<and> pd_Current pd \<in> valid_labels \<and> pd_Previous pd \<in> valid_labels"
    using MaintainProfileStates_get [OF m av, of n] x ok
    by (cases "gm_get (d_Profiles d) n")
      (auto simp: data_ok_def gm_all_def fresh_profile_def valid_labels_def split: if_splits)
qed

lemma HandleNode_data_ok:
  assumes run: "HandleNode rp h = Some (err, h')" and cfg: "config_ok (rp_config rp)"
    and ok: "data_ok (hs_data h)"
  shows "data_ok (hs_data h')"
  using run
proof (cases rule: HandleNode_stages)
  case (1 d1 w0 w1 err2 h2)
  have "data_ok d1" by (rule MaintainProfileStates_data_ok [OF 1(3) config_ok_named [OF cfg] ok])
  then have "data_ok (hs_data h2)" using ApplyProfiles_data_ok [OF 1(5) cfg] by simp
  then show ?thesis using 1(6) by (auto elim: UpdateMaintenanceStateLabel_Some)
qed

text \<open>
  Runs of the controller on one node: successful and failed reconciliations under
  configurations that loaded (the file is read anew each time), and arbitrary changes of node
  and cluster in between. A failed reconciliation is not persisted, so only the world and the
  cache of it survive, which the environment step covers.
\<close>

inductive node_run :: "('s, 'c) config set \<Rightarrow> 's handler_state \<Rightarrow> 's handler_state \<Rightarrow> bool"
  for cfgs h0 where
  start: "node_run cfgs h0 h0"
| reconciled: "node_run cfgs h0 h \<Longrightarrow> rp_config rp \<in> cfgs \<Longrightarrow> HandleNode rp h = Some (None, h') \<Longrightarrow>
    node_run cfgs h0 h'"
| environment: "node_run cfgs h0 h \<Longrightarrow> node_run cfgs h0 (h\<lparr>hs_world := w, hs_cache := c\<rparr>)"

lemma node_run_data_ok:
  "node_run cfgs h0 h \<Longrightarrow> \<forall>cfg \<in> cfgs. config_ok cfg \<Longrightarrow> data_ok (hs_data h0) \<Longrightarrow> data_ok (hs_data h)"
  by (induction rule: node_run.induct) (auto dest: HandleNode_data_ok)

lemma in_maintenance_maintain:
  assumes m: "MaintainProfileStates d s (Profiles cfg) w = Some (d', w')" and av: "named_by_key (Profiles cfg)"
  shows "in_maintenance cfg s d' \<longleftrightarrow> in_maintenance cfg s d"
  unfolding in_maintenance_def
proof (rule bex_cong [OF refl])
  fix k assume k: "k \<in> label_names s"
  show "(gm_get (Profiles cfg) k \<noteq> None
      \<and> (\<exists>pd. gm_get (d_Profiles d') k = Some (Some pd) \<and> pd_Current pd = InMaintenance)) \<longleftrightarrow>
    (gm_get (Profiles cfg) k \<noteq> None
      \<and> (\<exists>pd. gm_get (d_Profiles d) k = Some (Some pd) \<and> pd_Current pd = InMaintenance))"
    using MaintainProfileStates_get [OF m av, of k] k
    by (cases "gm_get (d_Profiles d) k") (auto simp: fresh_profile_def)
qed

lemma HandleNode_step:
  assumes run: "HandleNode rp h = Some (None, h')"
    and cfg: "named_by_key (Profiles (rp_config rp))"
    and dist: "distinct (strings_Split (or_default (profiles_label (hs_world h))) profileSeparator)"
    and n: "n \<in> label_names (profiles_label (hs_world h))"
    and old: "gm_get (d_Profiles (hs_data h)) n = Some (Some pd)"
  shows "\<exists>pd'. gm_get (d_Profiles (hs_data h')) n = Some (Some pd') \<and>
    profile_step (rp_config rp) (in_maintenance (rp_config rp) (profiles_label (hs_world h)) (hs_data h)) n pd pd'"
  using run
proof (cases rule: HandleNode_stages)
  case (1 d1 w0 w1 err2 h2)
  from 1(6) have e2: "err2 = None" and up: "UpdateMaintenanceStateLabel rp h2 = Some (None, h')" by auto
  have d2: "hs_data h' = hs_data h2" using up by (rule UpdateMaintenanceStateLabel_Some)
  let ?cfg = "rp_config rp" and ?l = "profiles_label (hs_world h)"
  have kept: "gm_get (d_Profiles d1) k = gm_get (d_Profiles (hs_data h)) k"
    if "k \<in> label_names ?l" "gm_get (d_Profiles (hs_data h)) k \<noteq> None" for k
    using MaintainProfileStates_kept [OF 1(3) cfg that(1)] that(2) by auto
  have "in_maintenance ?cfg ?l d1 \<longleftrightarrow> in_maintenance ?cfg ?l (hs_data h)"
    by (rule in_maintenance_maintain [OF 1(3) cfg])
  moreover have "gm_get (d_Profiles d1) n = Some (Some pd)" using kept [OF n] old by simp
  ultimately show ?thesis
    using ApplyProfiles_step [OF 1(5) [unfolded e2], of n pd] cfg dist 1(4) d2 by simp
qed

lemma HandleNode_error_keeps:
  assumes run: "HandleNode rp h = Some (Some e, h')" and cfg: "named_by_key (Profiles (rp_config rp))"
    and n: "n \<in> label_names (profiles_label (hs_world h))"
    and old: "gm_get (d_Profiles (hs_data h)) n = Some pd"
  shows "gm_get (d_Profiles (hs_data h')) n = Some pd"
  using run
proof (cases rule: HandleNode_stages)
  case (1 d1 w0 w1 err2 h2)
  from 1(6) have a: "ApplyProfiles rp (h\<lparr>hs_data := d1, hs_world := w1\<rparr>) = Some (Some e, h')" using 1(5) by auto
  have "gm_get (d_Profiles d1) n = Some pd" by (rule MaintainProfileStates_kept [OF 1(3) cfg n old])
  with a show ?thesis
    by (cases rule: ApplyProfiles_stages) (auto dest: apply_loop_profiles)
qed

end
