(* ===== verification/Safety.thy ===== *)
theory Safety
  imports Handler
begin

text \<open>
  Absence of run-time panics. The controllers dereference map entries and write to maps
  without further checks; this theory shows, once for every relation between worlds that the
  controller's own effects respect, that chains, states and handlers return a value and
  respect the relation whenever the plugins do. The locale is interpreted for three
  relations: the profile label of the node is kept, the whole node object is kept, and the
  clock does not run backwards.
\<close>

section \<open>Well-behaved plugins\<close>

text \<open>A method that returns on every input and relates the worlds before and after.\<close>

definition returns :: "('s world \<Rightarrow> 's world \<Rightarrow> bool) \<Rightarrow> ('s, 'a) plugin_method \<Rightarrow> bool" where
  "returns R m \<longleftrightarrow> (\<forall>p w. \<exists>r w'. m p w = Some (r, w') \<and> R w w')"

definition checks_return :: "('s world \<Rightarrow> 's world \<Rightarrow> bool) \<Rightarrow> 's check_chain \<Rightarrow> bool" where
  "checks_return R c \<longleftrightarrow> (cc_Evaluable c \<noteq> None \<or> cc_Plugins c = []) \<and>
     (\<forall>i \<in> set (cc_Plugins c). returns R (Check (ci_Plugin i)) \<and> returns R (OnTransition (ci_Plugin i)))"

definition triggers_return :: "('s world \<Rightarrow> 's world \<Rightarrow> bool) \<Rightarrow> 's trigger_chain \<Rightarrow> bool" where
  "triggers_return R ts \<longleftrightarrow> (\<forall>i \<in> set ts. returns R (Trigger (ti_Plugin i)))"

definition chains_return :: "('s world \<Rightarrow> 's world \<Rightarrow> bool) \<Rightarrow> 's plugin_chains \<Rightarrow> bool" where
  "chains_return R c \<longleftrightarrow> triggers_return R (pc_Enter c)
     \<and> (\<forall>n \<in> set (pc_Notification c). returns R (Notify (ni_Plugin n)))
     \<and> (\<forall>t \<in> set (pc_Transitions c). checks_return R (tr_Check t) \<and> triggers_return R (tr_Trigger t))"

definition config_returns :: "('s world \<Rightarrow> 's world \<Rightarrow> bool) \<Rightarrow> ('s, 'c) config \<Rightarrow> bool" where
  "config_returns R cfg \<longleftrightarrow>
     gm_all (\<lambda>k pf. \<forall>c \<in> snd ` set (pf_Chains pf). chains_return R c) (Profiles cfg)"

text \<open>
  An outcome that is no panic and whose world, read off by \<open>g\<close>, is related to the world
  before; sequencing is handled once by the bind rule below.
\<close>

definition lands :: "('w \<Rightarrow> 'w \<Rightarrow> bool) \<Rightarrow> 'w \<Rightarrow> ('x \<Rightarrow> 'w) \<Rightarrow> 'x option \<Rightarrow> bool" where
  "lands R w g res \<longleftrightarrow> (\<exists>x. res = Some x \<and> R w (g x))"

lemma lands_Some [simp]: "lands R w g (Some x) \<longleftrightarrow> R w (g x)"
  by (simp add: lands_def)

lemma landsD: "lands R w g res \<Longrightarrow> \<exists>x. res = Some x \<and> R w (g x)"
  by (simp add: lands_def)

lemma returnsD: "returns R m \<Longrightarrow> m p w = Some (r, w') \<Longrightarrow> R w w'"
  unfolding returns_def by (metis option.inject prod.inject)

lemma returns_lands: "returns R m \<Longrightarrow> lands R w snd (m p w)"
  by (force simp: returns_def lands_def)

text \<open>The data \<open>Apply\<close> leaves behind is the one it got or the one the notifications left.\<close>

lemma Apply_trigger_data: "Apply_trigger st d p r next w = Some ((r', err), d', w') \<Longrightarrow> d' = d"
  by (auto simp: Apply_trigger_def go_simps dest!: handleTransitionError_eq split: if_splits)

lemma Apply_evaluate_data:
  assumes "Apply_evaluate st d p r w = Some ((r', err), d', w')"
  shows "\<exists>err2 w2. NodeState_Notify st p d w = Some ((err2, d'), w2)"
proof -
  obtain err2 d2 w2 where n: "NodeState_Notify st p d w = Some ((err2, d2), w2)"
    using assms by (auto simp: Apply_evaluate_def bind_eq_Some_conv)
  show ?thesis
  proof (cases err2)
    case (Some e)
    with assms n show ?thesis by (auto simp: Apply_evaluate_def dest!: handleTransitionError_eq)
  next
    case None
    with assms n show ?thesis
      by (auto simp: Apply_evaluate_def Let_def go_simps dest!: handleTransitionError_eq Apply_trigger_data)
  qed
qed

lemma Apply_data:
  assumes "Apply st d p w = Some ((r, err), d', w')"
  shows "d' = d \<or> (\<exists>err2 w1 w2. NodeState_Notify st p d w1 = Some ((err2, d'), w2))"
proof (cases "gm_get (d_Profiles d) (P_Profile p)")
  case None
  with assms show ?thesis by (simp add: Apply_def Let_def)
next
  case (Some pd)
  with assms obtain info where "pd = Some info" by (cases pd) (auto simp: Apply_def Let_def)
  with assms Some show ?thesis
    by (auto simp: Apply_def Let_def go_simps dest!: handleTransitionError_eq Apply_evaluate_data split: if_splits)
qed

lemma notifyDefault_initialised:
  "notifyDefault p d ns w = Some ((err, d'), w') \<Longrightarrow> d_Notifications d \<noteq> None \<Longrightarrow> d_Notifications d' \<noteq> None"
proof (induction ns arbitrary: d w)
  case (Cons n ns)
  from Cons.prems(1) obtain err1 d1 w1 where n: "notify_instance p d n w = Some ((err1, d1), w1)"
    by (auto simp: bind_eq_Some_conv)
  from notify_instance_frame(3) [OF n Cons.prems(2)] Cons n show ?case by (cases err1) auto
qed simp

lemma Apply_initialised:
  "Apply st d p w = Some ((r, err), d', w') \<Longrightarrow> d_Notifications d \<noteq> None \<Longrightarrow> d_Notifications d' \<noteq> None"
  by (auto simp: NodeState_Notify_def dest!: Apply_data notifyDefault_initialised)

definition has_entry :: "data \<Rightarrow> string \<Rightarrow> bool" where
  "has_entry d n \<longleftrightarrow> (\<exists>pd. gm_get (d_Profiles d) n = Some (Some pd))"

lemma record_result_entries:
  assumes "record_result ps r d w = Some (d', w')" and "has_entry d n"
  shows "has_entry d' n"
proof -
  obtain pd' where "gm_put (pf_Name (ps_Profile ps)) (Some pd') (d_Profiles d) = Some (d_Profiles d')"
    using assms(1) by (rule record_result_Some)
  from gm_get_put [OF this] assms(2) show ?thesis by (auto simp: has_entry_def)
qed

lemma record_loop_entries:
  "length pss = length rs \<Longrightarrow> record_loop retry pss rs d w = Some (d', w') \<Longrightarrow> has_entry d n \<Longrightarrow> has_entry d' n"
proof (induction pss rs arbitrary: d w rule: list_induct2)
  case (Cons ps pss r rs)
  from Cons.prems(1) show ?case
    by (cases rule: record_loop_ConsE) (use Cons record_result_entries in blast)+
qed simp

section \<open>Relations the controller's own effects respect\<close>

locale world_relation =
  fixes R :: "'s world \<Rightarrow> 's world \<Rightarrow> bool"
  assumes R_refl [simp]: "R w w"
    and R_trans: "R w1 w2 \<Longrightarrow> R w2 w3 \<Longrightarrow> R w1 w3"
    and R_metrics: "metrics_frame w w' \<Longrightarrow> R w w'"
    and R_now [simp]: "R w (snd (time_Now w))"
    and R_event [simp]: "R w (emit_event obj reason note w)"
    and R_failure [simp]: "R w (RecordTransitionFailure prof w)"
begin

lemma lands_bind:
  assumes "lands R w g m" and "\<And>x. m = Some x \<Longrightarrow> lands R (g x) g' (f x)"
  shows "lands R w g' (m \<bind> f)"
  using assms by (auto simp: lands_def) (erule (1) R_trans)

lemma lands_weaken: "R w w1 \<Longrightarrow> lands R w1 g res \<Longrightarrow> lands R w g res"
  by (auto simp: lands_def) (erule (1) R_trans)

lemma TriggerChain_returns: "triggers_return R ts \<Longrightarrow> lands R w snd (TriggerChain_Execute ts p w)"
proof (induction ts arbitrary: w)
  case (Cons t ts)
  then show ?case
    by (auto simp: triggers_return_def returns_lands intro!: lands_bind [where g = snd] split: option.splits)
qed simp

lemma check_loop_returns:
  "\<forall>i \<in> set cs. returns R (Check (ci_Plugin i)) \<Longrightarrow> lands R w snd (check_loop cs p acc w)"
proof (induction cs arbitrary: acc w)
  case (Cons c cs)
  obtain ev infos failed where acc: "acc = (ev, infos, failed)" by (cases acc) auto
  show ?case unfolding acc using Cons
    by (auto simp: returns_lands Let_def intro!: lands_bind [where g = snd] split: option.splits)
qed simp

lemma CheckChain_returns:
  assumes "checks_return R c"
  shows "lands R w snd (CheckChain_Execute c p w)"
proof (cases "cc_Evaluable c = None \<and> cc_Plugins c = []")
  case True
  then show ?thesis by (simp add: CheckChain_Execute_def)
next
  case False
  with assms obtain ev where ev: "cc_Evaluable c = Some ev" by (auto simp: checks_return_def)
  have "lands R w snd (check_loop (cc_Plugins c) p acc w)" for acc
    using assms by (intro check_loop_returns) (simp add: checks_return_def)
  then show ?thesis using ev
    by (auto simp: CheckChain_Execute_def Let_def intro!: lands_bind [where g = snd] split: sum.splits)
qed

lemma Transition_returns:
  "checks_return R (tr_Check t) \<Longrightarrow> lands R w snd (Transition_Execute t p w)"
  unfolding Transition_Execute_def
  by (rule lands_bind [OF CheckChain_returns]) (auto split: option.splits)

lemma exec_transitions_returns:
  "\<forall>t \<in> set ts. checks_return R (tr_Check t) \<Longrightarrow> lands R w snd (exec_transitions ts p acc w)"
proof (induction ts arbitrary: acc w)
  case Nil
  then show ?case by (cases acc) simp
next
  case (Cons t ts)
  obtain rs es where acc: "acc = (rs, es)" by (cases acc) auto
  have "lands R w snd (Transition_Execute t p w)" using Cons.prems by (simp add: Transition_returns)
  with Cons show ?case unfolding acc by (auto intro!: lands_bind [where g = snd])
qed

lemma run_hooks_returns:
  "\<forall>i \<in> set cs. returns R (OnTransition (ci_Plugin i)) \<Longrightarrow> lands R w snd (run_hooks cs p w)"
proof (induction cs arbitrary: w)
  case (Cons c cs)
  then show ?case by (auto simp: returns_lands intro!: lands_bind [where g = snd] split: option.splits)
qed simp

lemma pick_transition_returns:
  "\<forall>(t, r) \<in> set trs. checks_return R (tr_Check t) \<Longrightarrow> lands R w snd (pick_transition trs final p w)"
proof (induction trs)
  case (Cons tr trs)
  obtain t r where tr: "tr = (t, r)" by (cases tr)
  have "lands R w snd (run_hooks (cc_Plugins (tr_Check t)) p w)"
    using Cons.prems tr by (intro run_hooks_returns) (auto simp: checks_return_def)
  with Cons show ?case unfolding tr by (auto intro!: lands_bind [where g = snd] split: option.splits)
qed simp

lemma transitionDefault_returns:
  assumes "\<forall>t \<in> set ts. checks_return R (tr_Check t)"
  shows "lands R w snd (transitionDefault p cur ts w)"
proof -
  have "\<forall>(t, r) \<in> set (zip ts rs). checks_return R (tr_Check t)" for rs :: "transition_result list"
    using assms by (auto dest: set_zip_leftD)
  then show ?thesis using exec_transitions_returns [OF assms] pick_transition_returns
    by (auto simp: transitionDefault_def Let_def intro!: lands_bind [where g = snd] split: option.splits)
qed

text \<open>Notifications: the map of the data must be initialised, as \<open>ParseData\<close> ensures.\<close>

lemma ShouldNotify_R: "R w (snd (ShouldNotify s sp w))"
  by (cases s) (auto simp: NotifyOneshot_ShouldNotify_def time_Since_unfold)

lemma notify_instance_returns:
  assumes "d_Notifications d \<noteq> None" and "returns R (Notify (ni_Plugin n))"
  shows "lands R w snd (notify_instance p d n w)"
proof (cases "ni_Schedule n")
  case None
  then show ?thesis by (simp add: notify_instance_def)
next
  case (Some sched)
  obtain ns where ns: "(case gm_get (d_Notifications d) (ni_Name n) of
      None \<Rightarrow> gm_put (ni_Name n) zero_time (d_Notifications d)
    | Some _ \<Rightarrow> Some (d_Notifications d)) = Some ns" "ns \<noteq> None"
    using assms(1) gm_put_total [OF assms(1), of "ni_Name n" zero_time]
    by (cases "gm_get (d_Notifications d) (ni_Name n)") (auto dest: gm_put_not_nil)
  have put: "\<exists>m. gm_put k t ns = Some m" for k t by (rule gm_put_total [OF ns(2)])
  obtain now w1 where now: "time_Now w = (now, w1)" by (cases "time_Now w")
  then have w1: "R w w1" using R_now [of w] by simp
  note eqs = \<open>ni_Schedule n = _\<close> ns now
  consider "gm_get (d_Profiles d) (P_Profile p) = None" | "gm_get (d_Profiles d) (P_Profile p) = Some None"
    | cur where "gm_get (d_Profiles d) (P_Profile p) = Some (Some cur)"
    by (metis option.exhaust)
  then show ?thesis
  proof cases
    case (3 cur)
    let ?sp = "\<lparr>sn_Current = \<lparr>nd_State = pd_Current cur, nd_Time = UTC now\<rparr>,
      sn_Last = \<lparr>nd_State = pd_Previous cur,
        nd_Time = (case gm_get ns (ni_Name n) of None \<Rightarrow> zero_time | Some t \<Rightarrow> t)\<rparr>,
      sn_StateChange = pd_Transition cur\<rparr>"
    obtain b w2 where sn: "ShouldNotify sched ?sp w1 = (b, w2)" by (cases "ShouldNotify sched ?sp w1")
    then have w2: "R w w2" using w1 ShouldNotify_R [of w1 sched ?sp] by (auto intro: R_trans)
    obtain m where m: "gm_put (ni_Name n) (UTC now) ns = Some m" using put by blast
    obtain err w3 where "Notify (ni_Plugin n) p w2 = Some (err, w3)" "R w2 w3"
      using assms(2) unfolding returns_def by blast
    moreover have "R w w3" using w2 \<open>R w2 w3\<close> by (rule R_trans)
    ultimately show ?thesis using eqs 3 sn w2 m
      by (cases b; cases err) (simp_all add: notify_instance_def Let_def)
  qed (use eqs w1 in \<open>simp_all add: notify_instance_def Let_def\<close>)
qed

lemma notifyDefault_returns:
  "d_Notifications d \<noteq> None \<Longrightarrow> \<forall>n \<in> set ns. returns R (Notify (ni_Plugin n)) \<Longrightarrow>
   lands R w snd (notifyDefault p d ns w)"
proof (induction ns arbitrary: d w)
  case (Cons n ns)
  have "lands R w snd (notify_instance p d n w)"
    using Cons.prems by (intro notify_instance_returns) auto
  then show ?case unfolding notifyDefault.simps
  proof (rule lands_bind, goal_cases)
    case (1 x)
    moreover obtain err d1 w1 where x: "x = ((err, d1), w1)" by (cases x) auto
    ultimately have "d_Notifications d1 \<noteq> None" using notify_instance_frame(3) Cons.prems(1) by blast
    from Cons.IH [OF this] Cons.prems(2) x show ?case by (auto split: option.splits)
  qed
qed simp

text \<open>\<open>Apply\<close>.\<close>

lemma handleTransitionError_R: "R w (snd (snd (handleTransitionError p r d e s w)))"
  by (auto simp: handleTransitionError_def Let_def intro: R_trans [OF R_failure R_event])

lemma Enter_returns:
  assumes "triggers_return R (pc_Enter (NodeState_chains st))"
  shows "lands R w snd (NodeState_Enter st p w)"
proof (cases st)
  case (inMaintenance c l)
  have "R w (snd (RecordShuffles k nn pr w))" for k nn pr w
    using RecordShuffles_frame [of k nn pr w] R_metrics by (cases "RecordShuffles k nn pr w") auto
  then show ?thesis using assms inMaintenance TriggerChain_returns
    by (auto simp: case_prod_beta intro!: lands_bind [where g = snd] split: option.splits)
qed (use assms TriggerChain_returns in auto)

lemma Trigger_returns:
  assumes "\<forall>t \<in> set (pc_Transitions (NodeState_chains st)). triggers_return R (tr_Trigger t)"
  shows "lands R w snd (NodeState_Trigger st next p w)"
proof -
  have "t \<in> set ts" if "find_trigger ts next = Some t" for t :: "'s transition" and ts
    using that by (induction ts) (auto split: if_splits)
  then show ?thesis using assms TriggerChain_returns
    by (auto simp: NodeState_Trigger_def split: option.splits)
qed

lemma Apply_trigger_returns:
  assumes "\<forall>t \<in> set (pc_Transitions (NodeState_chains st)). triggers_return R (tr_Trigger t)"
  shows "lands R w (snd \<circ> snd) (Apply_trigger st d p r next w)"
  using Trigger_returns [OF assms]
  by (auto simp: Apply_trigger_def handleTransitionError_R intro!: lands_bind [where g = snd] split: option.splits)

lemma Apply_returns:
  assumes "chains_return R (NodeState_chains st)" and "d_Notifications d \<noteq> None"
    and "gm_get (d_Profiles d) (P_Profile p) = Some (Some pd)"
  shows "lands R w (snd \<circ> snd) (Apply st d p w)"
proof -
  have enter: "lands R w snd (NodeState_Enter st p w)" for w
    using assms(1) by (intro Enter_returns) (simp add: chains_return_def)
  have notify: "lands R w snd (NodeState_Notify st p d w)" for w
    unfolding NodeState_Notify_def using assms
    by (intro notifyDefault_returns) (simp_all add: chains_return_def)
  have trans: "lands R w snd (NodeState_Transition st p w)" for w
    unfolding NodeState_Transition_def using assms(1)
    by (intro transitionDefault_returns) (simp add: chains_return_def)
  have trig: "lands R w (snd \<circ> snd) (Apply_trigger st d p r next w)" for w d r "next"
    using assms(1) by (intro Apply_trigger_returns) (simp add: chains_return_def)
  have evaluate: "lands R w (snd \<circ> snd) (Apply_evaluate st d p r w)" for w r
    unfolding Apply_evaluate_def
    by (rule lands_bind [OF notify])
      (auto simp: handleTransitionError_R Let_def intro!: lands_bind [OF trans] trig split: option.splits)
  show ?thesis
    using assms(3) evaluate enter
    by (auto simp: Apply_def Let_def handleTransitionError_R intro!: lands_bind [where g = snd] split: option.splits)
qed

text \<open>The handlers.\<close>

lemma apply_loop_returns:
  assumes "\<forall>ps \<in> set pss. chains_return R (chains_of ps)
      \<and> (\<exists>pd. gm_get (d_Profiles d) (pf_Name (ps_Profile ps)) = Some (Some pd))"
    and "d_Notifications d \<noteq> None"
  shows "lands R w (snd \<circ> snd) (apply_loop rp all pss acc d w)"
  using assms
proof (induction pss arbitrary: acc d w)
  case (Cons ps pss)
  let ?t = "TouchShuffles (rp_client rp) (n_Name (w_node w)) (pf_Name (ps_Profile ps)) w"
  obtain t w1 where t: "?t = (t, w1)" by (cases ?t)
  then have w1: "R w w1" using TouchShuffles_frame R_metrics by blast
  show ?case
  proof (cases "FromLabel (ps_State ps) (chains_of ps)")
    case (Inl e)
    with Cons t show ?thesis by (auto intro: lands_weaken [OF w1])
  next
    case (Inr st)
    from Cons.prems(1) obtain pd where pd: "gm_get (d_Profiles d) (pf_Name (ps_Profile ps)) = Some (Some pd)"
      by auto
    let ?p = "plugin_params rp all ps pd w1"
    have ap: "lands R w1 (snd \<circ> snd) (Apply st d ?p w1)"
      using Cons.prems FromLabel_Inr [OF Inr] pd
      by (intro Apply_returns) (auto simp: plugin_params_def)
    then obtain r err d1 w2 where a: "Apply st d ?p w1 = Some ((r, err), d1, w2)" "R w1 w2"
      by (auto simp: lands_def)
    have d1: "d_Profiles d1 = d_Profiles d" "d_Notifications d1 \<noteq> None"
      using Apply_profiles [OF a(1)] Apply_initialised [OF a(1) Cons.prems(2)] by auto
    have "lands R w2 (snd \<circ> snd) (apply_loop rp all pss acc d1 w2)" for acc
      by (rule Cons.IH) (use Cons.prems(1) d1 in auto)
    then have rest: "lands R w (snd \<circ> snd) (apply_loop rp all pss acc d1 w2)" for acc
      by (rule lands_weaken [OF R_trans [OF w1 a(2)]])
    show ?thesis
      using Inr pd a t rest rest [unfolded comp_def] by (cases err) (auto simp: Let_def)
  qed
qed simp

lemma record_result_returns:
  assumes "has_entry d (pf_Name (ps_Profile ps))"
  shows "lands R w snd (record_result ps r d w)"
proof -
  from assms obtain pd where pd: "gm_get (d_Profiles d) (pf_Name (ps_Profile ps)) = Some (Some pd)"
    by (auto simp: has_entry_def)
  then have "d_Profiles d \<noteq> None" by (cases "d_Profiles d") auto
  from gm_put_total [OF this] have put: "\<exists>m. gm_put k v (d_Profiles d) = Some m" for k v by blast
  let ?moved = "pd\<lparr>pd_Transition := UTC (fst (time_Now w)), pd_Current := ar_Next (pr_Applied r)\<rparr>"
  obtain m1 where m1: "gm_put (pf_Name (ps_Profile ps)) (Some (?moved\<lparr>pd_Previous := pr_State r\<rparr>)) (d_Profiles d) = Some m1"
    using put by blast
  obtain m2 where m2: "gm_put (pf_Name (ps_Profile ps)) (Some (pd\<lparr>pd_Previous := pr_State r\<rparr>)) (d_Profiles d) = Some m2"
    using put by blast
  show ?thesis using pd m1 m2 by (simp add: record_result_def Let_def case_prod_beta)
qed

lemma record_loop_returns:
  "length pss = length rs \<Longrightarrow> \<forall>ps \<in> set pss. has_entry d (pf_Name (ps_Profile ps)) \<Longrightarrow>
   lands R w snd (record_loop retry pss rs d w)"
proof (induction pss rs arbitrary: d w rule: list_induct2)
  case (Cons ps pss r rs)
  show ?case
  proof (cases "pf_Name (ps_Profile ps) \<in> set retry")
    case True
    with Cons show ?thesis by simp
  next
    case False
    have "lands R w snd (record_result ps r d w \<bind> (\<lambda>(d, w). record_loop retry pss rs d w))"
    proof (rule lands_bind [OF record_result_returns], goal_cases)
      case (2 x)
      then show ?case using Cons.prems
        by (cases x) (auto intro!: Cons.IH dest: record_result_entries)
    qed (use Cons.prems in simp)
    with False show ?thesis by simp
  qed
qed simp

lemma chains_of_return:
  assumes "config_returns R cfg" and "gm_get (Profiles cfg) (pf_Name (ps_Profile ps)) = Some (ps_Profile ps)"
  shows "chains_return R (chains_of ps)"
proof (cases "map_of (pf_Chains (ps_Profile ps)) (ps_State ps)")
  case None
  then show ?thesis by (simp add: chains_of_def empty_chains_def chains_return_def triggers_return_def)
next
  case (Some c)
  then have "c \<in> snd ` set (pf_Chains (ps_Profile ps))" by (force dest: map_of_SomeD)
  with Some assms show ?thesis by (auto simp: chains_of_def config_returns_def gm_all_def)
qed

lemma ApplyProfiles_returns:
  assumes cfg: "config_returns R (rp_config rp)" "named_by_key (Profiles (rp_config rp))"
    and pss: "GetProfilesWithState (hs_data h) (profiles_label (hs_world h)) (Profiles (rp_config rp)) = Some pss"
    and init: "d_Notifications (hs_data h) \<noteq> None" "hs_cache h \<noteq> None"
  shows "\<exists>err h'. ApplyProfiles rp h = Some (err, h') \<and> R (hs_world h) (hs_world h')
    \<and> (\<forall>n. has_entry (hs_data h) n \<longrightarrow> has_entry (hs_data h') n)"
proof -
  let ?acc0 = "\<lparr>aa_results = [], aa_errs = [], aa_retry = []\<rparr>"
  note entry = profile_state_of [OF pss cfg(2)]
  have "lands R (hs_world h) (snd \<circ> snd) (apply_loop rp pss pss ?acc0 (hs_data h) (hs_world h))"
    using entry chains_of_return [OF cfg(1)] init(1) by (intro apply_loop_returns) blast+
  then obtain acc d1 w1 where loop: "apply_loop rp pss pss ?acc0 (hs_data h) (hs_world h) = Some (acc, d1, w1)"
    "R (hs_world h) w1" by (auto simp: lands_def)
  have d1: "d_Profiles d1 = d_Profiles (hs_data h)" by (rule apply_loop_profiles [OF loop(1)])
  let ?info = "\<lparr>ninf_Node = n_Name (w_node w1), ninf_Profiles = aa_results acc,
    ninf_Labels = filterNodeLabels (n_Labels (w_node w1)) (DashboardLabelFilter (rp_config rp)),
    ninf_Updated = zero_time\<rparr>"
  obtain nodes where "gm_put (n_Name (w_node w1)) (?info\<lparr>ninf_Updated := fst (time_Now w1)\<rparr>) (hs_cache h) = Some nodes"
    using gm_put_total [OF init(2)] by blast
  then have up: "cache_Update ?info (hs_cache h) w1 = Some (nodes, snd (time_Now w1))"
    by (simp add: cache_Update_def case_prod_beta)
  have w2: "R (hs_world h) (snd (time_Now w1))" using loop(2) R_now by (rule R_trans)
  show ?thesis
  proof (cases "aa_errs acc = []")
    case False
    with pss loop up w2 d1 show ?thesis by (simp add: ApplyProfiles_def errors_Join_def has_entry_def)
  next
    case True
    from apply_loop_outcomes [OF loop(1) True] have len: "length pss = length (aa_results acc)"
      by (auto dest: list_all2_lengthD)
    have "lands R (snd (time_Now w1)) snd (record_loop (aa_retry acc) pss (aa_results acc) d1 (snd (time_Now w1)))"
      using entry(3) d1 by (intro record_loop_returns [OF len]) (fastforce simp: has_entry_def)
    then obtain d2 w3 where rec: "record_loop (aa_retry acc) pss (aa_results acc) d1 (snd (time_Now w1)) = Some (d2, w3)"
      "R (snd (time_Now w1)) w3" by (auto simp: lands_def)
    have "has_entry d2 n" if "has_entry (hs_data h) n" for n
      using record_loop_entries [OF len rec(1)] that d1 by (simp add: has_entry_def)
    with True pss loop up rec R_trans [OF w2 rec(2)] show ?thesis
      by (simp add: ApplyProfiles_def errors_Join_def)
  qed
qed

end

text \<open>Relations under which the set of profiles of the node is stable.\<close>

locale label_relation = world_relation +
  assumes R_label: "R w w' \<Longrightarrow> profiles_label w' = profiles_label w"
begin

lemma HandleNode_returns:
  assumes cfg: "config_returns R (rp_config rp)" "named_by_key (Profiles (rp_config rp))"
    and d: "no_nil_profiles (hs_data h)" "d_Notifications (hs_data h) \<noteq> None" "hs_cache h \<noteq> None"
  shows "\<exists>err h'. HandleNode rp h = Some (err, h')"
proof -
  let ?w0 = "(hs_world h)\<lparr>w_node := (w_node (hs_world h))\<lparr>n_Labels := gm_ensure (n_Labels (w_node (hs_world h)))\<rparr>\<rparr>"
  let ?l = "profiles_label (hs_world h)" and ?ps = "Profiles (rp_config rp)"
  have l0: "profiles_label ?w0 = ?l" by (simp add: profiles_label_def gm_str_def)
  obtain d1 w1 where m: "MaintainProfileStates (hs_data h) ?l ?ps ?w0 = Some (d1, w1)"
    using MaintainProfileStates_total by blast
  from MaintainProfileStates_frame [OF m] have fr: "d_Notifications d1 = d_Notifications (hs_data h)"
    "w_node w1 = w_node ?w0" by simp_all
  have l1: "profiles_label w1 = ?l" using l0 fr(2) by (simp add: profiles_label_def)
  obtain pss where pss: "GetProfilesWithState d1 ?l ?ps = Some pss"
    using GetProfilesWithState_after_maintain [OF m cfg(2) d(1)] by blast
  let ?h1 = "h\<lparr>hs_data := d1, hs_world := w1\<rparr>"
  obtain err h2 where a: "ApplyProfiles rp ?h1 = Some (err, h2)" "R w1 (hs_world h2)"
    "\<forall>n. has_entry d1 n \<longrightarrow> has_entry (hs_data h2) n"
    using ApplyProfiles_returns [OF cfg, of ?h1 pss] pss l1 fr(1) d by auto
  have step: "HandleNode rp h = run_handlers [ApplyProfiles, UpdateMaintenanceStateLabel] rp ?h1"
    using m l0 by (simp add: HandleNode_def handlers_def EnsureLabelMap_def Let_def
        MaintainProfileStates_handler_def)
  have "has_entry (hs_data h2) (pf_Name pf)" if "pf \<in> set (getProfiles (or_default ?l) ?ps)" for pf
  proof -
    from with_states_spec [OF pss [unfolded GetProfilesWithState_def]] that obtain ps
      where "ps \<in> set pss" "ps_Profile ps = pf" by (metis imageE set_map)
    with profile_state_of(3) [OF pss cfg(2)] a(3) show ?thesis by (fastforce simp: has_entry_def)
  qed
  then obtain pss2 where pss2: "GetProfilesWithState (hs_data h2) ?l ?ps = Some pss2"
    using with_states_Some [of "getProfiles (or_default ?l) ?ps" "hs_data h2"]
    by (auto simp: GetProfilesWithState_def has_entry_def)
  obtain ls where "gm_put StateLabelKey (most_critical pss2) (gm_ensure (n_Labels (w_node (hs_world h2)))) = Some ls"
    using gm_put_total [of "gm_ensure (n_Labels (w_node (hs_world h2)))" StateLabelKey "most_critical pss2"]
    by auto
  then have "\<exists>h'. UpdateMaintenanceStateLabel rp h2 = Some (None, h')"
    using pss2 R_label [OF a(2)] l1
    by (simp add: UpdateMaintenanceStateLabel_def Let_def set_state_label_def)
  then show ?thesis using step a(1) by (cases err) auto
qed

end

section \<open>Interpretations\<close>

definition same_label :: "'s world \<Rightarrow> 's world \<Rightarrow> bool" where
  "same_label w w' \<longleftrightarrow> profiles_label w' = profiles_label w"

interpretation keep_label: label_relation same_label
  by unfold_locales
    (auto simp: same_label_def profiles_label_def metrics_frame_def emit_event_def RecordTransitionFailure_def)

definition clock_forward :: "'s world \<Rightarrow> 's world \<Rightarrow> bool" where
  "clock_forward w w' \<longleftrightarrow> w_now w \<le> w_now w'"

interpretation clock: world_relation clock_forward
  by unfold_locales
    (auto simp: clock_forward_def metrics_frame_def emit_event_def RecordTransitionFailure_def time_Now_mono)

definition same_node :: "'s world \<Rightarrow> 's world \<Rightarrow> bool" where
  "same_node w w' \<longleftrightarrow> w_node w' = w_node w"

interpretation keep_node: label_relation same_node
  by unfold_locales
    (auto simp: same_node_def profiles_label_def metrics_frame_def emit_event_def RecordTransitionFailure_def)

end
