(* ===== verification/NodePlugins.thy ===== *)
theory NodePlugins
  imports Safety
begin

text \<open>
  The plugins of \<open>plugin/impl\<close> that read or write the node object itself or count nodes:
  \<open>label.go\<close>, \<open>annotation.go\<close>, \<open>finalizer.go\<close>, \<open>condition.go\<close> and
  \<open>nodecount.go\<close>. Unpacking of a configuration and the finalizer helpers of
  controller-runtime are parameters. The lemmas give the exact condition under which each
  check passes and what each trigger leaves behind, and show which plugins satisfy the
  contract of check chains and of \<^const>\<open>returns\<close>.
\<close>

section \<open>Construction\<close>

text \<open>\<open>config.Unpack\<close> into the fields of a plugin; a nil configuration may panic.\<close>

type_synonym ('c, 'f) unpacker = "'c option \<Rightarrow> (error + 'f) option"

definition construct :: "('c, 'f) unpacker \<Rightarrow> ('f \<Rightarrow> error + 'p) \<Rightarrow> 'c option \<Rightarrow> (error + 'p) option" where
  "construct unpack build config =
     do { conf \<leftarrow> unpack config;
          case conf of Inl e \<Rightarrow> Some (Inl e) | Inr f \<Rightarrow> Some (build f) }"

definition no_hook :: "('s, error option) plugin_method" where
  "no_hook p w = Some (None, w)"

definition check_bool :: "bool \<Rightarrow> (string, any) gomap \<Rightarrow> check_result" where
  "check_bool b info = \<lparr>cr_ID = [], cr_Passed = b, cr_Info = info\<rparr>"

lemma check_bool_passed [simp]: "cr_Passed (check_bool b info) = b"
  by (simp add: check_bool_def)

section \<open>Labels (label.go)\<close>

record key_value =
  kv_Key :: string
  kv_Value :: string

record alteration =
  al_Key :: string
  al_Value :: string
  al_Remove :: bool

definition HasLabel_Check :: "key_value \<Rightarrow> ('s, check_result \<times> error option) plugin_method" where
  "HasLabel_Check h p w =
     (case gm_get (n_Labels (w_node w)) (kv_Key h) of
        None \<Rightarrow> Some ((FailedWithReason (''label '' @ kv_Key h @ '' not present''), None), w)
      | Some val \<Rightarrow>
          if kv_Value h = [] then Some ((Passed None, None), w)
          else Some ((check_bool (val = kv_Value h) None, None), w))"

definition HasLabel :: "key_value \<Rightarrow> 's checker" where
  "HasLabel h = \<lparr>Check = HasLabel_Check h, c_ID = ''hasLabel'', OnTransition = no_hook\<rparr>"

definition HasLabel_New :: "('c, key_value) unpacker \<Rightarrow> ('c, 's checker) constructor" where
  "HasLabel_New unpack config addr = construct unpack (\<lambda>conf. Inr (HasLabel conf)) config"

fun any_label :: "key_value \<Rightarrow> node list \<Rightarrow> bool" where
  "any_label a [] = False"
| "any_label a (node # nodes) =
     (case gm_get (n_Labels node) (kv_Key a) of
        None \<Rightarrow> any_label a nodes
      | Some val \<Rightarrow> if kv_Value a = [] \<or> kv_Value a = val then True else any_label a nodes)"

definition AnyLabel_Check :: "key_value \<Rightarrow> ('s, check_result \<times> error option) plugin_method" where
  "AnyLabel_Check a p w =
     (case api (c_ListNodes (P_Client p) AllNodes) w of
        (Inl e, w) \<Rightarrow> Some ((Failed None, Some e), w)
      | (Inr nodes, w) \<Rightarrow>
          if any_label a nodes then Some ((Passed None, None), w) else Some ((Failed None, None), w))"

definition AnyLabel :: "key_value \<Rightarrow> 's checker" where
  "AnyLabel a = \<lparr>Check = AnyLabel_Check a, c_ID = ''anyLabel'', OnTransition = no_hook\<rparr>"

definition AnyLabel_New :: "('c, key_value) unpacker \<Rightarrow> ('c, 's checker) constructor" where
  "AnyLabel_New unpack config addr = construct unpack (\<lambda>conf. Inr (AnyLabel conf)) config"

definition set_labels :: "(string, string) gomap \<Rightarrow> 's world \<Rightarrow> 's world" where
  "set_labels labels w = w\<lparr>w_node := (w_node w)\<lparr>n_Labels := labels\<rparr>\<rparr>"

definition AlterLabel_Trigger :: "alteration \<Rightarrow> ('s, error option) plugin_method" where
  "AlterLabel_Trigger a p w =
     (if \<not> al_Remove a then do {
        labels \<leftarrow> gm_put (al_Key a) (al_Value a) (n_Labels (w_node w));
        Some (None, set_labels labels w) }
      else if gm_get (n_Labels (w_node w)) (al_Key a) \<noteq> None
        then Some (None, set_labels (gm_del (al_Key a) (n_Labels (w_node w))) w)
      else Some (None, w))"

definition AlterLabel :: "alteration \<Rightarrow> 's trigger" where
  "AlterLabel a = \<lparr>Trigger = AlterLabel_Trigger a, t_ID = ''alterLabel''\<rparr>"

definition AlterLabel_New :: "('c, alteration) unpacker \<Rightarrow> ('c, 's trigger) constructor" where
  "AlterLabel_New unpack config addr = construct unpack (\<lambda>conf. Inr (AlterLabel conf)) config"

section \<open>Annotations (annotation.go)\<close>

definition HasAnnotation_Check :: "key_value \<Rightarrow> ('s, check_result \<times> error option) plugin_method" where
  "HasAnnotation_Check h p w =
     (case gm_get (n_Annotations (w_node w)) (kv_Key h) of
        None \<Rightarrow> Some ((FailedWithReason (''annotation '' @ kv_Key h @ '' not present''), None), w)
      | Some val \<Rightarrow>
          if kv_Value h = [] then Some ((Passed None, None), w)
          else Some ((check_bool (val = kv_Value h) None, None), w))"

definition HasAnnotation :: "key_value \<Rightarrow> 's checker" where
  "HasAnnotation h = \<lparr>Check = HasAnnotation_Check h, c_ID = ''hasAnnotation'', OnTransition = no_hook\<rparr>"

definition HasAnnotation_New :: "('c, key_value) unpacker \<Rightarrow> ('c, 's checker) constructor" where
  "HasAnnotation_New unpack config addr = construct unpack (\<lambda>conf. Inr (HasAnnotation conf)) config"

definition set_annotations :: "(string, string) gomap \<Rightarrow> 's world \<Rightarrow> 's world" where
  "set_annotations annotations w = w\<lparr>w_node := (w_node w)\<lparr>n_Annotations := annotations\<rparr>\<rparr>"

definition AlterAnnotation_Trigger :: "alteration \<Rightarrow> ('s, error option) plugin_method" where
  "AlterAnnotation_Trigger a p w =
     (if \<not> al_Remove a then do {
        annotations \<leftarrow> gm_put (al_Key a) (al_Value a) (n_Annotations (w_node w));
        Some (None, set_annotations annotations w) }
      else if gm_get (n_Annotations (w_node w)) (al_Key a) \<noteq> None
        then Some (None, set_annotations (gm_del (al_Key a) (n_Annotations (w_node w))) w)
      else Some (None, w))"

definition AlterAnnotation :: "alteration \<Rightarrow> 's trigger" where
  "AlterAnnotation a = \<lparr>Trigger = AlterAnnotation_Trigger a, t_ID = ''alterAnnotation''\<rparr>"

definition AlterAnnotation_New :: "('c, alteration) unpacker \<Rightarrow> ('c, 's trigger) constructor" where
  "AlterAnnotation_New unpack config addr = construct unpack (\<lambda>conf. Inr (AlterAnnotation conf)) config"

section \<open>Finalizers (finalizer.go)\<close>

record controllerutil =
  cu_AddFinalizer :: "string list \<Rightarrow> string \<Rightarrow> string list"
  cu_RemoveFinalizer :: "string list \<Rightarrow> string \<Rightarrow> string list"

record alter_finalizer =
  af_Key :: string
  af_Remove :: bool

definition AlterFinalizer_Trigger :: "controllerutil \<Rightarrow> alter_finalizer \<Rightarrow> ('s, error option) plugin_method" where
  "AlterFinalizer_Trigger cu a p w =
     (let node = w_node w
      in if \<not> af_Remove a
         then Some (None, w\<lparr>w_node := node\<lparr>n_Finalizers := cu_AddFinalizer cu (n_Finalizers node) (af_Key a)\<rparr>\<rparr>)
         else Some (None, w\<lparr>w_node := node\<lparr>n_Finalizers := cu_RemoveFinalizer cu (n_Finalizers node) (af_Key a)\<rparr>\<rparr>))"

definition AlterFinalizer :: "controllerutil \<Rightarrow> alter_finalizer \<Rightarrow> 's trigger" where
  "AlterFinalizer cu a = \<lparr>Trigger = AlterFinalizer_Trigger cu a, t_ID = ''alterFinalizer''\<rparr>"

definition AlterFinalizer_New ::
    "controllerutil \<Rightarrow> ('c, alter_finalizer) unpacker \<Rightarrow> ('c, 's trigger) constructor" where
  "AlterFinalizer_New cu unpack config addr = construct unpack (\<lambda>conf. Inr (AlterFinalizer cu conf)) config"

section \<open>Conditions (condition.go)\<close>

record condition =
  co_Type :: string
  co_Status :: string

fun find_condition :: "string \<Rightarrow> (string \<times> string) list \<Rightarrow> string option" where
  "find_condition t [] = None"
| "find_condition t ((t', s) # cs) = (if t' = t then Some s else find_condition t cs)"

definition Condition_Check :: "condition \<Rightarrow> ('s, check_result \<times> error option) plugin_method" where
  "Condition_Check c p w =
     (case find_condition (co_Type c) (n_Conditions (w_node w)) of
        Some status \<Rightarrow>
          Some ((check_bool (status = co_Status c)
            (Some [(''current'', StrV status), (''expected'', StrV (co_Status c))]), None), w)
      | None \<Rightarrow> Some ((FailedWithReason (''condition '' @ co_Type c @ '' not present''), None), w))"

definition Condition :: "condition \<Rightarrow> 's checker" where
  "Condition c = \<lparr>Check = Condition_Check c, c_ID = ''condition'', OnTransition = no_hook\<rparr>"

definition Condition_New :: "('c, condition) unpacker \<Rightarrow> ('c, 's checker) constructor" where
  "Condition_New unpack config addr = construct unpack (\<lambda>conf. Inr (Condition conf)) config"

section \<open>Node count (nodecount.go)\<close>

definition NodeCount_Check :: "int \<Rightarrow> ('s, check_result \<times> error option) plugin_method" where
  "NodeCount_Check count p w =
     (case api (c_ListNodes (P_Client p) AllNodes) w of
        (Inl e, w) \<Rightarrow> Some ((Failed None, Some e), w)
      | (Inr nodes, w) \<Rightarrow>
          let current = int (length nodes)
          in Some ((check_bool (current \<ge> count)
               (Some [(''current'', IntV current), (''expected'', IntV count)]), None), w))"

definition NodeCount :: "int \<Rightarrow> 's checker" where
  "NodeCount count = \<lparr>Check = NodeCount_Check count, c_ID = ''nodeCount'', OnTransition = no_hook\<rparr>"

definition NodeCount_New :: "('c, int) unpacker \<Rightarrow> ('c, 's checker) constructor" where
  "NodeCount_New unpack config addr = construct unpack (\<lambda>conf. Inr (NodeCount conf)) config"

section \<open>When the checks pass\<close>

lemma HasLabel_passes:
  "HasLabel_Check h p w = Some ((r, err), w') \<Longrightarrow>
   cr_Passed r \<longleftrightarrow> (\<exists>v. gm_get (n_Labels (w_node w)) (kv_Key h) = Some v \<and> (kv_Value h = [] \<or> v = kv_Value h))"
  by (auto simp: HasLabel_Check_def split: option.splits if_splits)

lemma HasAnnotation_passes:
  "HasAnnotation_Check h p w = Some ((r, err), w') \<Longrightarrow>
   cr_Passed r \<longleftrightarrow> (\<exists>v. gm_get (n_Annotations (w_node w)) (kv_Key h) = Some v \<and> (kv_Value h = [] \<or> v = kv_Value h))"
  by (auto simp: HasAnnotation_Check_def split: option.splits if_splits)

lemma any_label_iff:
  "any_label a nodes \<longleftrightarrow> (\<exists>n \<in> set nodes. \<exists>v. gm_get (n_Labels n) (kv_Key a) = Some v
     \<and> (kv_Value a = [] \<or> v = kv_Value a))"
  by (induction nodes) (auto split: option.splits)

lemma find_condition_first: "find_condition t cs = map_of cs t"
  by (induction cs) auto

section \<open>What the triggers leave behind\<close>

lemma AlterLabel_result:
  assumes "AlterLabel_Trigger a p w = Some (err, w')"
  shows "err = None \<and> gm_get (n_Labels (w_node w')) =
    (gm_get (n_Labels (w_node w)))(al_Key a := if al_Remove a then None else Some (al_Value a))"
  using assms
  by (auto simp: AlterLabel_Trigger_def set_labels_def bind_eq_Some_conv fun_eq_iff dest!: gm_get_put split: if_splits)

lemma AlterLabel_panics:
  "AlterLabel_Trigger a p w = None \<longleftrightarrow> \<not> al_Remove a \<and> n_Labels (w_node w) = None"
  by (auto simp: AlterLabel_Trigger_def gm_put_def split: option.splits)

lemma AlterAnnotation_result:
  assumes "AlterAnnotation_Trigger a p w = Some (err, w')"
  shows "err = None \<and> gm_get (n_Annotations (w_node w')) =
    (gm_get (n_Annotations (w_node w)))(al_Key a := if al_Remove a then None else Some (al_Value a))"
  using assms
  by (auto simp: AlterAnnotation_Trigger_def set_annotations_def bind_eq_Some_conv fun_eq_iff
      dest!: gm_get_put split: if_splits)

lemma AlterAnnotation_panics:
  "AlterAnnotation_Trigger a p w = None \<longleftrightarrow> \<not> al_Remove a \<and> n_Annotations (w_node w) = None"
  by (auto simp: AlterAnnotation_Trigger_def gm_put_def split: option.splits)

section \<open>Contracts\<close>

lemma returns_no_hook: "(\<And>w. R w w) \<Longrightarrow> returns R no_hook"
  by (simp add: returns_def no_hook_def)

text \<open>Checks that look at the node return and change nothing at all.\<close>

lemma node_checks_return:
  assumes "\<And>w. R w w"
  shows "returns R (HasLabel_Check h)" "returns R (HasAnnotation_Check h)" "returns R (Condition_Check c)"
  using assms
  by (auto simp: returns_def HasLabel_Check_def HasAnnotation_Check_def Condition_Check_def split: option.splits)

context world_relation
begin

lemma api_R: "api f w = (r, w') \<Longrightarrow> R w w'"
  by (drule metrics_frame_api) (simp add: R_metrics)

lemma list_checks_return: "returns R (AnyLabel_Check a)" "returns R (NodeCount_Check n)"
  by (auto simp: returns_def AnyLabel_Check_def NodeCount_Check_def Let_def api_R
      split: prod.splits sum.splits)

end

text \<open>The contract of check chains, for every checker of this theory.\<close>

lemma checker_keeps_nodeI:
  "returns same_node (Check c) \<Longrightarrow> returns same_node (OnTransition c) \<Longrightarrow> checker_keeps_node c"
  by unfold_locales (auto simp: same_node_def dest: returnsD)

lemma same_node_refl: "same_node w w"
  by (simp add: same_node_def)

interpretation hasLabel: checker_keeps_node "HasLabel h" for h
  by (rule checker_keeps_nodeI)
    (simp_all add: HasLabel_def node_checks_return returns_no_hook same_node_refl)

interpretation hasAnnotation: checker_keeps_node "HasAnnotation h" for h
  by (rule checker_keeps_nodeI)
    (simp_all add: HasAnnotation_def node_checks_return returns_no_hook same_node_refl)

interpretation anyLabel: checker_keeps_node "AnyLabel h" for h
  by (rule checker_keeps_nodeI)
    (simp_all add: AnyLabel_def keep_node.list_checks_return returns_no_hook same_node_refl)

interpretation condition: checker_keeps_node "Condition h" for h
  by (rule checker_keeps_nodeI)
    (simp_all add: Condition_def node_checks_return returns_no_hook same_node_refl)

interpretation nodeCount: checker_keeps_node "NodeCount n" for n
  by (rule checker_keeps_nodeI)
    (simp_all add: NodeCount_def keep_node.list_checks_return returns_no_hook same_node_refl)

end
