(* ===== verification/TimePlugins.thy ===== *)
theory TimePlugins
  imports NodePlugins
begin

text \<open>
  The check plugins that depend on the clock alone: \<open>timewindow.go\<close> and \<open>wait.go\<close>.
  Parsing of durations (\<open>time.ParseDuration\<close>) is part of unpacking and a parameter; the
  layouts \<open>15:04\<close> and \<open>Jan 2\<close> are parsed here. The loop of \<open>WaitExclude\<close> over the
  days since the last transition is shown to end and to compute the elapsed time without the
  excluded days, as long as the current day is not an excluded one.
\<close>

section \<open>Dates without a year\<close>

definition short_months :: "string list" where
  "short_months = [''jan'', ''feb'', ''mar'', ''apr'', ''may'', ''jun'', ''jul'', ''aug'', ''sep'', ''oct'', ''nov'', ''dec'']"

fun lookup_month :: "string list \<Rightarrow> int \<Rightarrow> string \<Rightarrow> (int \<times> string) option" where
  "lookup_month [] i s = None"
| "lookup_month (m # ms) i s =
     (if length s \<ge> length m \<and> strings_ToLower (take (length m) s) = m then Some (i, drop (length m) s)
      else lookup_month ms (i + 1) s)"

text \<open>\<open>time.Parse("Jan 2", s)\<close>: month name, one or more blanks, a day of one or two digits.\<close>

definition time_Parse_MonthDay :: "string \<Rightarrow> error + gotime" where
  "time_Parse_MonthDay s =
     (case lookup_month short_months 1 s of
        None \<Rightarrow> Inl (parse_error s)
      | Some (m, rest) \<Rightarrow>
          if rest \<noteq> [] \<and> hd rest \<noteq> CHR '' '' then Inl (parse_error s)
          else (case getnum False (dropWhile (\<lambda>c. c = CHR '' '') rest) of
             Some (d, []) \<Rightarrow>
               if 1 \<le> d \<and> d \<le> month_lengths (is_leap 0) ! nat (m - 1)
               then Inr (time_Date 0 m d 0 0 0 0) else Inl (parse_error s)
           | _ \<Rightarrow> Inl (parse_error s)))"

fun parse_all :: "('a \<Rightarrow> error + 'b) \<Rightarrow> 'a list \<Rightarrow> error + 'b list" where
  "parse_all f [] = Inr []"
| "parse_all f (x # xs) =
     (case f x of
        Inl e \<Rightarrow> Inl e
      | Inr y \<Rightarrow> (case parse_all f xs of Inl e \<Rightarrow> Inl e | Inr ys \<Rightarrow> Inr (y # ys)))"

section \<open>Time windows (timewindow.go)\<close>

record time_window =
  tw_Start :: gotime
  tw_End :: gotime
  tw_Weekdays :: "weekday list"
  tw_Exclude :: "gotime list"

record time_window_conf =
  twc_Start :: string
  twc_End :: string
  twc_Weekdays :: "string list"
  twc_Exclude :: "string list"

text \<open>\<open>fmt\<close> renders the two times of the message about an inverted window.\<close>

definition build_time_window :: "(gotime \<Rightarrow> string) \<Rightarrow> time_window_conf \<Rightarrow> error + time_window" where
  "build_time_window fmt conf =
     (if twc_Weekdays conf = [] then Inl (ErrorString ''a timewindow needs to have weekdays specified'')
      else case time_Parse_HHMM (twc_Start conf) of
        Inl e \<Rightarrow> Inl e
      | Inr start \<Rightarrow>
     (case time_Parse_HHMM (twc_End conf) of
        Inl e \<Rightarrow> Inl e
      | Inr endt \<Rightarrow>
          if After start endt
          then Inl (ErrorString (''the end time '' @ [CHR 39] @ fmt endt @ [CHR 39]
                 @ '' should be after the start time '' @ [CHR 39] @ fmt start @ [CHR 39]))
          else case parse_all WeekdayFromString (twc_Weekdays conf) of
            Inl e \<Rightarrow> Inl e
          | Inr weekdays \<Rightarrow>
              (case parse_all time_Parse_MonthDay (twc_Exclude conf) of
                 Inl e \<Rightarrow> Inl e
               | Inr excludes \<Rightarrow>
                   Inr \<lparr>tw_Start = start, tw_End = endt, tw_Weekdays = weekdays, tw_Exclude = excludes\<rparr>)))"

definition TimeWindow_checkInternal :: "time_window \<Rightarrow> gotime \<Rightarrow> check_result" where
  "TimeWindow_checkInternal tw current =
     (if Weekday current \<notin> set (tw_Weekdays tw) then FailedWithReason ''current day of week forbidden''
      else if \<exists>e \<in> set (tw_Exclude tw). DayOfMonth e = DayOfMonth current \<and> Month e = Month current
      then FailedWithReason ''day/month forbidden''
      else let (h, mi, s) = Clock current;
               compare = time_Date (Year (tw_Start tw)) (Month (tw_Start tw)) (DayOfMonth (tw_Start tw))
                           h mi s (Nanosecond current)
           in check_bool (After compare (tw_Start tw) \<and> Before compare (tw_End tw)) None)"

definition TimeWindow_Check :: "time_window \<Rightarrow> ('s, check_result \<times> error option) plugin_method" where
  "TimeWindow_Check tw p w =
     (let (now, w) = time_Now w in Some ((TimeWindow_checkInternal tw (UTC now), None), w))"

definition TimeWindow :: "time_window \<Rightarrow> 's checker" where
  "TimeWindow tw = \<lparr>Check = TimeWindow_Check tw, c_ID = ''timeWindow'', OnTransition = no_hook\<rparr>"

definition TimeWindow_New ::
    "(gotime \<Rightarrow> string) \<Rightarrow> ('c, time_window_conf) unpacker \<Rightarrow> ('c, 's checker) constructor" where
  "TimeWindow_New fmt unpack config addr =
     construct unpack (\<lambda>conf. case build_time_window fmt conf of Inl e \<Rightarrow> Inl e | Inr tw \<Rightarrow> Inr (TimeWindow tw)) config"

section \<open>Waiting (wait.go)\<close>

definition Wait_Check :: "duration \<Rightarrow> ('s, check_result \<times> error option) plugin_method" where
  "Wait_Check dur p w =
     (let (since, w) = time_Since (P_LastTransition p) w
      in if since > dur then Some ((Passed None, None), w)
         else let (since, w) = time_Since (P_LastTransition p) w; remaining = wrap64 (dur - since)
              in Some ((Failed (Some [(''remaining_seconds'', SecondsV remaining)]), None), w))"

definition Wait :: "duration \<Rightarrow> 's checker" where
  "Wait dur = \<lparr>Check = Wait_Check dur, c_ID = ''wait'', OnTransition = no_hook\<rparr>"

definition Wait_New ::
    "(string \<Rightarrow> error + duration) \<Rightarrow> ('c, string) unpacker \<Rightarrow> ('c, 's checker) constructor" where
  "Wait_New ParseDuration unpack config addr =
     construct unpack (\<lambda>conf. case ParseDuration conf of Inl e \<Rightarrow> Inl e | Inr d \<Rightarrow> Inr (Wait d)) config"

record wait_exclude =
  we_Duration :: duration
  we_Exclude :: "weekday list"

definition isSameDay :: "gotime \<Rightarrow> gotime \<Rightarrow> bool" where
  "isSameDay t u \<longleftrightarrow> Date t = Date u"

definition isExcluded :: "wait_exclude \<Rightarrow> weekday \<Rightarrow> bool" where
  "isExcluded we d \<longleftrightarrow> d \<in> set (we_Exclude we)"

definition since_midnight :: "gotime \<Rightarrow> duration" where
  "since_midnight t = (let (h, mi, s) = Clock t in h * Hour + mi * Minute + s * Second)"

text \<open>The loop over the days from the last transition to now.\<close>

function exclude_loop :: "wait_exclude \<Rightarrow> gotime \<Rightarrow> gotime \<Rightarrow> gotime \<Rightarrow> duration \<Rightarrow> duration" where
  "exclude_loop we prev now timestamp since =
     (if After timestamp now then since
      else if \<not> isExcluded we (Weekday timestamp) then exclude_loop we prev now (Add timestamp Day) since
      else let sub = (if isSameDay timestamp prev then Day - since_midnight prev else Day)
           in exclude_loop we prev now (Add timestamp Day) (wrap64 (since - sub)))"
  by pat_completeness auto

termination exclude_loop
  by (relation "measure (\<lambda>(we, prev, now, timestamp, since). nat (t_ns now + Day - t_ns timestamp))")
    (auto simp: After_def)

declare exclude_loop.simps [simp del]

definition WaitExclude_elapsed :: "wait_exclude \<Rightarrow> gotime \<Rightarrow> gotime \<Rightarrow> duration" where
  "WaitExclude_elapsed we prev now =
     (let since = exclude_loop we prev now prev (Sub now prev)
      in if \<not> isSameDay prev now \<and> isExcluded we (Weekday now) then wrap64 (since - since_midnight now)
         else since)"

definition WaitExclude_checkInternal :: "wait_exclude \<Rightarrow> gotime \<Rightarrow> gotime \<Rightarrow> check_result" where
  "WaitExclude_checkInternal we prev now =
     (let since = WaitExclude_elapsed we prev now
      in if since > we_Duration we then Passed None
         else Failed (Some [(''remaining_seconds'', SecondsV (wrap64 (we_Duration we - since)))]))"

definition WaitExclude_Check :: "wait_exclude \<Rightarrow> ('s, check_result \<times> error option) plugin_method" where
  "WaitExclude_Check we p w =
     (let (now, w) = time_Now w
      in Some ((WaitExclude_checkInternal we (P_LastTransition p) (UTC now), None), w))"

definition WaitExclude :: "wait_exclude \<Rightarrow> 's checker" where
  "WaitExclude we = \<lparr>Check = WaitExclude_Check we, c_ID = ''waitExclude'', OnTransition = no_hook\<rparr>"

definition WaitExclude_New ::
    "(string \<Rightarrow> error + duration) \<Rightarrow> ('c, string \<times> string list) unpacker \<Rightarrow> ('c, 's checker) constructor" where
  "WaitExclude_New ParseDuration unpack config addr =
     construct unpack (\<lambda>(dur, exclude).
       case ParseDuration dur of
         Inl e \<Rightarrow> Inl e
       | Inr d \<Rightarrow> (case parse_all WeekdayFromString exclude of
                    Inl e \<Rightarrow> Inl e
                  | Inr weekdays \<Rightarrow> Inr (WaitExclude \<lparr>we_Duration = d, we_Exclude = weekdays\<rparr>))) config"

section \<open>Windows\<close>

lemma TimeWindow_passes:
  assumes "t_off (tw_Start tw) = 0" and "t_off (tw_End tw) = 0"
    and "day_number (tw_Start tw) = day_number (tw_End tw)"
  shows "cr_Passed (TimeWindow_checkInternal tw t) \<longleftrightarrow>
    Weekday t \<in> set (tw_Weekdays tw) \<and>
    \<not> (\<exists>e \<in> set (tw_Exclude tw). DayOfMonth e = DayOfMonth t \<and> Month e = Month t) \<and>
    ns_of_day (tw_Start tw) < ns_of_day t \<and> ns_of_day t < ns_of_day (tw_End tw)"
proof -
  obtain h mi s where c: "Clock t = (h, mi, s)" by (cases "Clock t")
  have "t_ns (tw_Start tw) = day_number (tw_Start tw) * Day + ns_of_day (tw_Start tw)"
    "t_ns (tw_End tw) = day_number (tw_End tw) * Day + ns_of_day (tw_End tw)"
    using wall_split [of "tw_Start tw"] wall_split [of "tw_End tw"] assms(1,2) by (simp_all add: wall_def)
  with on_date_of [OF assms(1) c] assms(3) show ?thesis
    by (auto simp: TimeWindow_checkInternal_def Let_def c After_def Before_def)
qed

lemma day_number_time_Date:
  "0 \<le> h \<Longrightarrow> h < 24 \<Longrightarrow> 0 \<le> m \<Longrightarrow> m < 60 \<Longrightarrow>
   day_number (time_Date y mo d h m 0 0) = days_from_civil y mo d"
  by (simp add: day_number_def wall_def time_Date_def)

lemma digit_nonneg: "digit c = Some x \<Longrightarrow> 0 \<le> x"
  by (auto simp: digit_def Let_def split: if_splits)

lemma getnum_nonneg: "getnum f s = Some (n, rest) \<Longrightarrow> 0 \<le> n"
  by (cases "(f, s)" rule: getnum.cases) (auto split: option.splits if_splits dest!: digit_nonneg)

lemma time_Parse_HHMM_Inr:
  assumes "time_Parse_HHMM s = Inr t"
  shows "t_off t = 0 \<and> day_number t = days_from_civil 0 1 1"
proof -
  from assms obtain h m where hm: "t = time_Date 0 1 1 h m 0 0" "h < 24" "m < 60" "0 \<le> h" "0 \<le> m"
    by (auto simp: time_Parse_HHMM_def dest!: getnum_nonneg split: option.splits list.splits char.splits bool.splits if_splits)
  then show ?thesis using day_number_time_Date [of h m 0 1 1] by (simp add: time_Date_def)
qed

text \<open>A window that was built from a configuration lies on one day, so it is an interval of the day.\<close>

lemma build_time_window_ok:
  assumes "build_time_window fmt conf = Inr tw"
  shows "t_off (tw_Start tw) = 0 \<and> t_off (tw_End tw) = 0 \<and>
    day_number (tw_Start tw) = day_number (tw_End tw) \<and> t_ns (tw_Start tw) \<le> t_ns (tw_End tw)"
  using assms
  by (auto simp: build_time_window_def After_def dest!: time_Parse_HHMM_Inr split: if_splits sum.splits)

section \<open>The days subtracted by \<open>WaitExclude\<close>\<close>

lemma wrap64_diff [simp]: "wrap64 (wrap64 a - b) = wrap64 (a - b)"
proof -
  have "(wrap64 a - b + 2 ^ 63) mod 2 ^ 64 = ((a + 2 ^ 63) mod 2 ^ 64 - b) mod 2 ^ 64"
    by (simp add: wrap64_def algebra_simps)
  also have "\<dots> = (a - b + 2 ^ 63) mod 2 ^ 64"
    by (simp add: mod_diff_left_eq algebra_simps)
  finally show ?thesis by (simp add: wrap64_def)
qed

lemma day_number_Add_Day: "day_number (Add t Day) = day_number t + 1"
proof -
  have "wall (Add t Day) = wall t + Day" by (simp add: wall_def)
  then show ?thesis by (simp add: day_number_def)
qed

lemma isSameDay_iff: "isSameDay t u \<longleftrightarrow> day_number t = day_number u"
  by (simp add: isSameDay_def Date_eq_iff)

definition day_sub :: "wait_exclude \<Rightarrow> gotime \<Rightarrow> int \<Rightarrow> duration" where
  "day_sub we prev d =
     (if isExcluded we (weekday_of d) then (if d = day_number prev then Day - since_midnight prev else Day)
      else 0)"

text \<open>What is subtracted: whole excluded days, and the rest of the day of the transition.\<close>

definition excluded_time :: "wait_exclude \<Rightarrow> gotime \<Rightarrow> gotime \<Rightarrow> duration" where
  "excluded_time we prev now = (\<Sum>d \<in> {day_number prev .. day_number now}. day_sub we prev d)"

lemma exclude_loop_sum:
  "wrap64 since = since \<Longrightarrow>
   exclude_loop we prev now ts since = wrap64 (since -
     (\<Sum>d \<in> {day_number ts .. day_number ts + (t_ns now - t_ns ts) div Day}. day_sub we prev d))"
proof (induction we prev now ts since rule: exclude_loop.induct)
  case (1 we prev now ts since)
  let ?d = "day_number ts" and ?q = "(t_ns now - t_ns ts) div Day"
  show ?case
  proof (cases "After ts now")
    case True
    then have "?q < 0" by (simp add: After_def neg_imp_zdiv_neg_iff)
    then have "{?d .. ?d + ?q} = {}" by simp
    with True 1(3) show ?thesis by (simp add: exclude_loop.simps)
  next
    case False
    then have "0 \<le> ?q" by (simp add: After_def pos_imp_zdiv_nonneg_iff)
    then have split: "{?d .. ?d + ?q} = insert ?d {?d + 1 .. ?d + ?q}" by auto
    have q: "(t_ns now - t_ns (Add ts Day)) div Day = ?q - 1"
    proof -
      have "t_ns now - t_ns (Add ts Day) = t_ns now - t_ns ts + (- 1) * Day" by simp
      then show ?thesis by (simp only: div_mult_self1)
    qed
    have sum: "(\<Sum>d \<in> {?d .. ?d + ?q}. day_sub we prev d)
        = day_sub we prev ?d + (\<Sum>d \<in> {?d + 1 .. ?d + ?q}. day_sub we prev d)"
      unfolding split by (rule sum.insert) auto
    have rest: "{day_number (Add ts Day) .. day_number (Add ts Day) + (t_ns now - t_ns (Add ts Day)) div Day}
        = {?d + 1 .. ?d + ?q}"
      unfolding q day_number_Add_Day by simp
    show ?thesis
    proof (cases "isExcluded we (Weekday ts)")
      case no: False
      then have "day_sub we prev ?d = 0" by (simp add: day_sub_def Weekday_def)
      with 1(1) [OF False no 1(3)] show ?thesis
        unfolding sum rest using False no by (subst exclude_loop.simps) simp
    next
      case yes: True
      let ?sub = "if isSameDay ts prev then Day - since_midnight prev else Day"
      have "day_sub we prev ?d = ?sub" using yes by (simp add: day_sub_def Weekday_def isSameDay_iff)
      moreover have "wrap64 (wrap64 (since - ?sub)) = wrap64 (since - ?sub)"
        using wrap64_diff [of "since - ?sub" 0] by simp
      ultimately show ?thesis
        using 1(2) [OF False _ refl] unfolding sum rest using False yes
        by (subst exclude_loop.simps) (simp add: Let_def diff_diff_eq)
    qed
  qed
qed

lemma day_gap:
  fixes a b q r m n :: int
  assumes "(b - a) * Day + (n - m) = Day * q + r" "0 \<le> (b - a) * Day + (n - m)"
    and "0 \<le> n" "n < Day" "0 \<le> m" "m < Day" "0 \<le> r" "r < Day"
  shows "a + q = b \<or> a + q + 1 = b \<and> a \<le> b"
proof -
  have "q < b - a + 1" using assms by (simp add: left_diff_distrib)
  moreover have "b - a - 2 < q" using assms by (simp add: left_diff_distrib)
  moreover have "a \<le> b" using assms by (simp add: left_diff_distrib)
  ultimately show ?thesis by linarith
qed

lemma WaitExclude_elapsed_spec:
  assumes off: "t_off prev = t_off now" and le: "t_ns prev \<le> t_ns now"
    and today: "\<not> isExcluded we (Weekday now)"
  shows "WaitExclude_elapsed we prev now = wrap64 (Sub now prev - excluded_time we prev now)"
proof -
  let ?q = "(t_ns now - t_ns prev) div Day" and ?a = "day_number prev" and ?b = "day_number now"
  have diff: "t_ns now - t_ns prev = (?b - ?a) * Day + (ns_of_day now - ns_of_day prev)"
    using wall_split [of now] wall_split [of prev] off by (simp add: wall_def algebra_simps)
  have b: "0 \<le> ns_of_day now" "ns_of_day now < Day" "0 \<le> ns_of_day prev" "ns_of_day prev < Day"
    using ns_of_day_bounds by auto
  have q: "?a + ?q = ?b \<or> ?a + ?q + 1 = ?b \<and> ?a \<le> ?b"
  proof (rule day_gap)
    show "(?b - ?a) * Day + (ns_of_day now - ns_of_day prev) = Day * ?q + (t_ns now - t_ns prev) mod Day"
      unfolding diff [symmetric] by simp
    show "0 \<le> (?b - ?a) * Day + (ns_of_day now - ns_of_day prev)"
      unfolding diff [symmetric] using le by simp
  qed (use b in simp_all)
  have zero: "day_sub we prev ?b = 0" using today by (simp add: day_sub_def Weekday_def)
  have "(\<Sum>d \<in> {?a .. ?a + ?q}. day_sub we prev d) = excluded_time we prev now"
  proof (cases "?a + ?q = ?b")
    case True
    then show ?thesis by (simp add: excluded_time_def)
  next
    case False
    with q have "{?a .. ?b} = insert ?b {?a .. ?a + ?q}" "?b \<notin> {?a .. ?a + ?q}" by auto
    with zero show ?thesis by (simp add: excluded_time_def)
  qed
  moreover have "wrap64 (Sub now prev) = Sub now prev"
    using Sub_bounds by (intro wrap64_id) auto
  ultimately show ?thesis
    using today exclude_loop_sum [of "Sub now prev" we prev now prev]
    by (simp add: WaitExclude_elapsed_def)
qed

section \<open>Contracts\<close>

context world_relation
begin

lemma now_R: "time_Now w = (t, w') \<Longrightarrow> R w w'"
  using R_now [of w] by simp

lemma clock_checks_return:
  "returns R (TimeWindow_Check tw)" "returns R (Wait_Check d)" "returns R (WaitExclude_Check we)"
proof -
  show "returns R (TimeWindow_Check tw)" "returns R (WaitExclude_Check we)"
    by (auto simp: returns_def TimeWindow_Check_def WaitExclude_Check_def now_R split: prod.splits)
  show "returns R (Wait_Check d)"
    using R_trans [OF R_now R_now]
    by (auto simp: returns_def Wait_Check_def time_Since_unfold Let_def)
qed

end

interpretation timeWindow: checker_keeps_node "TimeWindow tw" for tw
  by (rule checker_keeps_nodeI)
    (simp_all add: TimeWindow_def keep_node.clock_checks_return returns_no_hook same_node_refl)

interpretation wait: checker_keeps_node "Wait d" for d
  by (rule checker_keeps_nodeI)
    (simp_all add: Wait_def keep_node.clock_checks_return returns_no_hook same_node_refl)

interpretation waitExclude: checker_keeps_node "WaitExclude we" for we
  by (rule checker_keeps_nodeI)
    (simp_all add: WaitExclude_def keep_node.clock_checks_return returns_no_hook same_node_refl)

end
