(* ===== verification/ClusterPlugins.thy ===== *)
theory ClusterPlugins
  imports NodePlugins
begin

text \<open>
  The check plugins of \<open>plugin/impl\<close> that compare the node with the rest of the cluster:
  \<open>maxmaintenance.go\<close>, \<open>stagger.go\<close>, \<open>affinity.go\<close> and \<open>semver.go\<close>. The
  decoder of the data annotation and the semantic version library are parameters. A
  dereference of a missing entry or of a nil field is \<^const>\<open>None\<close>.
\<close>

section \<open>Maximum of maintained nodes (maxmaintenance.go)\<close>

record max_maintenance =
  mm_MaxNodes :: int
  mm_Profile :: string
  mm_GroupBy :: "string list"
  mm_SkipAfter :: duration

record max_maintenance_conf =
  mmc_Max :: int
  mmc_Profile :: string
  mmc_GroupLabel :: string
  mmc_GroupBy :: "string list"
  mmc_SkipAfter :: duration

definition filterProfileName :: "max_maintenance \<Rightarrow> node list \<Rightarrow> node list" where
  "filterProfileName m nodes =
     (if mm_Profile m = [] then nodes
      else filter (\<lambda>node. case gm_get (n_Labels node) ProfileLabelKey of
             None \<Rightarrow> False | Some profiles \<Rightarrow> ContainsProfile profiles (mm_Profile m)) nodes)"

definition filterGroupLabel :: "node list \<Rightarrow> string \<Rightarrow> string \<Rightarrow> node list" where
  "filterGroupLabel nodes label value =
     (if label = [] \<or> value = [] then nodes
      else filter (\<lambda>node. gm_get (n_Labels node) label = Some value) nodes)"

text \<open>The most recent transition among the entries; a nil entry panics.\<close>

fun most_recent :: "profile_data option list \<Rightarrow> gotime \<Rightarrow> gotime option" where
  "most_recent [] t = Some t"
| "most_recent (None # ds) t = None"
| "most_recent (Some d # ds) t =
     (if After (pd_Transition d) t then most_recent ds (pd_Transition d) else most_recent ds t)"

definition considered_entries :: "max_maintenance \<Rightarrow> data \<Rightarrow> profile_data option list" where
  "considered_entries m stateData =
     (if mm_Profile m \<noteq> []
      then [case gm_get (d_Profiles stateData) (mm_Profile m) of None \<Rightarrow> None | Some d \<Rightarrow> d]
      else map snd (gm_items (d_Profiles stateData)))"

fun filterRecentTransition ::
    "(string \<Rightarrow> error + data) \<Rightarrow> max_maintenance \<Rightarrow> node list \<Rightarrow> node list \<Rightarrow> 's world
      \<Rightarrow> ((error + node list) \<times> 's world) option" where
  "filterRecentTransition decode m [] matching w = Some (Inr matching, w)"
| "filterRecentTransition decode m (node # nodes) matching w =
     (case ParseData decode (gm_str (n_Annotations node) DataAnnotationKey) of
        Inl e \<Rightarrow> Some (Inl e, w)
      | Inr stateData \<Rightarrow> do {
          mostRecent \<leftarrow> most_recent (considered_entries m stateData) zero_time;
          let (since, w) = time_Since mostRecent w;
          filterRecentTransition decode m nodes
            (if since < mm_SkipAfter m then matching @ [node] else matching) w })"

fun filter_groups :: "node \<Rightarrow> string list \<Rightarrow> node list \<times> string list \<Rightarrow> node list \<times> string list" where
  "filter_groups self [] acc = acc"
| "filter_groups self (groupLabel # ls) (nodes, considered) =
     (case gm_get (n_Labels self) groupLabel of
        None \<Rightarrow> filter_groups self ls (nodes, considered)
      | Some groupValue \<Rightarrow> filter_groups self ls
          (filterGroupLabel nodes groupLabel groupValue, considered @ [groupLabel @ ''='' @ groupValue]))"

definition MaxMaintenance_checkInternal ::
    "(string \<Rightarrow> error + data) \<Rightarrow> max_maintenance \<Rightarrow> node list \<Rightarrow> 's world
      \<Rightarrow> ((check_result \<times> error option) \<times> 's world) option" where
  "MaxMaintenance_checkInternal decode m nodes w =
     (let nodes = (if mm_Profile m \<noteq> [] then filterProfileName m nodes else nodes);
          (nodes, considered) = filter_groups (w_node w) (mm_GroupBy m) (nodes, []);
          scope = (if considered \<noteq> []
                   then ''nodes matching the '' @ strings_Join considered '','' @ '' label selector''
                   else ''all nodes in the cluster'')
      in do {
        (filtered, w) \<leftarrow> (if mm_SkipAfter m \<noteq> 0 then filterRecentTransition decode m nodes [] w
                          else Some (Inr nodes, w));
        case filtered of
          Inl e \<Rightarrow> Some ((Failed None, Some e), w)
        | Inr nodes \<Rightarrow>
            let info = Some [(''scope'', StrV scope), (''maintained'', IntV (int (length nodes))),
                             (''max'', IntV (mm_MaxNodes m))]
            in if int (length nodes) \<ge> mm_MaxNodes m then Some ((Failed info, None), w)
               else Some ((Passed info, None), w) })"

definition MaxMaintenance_Check ::
    "(string \<Rightarrow> error + data) \<Rightarrow> max_maintenance \<Rightarrow> ('s, check_result \<times> error option) plugin_method" where
  "MaxMaintenance_Check decode m p w =
     (case api (c_ListNodes (P_Client p) (MatchingLabels [(StateLabelKey, InMaintenance)])) w of
        (Inl e, w) \<Rightarrow> Some ((Failed None, Some e), w)
      | (Inr nodes, w) \<Rightarrow> MaxMaintenance_checkInternal decode m nodes w)"

definition MaxMaintenance :: "(string \<Rightarrow> error + data) \<Rightarrow> max_maintenance \<Rightarrow> 's checker" where
  "MaxMaintenance decode m =
     \<lparr>Check = MaxMaintenance_Check decode m, c_ID = ''maxMaintenance'', OnTransition = no_hook\<rparr>"

definition build_max_maintenance :: "max_maintenance_conf \<Rightarrow> max_maintenance" where
  "build_max_maintenance conf =
     \<lparr>mm_MaxNodes = mmc_Max conf, mm_Profile = mmc_Profile conf,
      mm_GroupBy = (if mmc_GroupLabel conf \<noteq> [] \<and> mmc_GroupLabel conf \<notin> set (mmc_GroupBy conf)
                    then mmc_GroupBy conf @ [mmc_GroupLabel conf] else mmc_GroupBy conf),
      mm_SkipAfter = mmc_SkipAfter conf\<rparr>"

definition MaxMaintenance_New ::
    "(string \<Rightarrow> error + data) \<Rightarrow> ('c, max_maintenance_conf) unpacker \<Rightarrow> ('c, 's checker) constructor" where
  "MaxMaintenance_New decode unpack config addr =
     construct unpack (\<lambda>conf. Inr (MaxMaintenance decode (build_max_maintenance conf))) config"

section \<open>Staggering (stagger.go)\<close>

definition noGrab :: int where "noGrab = -1"

text \<open>\<open>st_addr\<close> is the address of the object, under which \<open>grabIndex\<close> is kept.\<close>

record stagger =
  st_Duration :: duration
  st_LeaseName :: string
  st_LeaseNamespace :: string
  st_Parallel :: int
  st_addr :: nat

definition set_grab :: "nat \<Rightarrow> int \<Rightarrow> 's world \<Rightarrow> 's world" where
  "set_grab addr i w = w\<lparr>w_grab := (w_grab w)(addr := i)\<rparr>"

definition makeLeaseKey :: "stagger \<Rightarrow> int \<Rightarrow> namespaced_name" where
  "makeLeaseKey s idx = (st_LeaseNamespace s, st_LeaseName s @ ''-'' @ fmt_int idx)"

text \<open>\<open>int32(d.Seconds())\<close>: whole seconds, truncated towards zero.\<close>

definition int32_seconds :: "duration \<Rightarrow> int" where
  "int32_seconds d = wrap32 (if d < 0 then - ((- d) div Second) else d div Second)"

definition getOrCreateLease :: "stagger \<Rightarrow> int \<Rightarrow> 's params \<Rightarrow> 's world \<Rightarrow> (error + lease) \<times> 's world" where
  "getOrCreateLease s idx p w =
     (let key = makeLeaseKey s idx
      in case api (c_GetLease (P_Client p) key) w of
        (Inr lease, w) \<Rightarrow> (Inr lease, w)
      | (Inl e, w) \<Rightarrow>
          if \<not> IsNotFound e then (Inl e, w)
          else let (now, w) = time_Now w;
                   past = Add (UTC now) (wrap64 (-2 * st_Duration s));
                   lease = \<lparr>l_Namespace = fst key, l_Name = snd key,
                     l_HolderIdentity = Some (n_Name (w_node w)), l_AcquireTime = Some past,
                     l_RenewTime = Some past, l_LeaseDurationSeconds = Some (int32_seconds (st_Duration s)),
                     l_LeaseTransitions = None\<rparr>
               in api (c_CreateLease (P_Client p) lease) w)"

text \<open>The loop over the leases from index \<open>i\<close>, for \<open>n\<close> more of them.\<close>

fun stagger_loop ::
    "stagger \<Rightarrow> 's params \<Rightarrow> int \<Rightarrow> nat \<Rightarrow> any list \<Rightarrow> 's world
      \<Rightarrow> ((check_result \<times> error option) \<times> 's world) option" where
  "stagger_loop s p i 0 availableIn w =
     Some ((Failed (Some [(''availableInSec'', ListV availableIn)]), None), w)"
| "stagger_loop s p i (Suc n) availableIn w =
     (case getOrCreateLease s i p w of
        (Inl e, w) \<Rightarrow> Some ((Failed None, Some e), w)
      | (Inr lease, w) \<Rightarrow>
          (case (l_LeaseDurationSeconds lease, l_RenewTime lease) of
             (Some secs, Some renew) \<Rightarrow>
               let leaseDuration = secs * Second; (since, w) = time_Since renew w
               in if since > leaseDuration then Some ((Passed None, None), set_grab (st_addr s) i w)
                  else let (since, w) = time_Since renew w
                       in stagger_loop s p (i + 1) n (availableIn @ [SecondsV (wrap64 (leaseDuration - since))]) w
           | _ \<Rightarrow> None)) \<comment> \<open>nil dereference\<close>"

definition Stagger_Check :: "stagger \<Rightarrow> ('s, check_result \<times> error option) plugin_method" where
  "Stagger_Check s p w = stagger_loop s p 0 (nat (st_Parallel s)) [] (set_grab (st_addr s) noGrab w)"

definition grabLease :: "stagger \<Rightarrow> 's params \<Rightarrow> lease \<Rightarrow> 's world \<Rightarrow> error option \<times> 's world" where
  "grabLease s p lease w =
     (let (now, w) = time_Now w;
          transitions = (case l_LeaseTransitions lease of None \<Rightarrow> 0 | Some n \<Rightarrow> wrap32 (n + 1));
          modified = lease\<lparr>l_HolderIdentity := Some (n_Name (w_node w)), l_AcquireTime := Some (UTC now),
            l_RenewTime := Some (UTC now), l_LeaseDurationSeconds := Some (int32_seconds (st_Duration s)),
            l_LeaseTransitions := Some transitions\<rparr>;
          (r, w) = api (c_PatchLease (P_Client p) modified lease) w
      in (case r of Inl e \<Rightarrow> (Some e, w) | Inr _ \<Rightarrow> (None, w)))"

definition Stagger_OnTransition :: "stagger \<Rightarrow> ('s, error option) plugin_method" where
  "Stagger_OnTransition s p w =
     (if w_grab w (st_addr s) = noGrab then Some (None, w)
      else case api (c_GetLease (P_Client p) (makeLeaseKey s (w_grab w (st_addr s)))) w of
        (Inl e, w) \<Rightarrow> Some (Some e, w)
      | (Inr lease, w) \<Rightarrow> Some (grabLease s p lease w))"

definition Stagger :: "stagger \<Rightarrow> 's checker" where
  "Stagger s = \<lparr>Check = Stagger_Check s, c_ID = ''stagger'', OnTransition = Stagger_OnTransition s\<rparr>"

record stagger_conf =
  sc_Duration :: duration
  sc_LeaseName :: string
  sc_LeaseNamespace :: string
  sc_Parallel :: "int option" \<comment> \<open>defaults to 1\<close>

definition Stagger_New :: "('c, stagger_conf) unpacker \<Rightarrow> ('c, 's checker) constructor" where
  "Stagger_New unpack config addr =
     construct unpack (\<lambda>conf. Inr (Stagger
       \<lparr>st_Duration = sc_Duration conf, st_LeaseName = sc_LeaseName conf,
        st_LeaseNamespace = sc_LeaseNamespace conf,
        st_Parallel = (case sc_Parallel conf of None \<Rightarrow> 1 | Some n \<Rightarrow> n), st_addr = addr\<rparr>)) config"

section \<open>Affinity (affinity.go)\<close>

definition hasOperationalAffinity :: "pod \<Rightarrow> bool" where
  "hasOperationalAffinity pod =
     (case p_Affinity pod of
        Some (Some preferred) \<Rightarrow>
          \<exists>exprs \<in> set preferred. \<exists>expr \<in> set exprs.
            s_Key expr = StateLabelKey \<and> s_Operator expr = ''In'' \<and> s_Values expr = [''operational'']
      | _ \<Rightarrow> False)"

definition hasAffinityPod :: "string \<Rightarrow> 's params \<Rightarrow> 's world \<Rightarrow> (error + bool) \<times> 's world" where
  "hasAffinityPod nodeName p w =
     (case api (c_ListPods (P_Client p) nodeName) w of
        (Inl e, w) \<Rightarrow> (Inl e, w)
      | (Inr pods, w) \<Rightarrow> (Inr (\<exists>pod \<in> set pods. hasOperationalAffinity pod), w))"

type_synonym node_state_map = "(string \<times> profile_data) list"

fun collect_states ::
    "(string \<Rightarrow> error + data) \<Rightarrow> string \<Rightarrow> node list \<Rightarrow> node_state_map \<Rightarrow> node_state_map" where
  "collect_states decode prof [] nodeStates = nodeStates"
| "collect_states decode prof (node # nodes) nodeStates =
     (case ParseData decode (gm_str (n_Annotations node) DataAnnotationKey) of
        Inl _ \<Rightarrow> collect_states decode prof nodes nodeStates
      | Inr nodeData \<Rightarrow>
          (case gm_get (d_Profiles nodeData) prof of
             Some (Some otherState) \<Rightarrow> collect_states decode prof nodes (AList.update (n_Name node) otherState nodeStates)
           | _ \<Rightarrow> collect_states decode prof nodes nodeStates))"

definition buildNodeStates ::
    "(string \<Rightarrow> error + data) \<Rightarrow> 's params \<Rightarrow> 's world \<Rightarrow> (error + node_state_map) \<times> 's world" where
  "buildNodeStates decode p w =
     (case api (c_ListNodes (P_Client p) AllNodes) w of
        (Inl e, w) \<Rightarrow> (Inl e, w)
      | (Inr nodes, w) \<Rightarrow> (Inr (collect_states decode (P_Profile p) nodes []), w))"

definition countOperational :: "'s params \<Rightarrow> node_state_map \<Rightarrow> 's world \<Rightarrow> (error + int) \<times> 's world" where
  "countOperational p nodeStates w =
     (case api (c_ListNodes (P_Client p) AllNodes) w of
        (Inl e, w) \<Rightarrow> (Inl e, w)
      | (Inr nodes, w) \<Rightarrow>
          (Inr (int (length (filter (\<lambda>node. case map_of nodeStates (n_Name node) of
             None \<Rightarrow> False | Some otherState \<Rightarrow> pd_Current otherState = Operational) nodes))), w))"

fun check_others ::
    "'s params \<Rightarrow> node_state_map \<Rightarrow> node list \<Rightarrow> 's world \<Rightarrow> (check_result \<times> error option) \<times> 's world" where
  "check_others p nodeStates [] w = ((Passed None, None), w)"
| "check_others p nodeStates (node # nodes) w =
     (if n_Name node = n_Name (w_node w) then check_others p nodeStates nodes w
      else case map_of nodeStates (n_Name node) of
        None \<Rightarrow> check_others p nodeStates nodes w
      | Some otherState \<Rightarrow>
          if pd_Current otherState \<noteq> Required then check_others p nodeStates nodes w
          else (case hasAffinityPod (n_Name node) p w of
            (Inl e, w) \<Rightarrow> ((Failed None, Some (WrapError (''failed to check if node '' @ n_Name (w_node w)
                            @ '' has affinity pods: '') e)), w)
          | (Inr nodeAffinity, w) \<Rightarrow>
              if \<not> nodeAffinity then ((FailedWithReason (''pods without affinity on: '' @ n_Name node), None), w)
              else check_others p nodeStates nodes w))"

definition checkOther ::
    "'s params \<Rightarrow> node_state_map \<Rightarrow> 's world \<Rightarrow> (check_result \<times> error option) \<times> 's world" where
  "checkOther p nodeStates w =
     (case api (c_ListNodes (P_Client p) AllNodes) w of
        (Inl e, w) \<Rightarrow> ((Failed None, Some (WrapError ''failed to list nodes in the cluster: '' e)), w)
      | (Inr nodes, w) \<Rightarrow> check_others p nodeStates nodes w)"

definition affinity_rest ::
    "'s params \<Rightarrow> node_state_map \<Rightarrow> 's world \<Rightarrow> (check_result \<times> error option) \<times> 's world" where
  "affinity_rest p nodeStates w =
     (case hasAffinityPod (n_Name (w_node w)) p w of
        (Inl e, w) \<Rightarrow> ((Failed None, Some (WrapError (''failed to check if node '' @ n_Name (w_node w)
                        @ '' has affinity pods: '') e)), w)
      | (Inr currentAffinity, w) \<Rightarrow>
          if \<not> currentAffinity then ((PassedWithReason ''no pods with affinity'', None), w)
          else checkOther p nodeStates w)"

definition Affinity_Check ::
    "(string \<Rightarrow> error + data) \<Rightarrow> int \<Rightarrow> ('s, check_result \<times> error option) plugin_method" where
  "Affinity_Check decode minOperational p w =
     (if P_State p \<noteq> Required
      then Some ((Failed None, Some (ErrorString (''affinity check plugin failed, node '' @ n_Name (w_node w)
             @ '' is not in maintenance-required but '' @ P_State p @ '' state''))), w)
      else case buildNodeStates decode p w of
        (Inl e, w) \<Rightarrow> Some ((Failed None, Some e), w)
      | (Inr nodeStates, w) \<Rightarrow>
          if minOperational > 0
          then (case countOperational p nodeStates w of
            (Inl e, w) \<Rightarrow> Some ((Failed None, Some e), w)
          | (Inr operationalCount, w) \<Rightarrow>
              if operationalCount \<ge> minOperational
              then Some ((PassedWithReason ''minOperational exceeded'', None), w)
              else Some (affinity_rest p nodeStates w))
          else Some (affinity_rest p nodeStates w))"

definition Affinity :: "(string \<Rightarrow> error + data) \<Rightarrow> int \<Rightarrow> 's checker" where
  "Affinity decode minOperational =
     \<lparr>Check = Affinity_Check decode minOperational, c_ID = ''affinity'', OnTransition = no_hook\<rparr>"

definition Affinity_New ::
    "(string \<Rightarrow> error + data) \<Rightarrow> ('c, int) unpacker \<Rightarrow> ('c, 's checker) constructor" where
  "Affinity_New decode unpack config addr =
     (case config of
        None \<Rightarrow> Some (Inr (Affinity decode 0))
      | Some c \<Rightarrow> construct unpack (\<lambda>minOperational. Inr (Affinity decode minOperational)) (Some c))"

section \<open>Versions (semver.go)\<close>

record 'v semver =
  sv_Parse :: "string \<Rightarrow> error + 'v"
  sv_LT :: "'v \<Rightarrow> 'v \<Rightarrow> bool"
  sv_GT :: "'v \<Rightarrow> 'v \<Rightarrow> bool"
  sv_NE :: "'v \<Rightarrow> 'v \<Rightarrow> bool"
  sv_GE :: "'v \<Rightarrow> 'v \<Rightarrow> bool"
  sv_String :: "'v \<Rightarrow> string"

definition MustParse :: "'v semver \<Rightarrow> string \<Rightarrow> 'v option" where
  "MustParse sv s = (case sv_Parse sv s of Inl _ \<Rightarrow> None | Inr v \<Rightarrow> Some v)"

definition filterByProfile :: "node list \<Rightarrow> string \<Rightarrow> node list" where
  "filterByProfile nodes prof = filter (\<lambda>node. case gm_get (n_Labels node) ProfileLabelKey of
     None \<Rightarrow> False | Some nodeProfiles \<Rightarrow> ContainsProfile nodeProfiles prof) nodes"

record cluster_semver =
  csv_Key :: string
  csv_ProfileScoped :: bool

fun max_version :: "'v semver \<Rightarrow> string \<Rightarrow> node list \<Rightarrow> 'v \<Rightarrow> error + 'v" where
  "max_version sv key [] maxVersion = Inr maxVersion"
| "max_version sv key (node # nodes) maxVersion =
     (case gm_get (n_Labels node) key of
        None \<Rightarrow> Inl (ErrorString (''node labels do not contain '' @ key @ '' although filtered on it''))
      | Some versionStr \<Rightarrow>
          (case sv_Parse sv versionStr of
             Inl _ \<Rightarrow> max_version sv key nodes maxVersion
           | Inr version \<Rightarrow> max_version sv key nodes (if sv_GT sv version maxVersion then version else maxVersion)))"

definition ClusterSemver_Check ::
    "'v semver \<Rightarrow> cluster_semver \<Rightarrow> ('s, check_result \<times> error option) plugin_method" where
  "ClusterSemver_Check sv cs p w =
     (case gm_get (n_Labels (w_node w)) (csv_Key cs) of
        None \<Rightarrow> Some ((Failed None, Some (ErrorString (''node does not have label '' @ csv_Key cs
                  @ '' containing version''))), w)
      | Some versionStr \<Rightarrow>
     (case sv_Parse sv versionStr of
        Inl e \<Rightarrow> Some ((Failed None, Some (WrapError ''failed to parse current nodes version label: '' e)), w)
      | Inr ownVersion \<Rightarrow>
     (case api (c_ListNodes (P_Client p) (HasLabels [csv_Key cs])) w of
        (Inl e, w) \<Rightarrow> Some ((Failed None, Some e), w)
      | (Inr nodes, w) \<Rightarrow> do {
          start \<leftarrow> MustParse sv ''0.1.0'';
          case max_version sv (csv_Key cs)
                 (if csv_ProfileScoped cs then filterByProfile nodes (P_Profile p) else nodes) start of
            Inl e \<Rightarrow> Some ((Failed None, Some e), w)
          | Inr maxVersion \<Rightarrow>
              Some ((check_bool (sv_LT sv ownVersion maxVersion)
                (Some [(''own'', StrV (sv_String sv ownVersion)), (''max'', StrV (sv_String sv maxVersion))]), None), w) })))"

definition ClusterSemver :: "'v semver \<Rightarrow> cluster_semver \<Rightarrow> 's checker" where
  "ClusterSemver sv cs = \<lparr>Check = ClusterSemver_Check sv cs, c_ID = ''clusterSemver'', OnTransition = no_hook\<rparr>"

definition ClusterSemver_New ::
    "'v semver \<Rightarrow> ('c, cluster_semver) unpacker \<Rightarrow> ('c, 's checker) constructor" where
  "ClusterSemver_New sv unpack config addr = construct unpack (\<lambda>conf. Inr (ClusterSemver sv conf)) config"

section \<open>Which nodes count as maintained\<close>

definition same_group :: "max_maintenance \<Rightarrow> node \<Rightarrow> node \<Rightarrow> bool" where
  "same_group m self node \<longleftrightarrow> (\<forall>l \<in> set (mm_GroupBy m). \<forall>v.
     gm_get (n_Labels self) l = Some v \<longrightarrow> l \<noteq> [] \<longrightarrow> v \<noteq> [] \<longrightarrow> gm_get (n_Labels node) l = Some v)"

definition has_profile :: "max_maintenance \<Rightarrow> node \<Rightarrow> bool" where
  "has_profile m node \<longleftrightarrow> mm_Profile m = [] \<or>
     (\<exists>profiles. gm_get (n_Labels node) ProfileLabelKey = Some profiles \<and> ContainsProfile profiles (mm_Profile m))"

lemma filterProfileName_eq: "filterProfileName m nodes = filter (has_profile m) nodes"
  by (auto simp: filterProfileName_def has_profile_def intro!: filter_cong split: option.splits)

lemma fst_filter_groups:
  "fst (filter_groups self ls (nodes, cs)) = filter (\<lambda>node. \<forall>l \<in> set ls. \<forall>v.
     gm_get (n_Labels self) l = Some v \<longrightarrow> l \<noteq> [] \<longrightarrow> v \<noteq> [] \<longrightarrow> gm_get (n_Labels node) l = Some v) nodes"
proof (induction ls arbitrary: nodes cs)
  case (Cons l ls)
  then show ?case
    by (cases "gm_get (n_Labels self) l") (auto simp: filterGroupLabel_def intro!: filter_cong)
qed simp

lemma selected_nodes:
  "fst (filter_groups self (mm_GroupBy m) (if mm_Profile m \<noteq> [] then filterProfileName m nodes else nodes, cs))
   = filter (\<lambda>node. has_profile m node \<and> same_group m self node) nodes"
  by (auto simp: fst_filter_groups filterProfileName_eq same_group_def has_profile_def conj_commute intro!: filter_cong)

lemma MaxMaintenance_unskipped:
  assumes "c_ListNodes (P_Client p) (MatchingLabels [(StateLabelKey, InMaintenance)]) (w_api w) = (Inr nodes, s)"
    and "mm_SkipAfter m = 0" and "MaxMaintenance_Check decode m p w = Some ((r, err), w')"
  shows "err = None \<and> (cr_Passed r \<longleftrightarrow>
    int (length (filter (\<lambda>node. has_profile m node \<and> same_group m (w_node w) node) nodes)) < mm_MaxNodes m)"
proof -
  have api: "api (c_ListNodes (P_Client p) (MatchingLabels [(StateLabelKey, InMaintenance)])) w
      = (Inr nodes, w\<lparr>w_api := s\<rparr>)"
    using assms(1) by (simp add: api_def)
  let ?sel = "filter_groups (w_node w) (mm_GroupBy m)
    (if mm_Profile m \<noteq> [] then filterProfileName m nodes else nodes, [])"
  obtain sel cs where sel: "?sel = (sel, cs)" by (cases ?sel)
  have "sel = filter (\<lambda>node. has_profile m node \<and> same_group m (w_node w) node) nodes"
    using selected_nodes [of "w_node w" m nodes "[]"] sel by simp
  with assms(2,3) api sel show ?thesis
    by (auto simp: MaxMaintenance_Check_def MaxMaintenance_checkInternal_def Let_def split: if_splits)
qed

text \<open>A maintained node whose data lacks the configured profile makes the check panic.\<close>

lemma filterRecentTransition_panics:
  assumes "mm_Profile m \<noteq> []" and "ParseData decode (gm_str (n_Annotations node) DataAnnotationKey) = Inr d"
    and "gm_get (d_Profiles d) (mm_Profile m) = None"
  shows "filterRecentTransition decode m (node # nodes) matching w = None"
  using assms by (simp add: considered_entries_def)

section \<open>Leases\<close>

text \<open>A lease is free at an instant when more than its duration has passed since its renewal.\<close>

definition lease_free :: "lease \<Rightarrow> gotime \<Rightarrow> bool" where
  "lease_free l now \<longleftrightarrow> (\<exists>secs renew. l_LeaseDurationSeconds l = Some secs \<and> l_RenewTime l = Some renew
     \<and> Sub now renew > secs * Second)"

lemma stagger_loop_passed:
  assumes "stagger_loop s p i n av w = Some ((r, err), w')" and "cr_Passed r"
  shows "\<exists>j lease w1 w2. i \<le> j \<and> j < i + int n \<and> err = None
    \<and> getOrCreateLease s j p w1 = (Inr lease, w2) \<and> lease_free lease (fst (time_Now w2))
    \<and> w_grab w' (st_addr s) = j"
  using assms
proof (induction n arbitrary: i av w)
  case 0
  then show ?case by auto
next
  case (Suc n)
  obtain res w1 where g: "getOrCreateLease s i p w = (res, w1)" by (cases "getOrCreateLease s i p w")
  with Suc.prems obtain lease where lease: "res = Inr lease" by (cases res) auto
  with g Suc.prems obtain secs renew where f: "l_LeaseDurationSeconds lease = Some secs" "l_RenewTime lease = Some renew"
    by (auto split: option.splits)
  show ?case
  proof (cases "Sub (fst (time_Now w1)) renew > secs * Second")
    case True
    then have "lease_free lease (fst (time_Now w1))" using f by (simp add: lease_free_def)
    moreover have "w_grab w' (st_addr s) = i" "err = None"
      using Suc.prems g lease f True by (auto simp: Let_def time_Since_unfold set_grab_def)
    ultimately show ?thesis using g lease
      by (intro exI [of _ i] exI [of _ lease] exI [of _ w] exI [of _ w1]) simp
  next
    case False
    with Suc.prems g lease f obtain av' w2 where "stagger_loop s p (i + 1) n av' w2 = Some ((r, err), w')"
      by (auto simp: Let_def time_Since_unfold)
    from Suc.IH [OF this Suc.prems(2)] obtain j lease' w3 w4 where "i + 1 \<le> j" "j < i + 1 + int n" "err = None"
      "getOrCreateLease s j p w3 = (Inr lease', w4)" "lease_free lease' (fst (time_Now w4))"
      "w_grab w' (st_addr s) = j" by blast
    then show ?thesis
      by (intro exI [of _ j] exI [of _ lease'] exI [of _ w3] exI [of _ w4]) simp
  qed
qed

text \<open>The lease \<open>grabLease\<close> writes is not free before its duration is over.\<close>

lemma grabLease_writes:
  assumes "grabLease s p lease w = (err, w')"
  shows "\<exists>modified r. c_PatchLease (P_Client p) modified lease (w_api w) = (r, w_api w')
    \<and> l_HolderIdentity modified = Some (n_Name (w_node w))
    \<and> l_Name modified = l_Name lease \<and> l_Namespace modified = l_Namespace lease
    \<and> (\<forall>now. lease_free modified now \<longleftrightarrow>
         Sub now (UTC (fst (time_Now w))) > int32_seconds (st_Duration s) * Second)
    \<and> (err = None \<longleftrightarrow> (\<exists>l. r = Inr l))"
proof -
  let ?now = "fst (time_Now w)"
  let ?m = "lease\<lparr>l_HolderIdentity := Some (n_Name (w_node w)), l_AcquireTime := Some (UTC ?now),
    l_RenewTime := Some (UTC ?now), l_LeaseDurationSeconds := Some (int32_seconds (st_Duration s)),
    l_LeaseTransitions := Some (case l_LeaseTransitions lease of None \<Rightarrow> 0 | Some n \<Rightarrow> wrap32 (n + 1))\<rparr>"
  obtain r s' where r: "c_PatchLease (P_Client p) ?m lease (w_api w) = (r, s')"
    by (cases "c_PatchLease (P_Client p) ?m lease (w_api w)")
  from assms r have "w_api w' = s'" "err = None \<longleftrightarrow> (\<exists>l. r = Inr l)"
    by (auto simp: grabLease_def Let_def case_prod_beta api_def split: sum.splits)
  with r show ?thesis by (intro exI [of _ ?m] exI [of _ r]) (simp add: lease_free_def)
qed

section \<open>Affinity\<close>

lemma check_others_spec:
  assumes pure: "\<And>n. c_ListPods (P_Client p) n s = (Inr (pods n), s)" and "w_api w = s"
  shows "snd (fst (check_others p st nodes w)) = None \<and> w_node (snd (check_others p st nodes w)) = w_node w \<and>
    (cr_Passed (fst (fst (check_others p st nodes w))) \<longleftrightarrow>
      (\<forall>node \<in> set nodes. n_Name node \<noteq> n_Name (w_node w) \<longrightarrow>
        (\<forall>pd. map_of st (n_Name node) = Some pd \<longrightarrow> pd_Current pd = Required \<longrightarrow>
          (\<exists>pod \<in> set (pods (n_Name node)). hasOperationalAffinity pod))))"
  using assms(2)
proof (induction nodes arbitrary: w)
  case (Cons node nodes)
  have same: "w\<lparr>w_api := s\<rparr> = w" using Cons.prems by simp
  have "hasAffinityPod (n_Name node) p w = (Inr (\<exists>pod \<in> set (pods (n_Name node)). hasOperationalAffinity pod), w)"
    using pure Cons.prems same by (simp add: hasAffinityPod_def api_def)
  with Cons show ?case by (auto split: option.splits)
qed simp

section \<open>The greatest version\<close>

lemma max_version_greatest:
  assumes trans: "\<And>a b c. sv_GT sv a b \<Longrightarrow> sv_GT sv b c \<Longrightarrow> sv_GT sv a c"
    and negtrans: "\<And>a b c. \<not> sv_GT sv a b \<Longrightarrow> \<not> sv_GT sv b c \<Longrightarrow> \<not> sv_GT sv a c"
    and irrefl: "\<And>a. \<not> sv_GT sv a a"
    and "max_version sv key nodes start = Inr v"
  shows "\<not> sv_GT sv start v \<and> (\<forall>node \<in> set nodes. \<forall>str u.
    gm_get (n_Labels node) key = Some str \<longrightarrow> sv_Parse sv str = Inr u \<longrightarrow> \<not> sv_GT sv u v)"
  using assms(4)
proof (induction nodes arbitrary: start)
  case Nil
  then show ?case using irrefl by simp
next
  case (Cons node nodes)
  from Cons.prems obtain str where str: "gm_get (n_Labels node) key = Some str" by (auto split: option.splits)
  show ?case
  proof (cases "sv_Parse sv str")
    case (Inl e)
    with Cons str show ?thesis by simp
  next
    case (Inr u)
    let ?start = "if sv_GT sv u start then u else start"
    from Cons.prems str Inr have "max_version sv key nodes ?start = Inr v" by simp
    note IH = Cons.IH [OF this]
    have "\<not> sv_GT sv start v" "\<not> sv_GT sv u v"
      using IH negtrans trans irrefl by (metis (full_types))+
    with IH str Inr show ?thesis by auto
  qed
qed

lemma max_version_attained:
  "max_version sv key nodes start = Inr v \<Longrightarrow> v = start \<or>
   (\<exists>node \<in> set nodes. \<exists>str. gm_get (n_Labels node) key = Some str \<and> sv_Parse sv str = Inr v)"
proof (induction nodes arbitrary: start)
  case (Cons node nodes)
  then show ?case by (fastforce split: option.splits sum.splits if_splits)
qed simp

section \<open>Contracts\<close>

lemma time_Since_node: "time_Since t w = (d, w') \<Longrightarrow> w_node w' = w_node w"
  by (auto simp: time_Since_unfold)

lemma api_node: "api f w = (r, w') \<Longrightarrow> w_node w' = w_node w"
  by (drule metrics_frame_api) (simp add: metrics_frame_def)

lemma filterRecentTransition_node:
  "filterRecentTransition decode m nodes acc w = Some (r, w') \<Longrightarrow> w_node w' = w_node w"
proof (induction nodes arbitrary: acc w)
  case (Cons node nodes)
  from Cons.prems show ?case
    by (auto simp: bind_eq_Some_conv time_Since_unfold dest!: Cons.IH split: sum.splits)
qed simp

lemma MaxMaintenance_checkInternal_node:
  assumes "MaxMaintenance_checkInternal decode m nodes w = Some (r, w')"
  shows "w_node w' = w_node w"
proof -
  obtain ns cs where g: "filter_groups (w_node w) (mm_GroupBy m)
      (if mm_Profile m \<noteq> [] then filterProfileName m nodes else nodes, []) = (ns, cs)"
    by (cases "filter_groups (w_node w) (mm_GroupBy m)
      (if mm_Profile m \<noteq> [] then filterProfileName m nodes else nodes, [])")
  with assms obtain filtered w1 where f: "(if mm_SkipAfter m \<noteq> 0 then filterRecentTransition decode m ns [] w
      else Some (Inr ns, w)) = Some (filtered, w1)"
    by (auto simp: MaxMaintenance_checkInternal_def Let_def bind_eq_Some_conv)
  then have "w_node w1 = w_node w" by (auto split: if_splits dest: filterRecentTransition_node)
  moreover have "w' = w1"
  proof (cases filtered)
    case (Inr sel)
    with assms g f show ?thesis
      by (cases "int (length sel) \<ge> mm_MaxNodes m")
        (auto simp: MaxMaintenance_checkInternal_def Let_def simp del: if_split split: if_split_asm)
  qed (use assms g f in \<open>auto simp: MaxMaintenance_checkInternal_def Let_def\<close>)
  ultimately show ?thesis by simp
qed

lemma MaxMaintenance_node: "MaxMaintenance_Check decode m p w = Some (r, w') \<Longrightarrow> w_node w' = w_node w"
  by (auto simp: MaxMaintenance_Check_def dest!: api_node MaxMaintenance_checkInternal_node
      split: prod.splits sum.splits)

lemma getOrCreateLease_node: "getOrCreateLease s i p w = (r, w') \<Longrightarrow> w_node w' = w_node w"
proof -
  assume a: "getOrCreateLease s i p w = (r, w')"
  obtain g w1 where g: "api (c_GetLease (P_Client p) (makeLeaseKey s i)) w = (g, w1)"
    by (cases "api (c_GetLease (P_Client p) (makeLeaseKey s i)) w")
  obtain now w2 where now: "time_Now w1 = (now, w2)" by (cases "time_Now w1")
  then have "w_node w2 = w_node w1" using time_Now_frame(1) [of w1] by simp
  with api_node [OF g] a g now show ?thesis
    by (cases g) (auto simp: getOrCreateLease_def Let_def split: if_splits dest!: api_node)
qed

lemma stagger_loop_node: "stagger_loop s p i n av w = Some (r, w') \<Longrightarrow> w_node w' = w_node w"
proof (induction n arbitrary: i av w)
  case (Suc n)
  obtain res w1 where g: "getOrCreateLease s i p w = (res, w1)" by (cases "getOrCreateLease s i p w")
  show ?case
    using Suc g getOrCreateLease_node [OF g]
    by (cases res) (auto simp: Let_def time_Since_unfold set_grab_def split: option.splits if_splits dest!: Suc.IH)
qed simp

lemma Stagger_node:
  "Stagger_Check s p w = Some (r, w') \<Longrightarrow> w_node w' = w_node w"
  "Stagger_OnTransition s p w = Some (e, w') \<Longrightarrow> w_node w' = w_node w"
  by (auto simp: Stagger_Check_def set_grab_def dest!: stagger_loop_node)
    (auto simp: Stagger_OnTransition_def grabLease_def Let_def case_prod_beta
      dest!: api_node split: if_splits prod.splits sum.splits)

lemma hasAffinityPod_node: "hasAffinityPod n p w = (r, w') \<Longrightarrow> w_node w' = w_node w"
  by (auto simp: hasAffinityPod_def dest!: api_node split: prod.splits sum.splits)

lemma check_others_node: "check_others p st nodes w = (r, w') \<Longrightarrow> w_node w' = w_node w"
proof (induction nodes arbitrary: w)
  case (Cons node nodes)
  then show ?case
    by (auto dest!: hasAffinityPod_node split: if_splits option.splits prod.splits sum.splits)
qed simp

lemma affinity_rest_node: "affinity_rest p st w = (r, w') \<Longrightarrow> w_node w' = w_node w"
  by (auto simp: affinity_rest_def checkOther_def dest!: hasAffinityPod_node check_others_node api_node
      split: prod.splits sum.splits if_splits)

lemma Affinity_node: "Affinity_Check decode n p w = Some (r, w') \<Longrightarrow> w_node w' = w_node w"
  by (auto simp: Affinity_Check_def buildNodeStates_def countOperational_def
      dest!: api_node affinity_rest_node split: prod.splits sum.splits if_splits)

lemma ClusterSemver_node:
  assumes "ClusterSemver_Check sv cs p w = Some (r, w')"
  shows "w_node w' = w_node w"
proof -
  obtain got w1 where l: "api (c_ListNodes (P_Client p) (HasLabels [csv_Key cs])) w = (got, w1)"
    by (cases "api (c_ListNodes (P_Client p) (HasLabels [csv_Key cs])) w")
  have "w' = w \<or> w' = w1"
  proof (cases got)
    case (Inr nodes)
    let ?m = "max_version sv (csv_Key cs) (if csv_ProfileScoped cs then filterByProfile nodes (P_Profile p) else nodes)
      (the (MustParse sv ''0.1.0''))"
    show ?thesis using assms l Inr
      by (cases "MustParse sv ''0.1.0''"; cases ?m) (auto simp: ClusterSemver_Check_def split: option.splits sum.splits)
  qed (use assms l in \<open>auto simp: ClusterSemver_Check_def split: option.splits sum.splits\<close>)
  with api_node [OF l] show ?thesis by auto
qed

interpretation maxMaintenance: checker_keeps_node "MaxMaintenance decode m" for decode m
  by unfold_locales (auto simp: MaxMaintenance_def no_hook_def dest: MaxMaintenance_node)

interpretation stagger: checker_keeps_node "Stagger s" for s
  by unfold_locales (auto simp: Stagger_def dest: Stagger_node)

interpretation affinity: checker_keeps_node "Affinity decode n" for decode n
  by unfold_locales (auto simp: Affinity_def no_hook_def dest: Affinity_node)

interpretation clusterSemver: checker_keeps_node "ClusterSemver sv cs" for sv cs
  by unfold_locales (auto simp: ClusterSemver_def no_hook_def dest: ClusterSemver_node)

section \<open>Decisions on a snapshot, and who holds a lease\<close>

text \<open>The entry of the profile in the data of a node, as \<open>buildNodeStates\<close> reads it.\<close>

definition node_entry :: "(string \<Rightarrow> error + data) \<Rightarrow> string \<Rightarrow> node \<Rightarrow> profile_data option" where
  "node_entry decode prof node =
     (case ParseData decode (gm_str (n_Annotations node) DataAnnotationKey) of
        Inl _ \<Rightarrow> None
      | Inr d \<Rightarrow> (case gm_get (d_Profiles d) prof of Some (Some pd) \<Rightarrow> Some pd | _ \<Rightarrow> None))"

definition entry_in :: "(string \<Rightarrow> error + data) \<Rightarrow> string \<Rightarrow> NodeStateLabel \<Rightarrow> node \<Rightarrow> bool" where
  "entry_in decode prof l node \<longleftrightarrow> (case node_entry decode prof node of None \<Rightarrow> False | Some pd \<Rightarrow> pd_Current pd = l)"

lemma entry_in_iff: "entry_in decode prof l node \<longleftrightarrow> (\<exists>pd. node_entry decode prof node = Some pd \<and> pd_Current pd = l)"
  by (simp add: entry_in_def split: option.splits)

lemma collect_states_Cons:
  "collect_states decode prof (node # nodes) m =
     collect_states decode prof nodes (case node_entry decode prof node of
        None \<Rightarrow> m | Some pd \<Rightarrow> AList.update (n_Name node) pd m)"
  by (simp add: node_entry_def split: sum.splits option.splits)

lemma collect_states_other:
  "name \<notin> n_Name ` set nodes \<Longrightarrow> map_of (collect_states decode prof nodes m) name = map_of m name"
proof (induction nodes arbitrary: m)
  case (Cons node nodes)
  then show ?case
    by (simp add: collect_states_Cons update_conv' split: option.splits del: collect_states.simps(2))
qed simp

lemma collect_states_entry:
  "distinct (map n_Name nodes) \<Longrightarrow> n \<in> set nodes \<Longrightarrow> \<forall>x \<in> set nodes. map_of m (n_Name x) = None \<Longrightarrow>
   map_of (collect_states decode prof nodes m) (n_Name n) = node_entry decode prof n"
proof (induction nodes arbitrary: m)
  case (Cons node nodes)
  let ?m = "case node_entry decode prof node of None \<Rightarrow> m | Some pd \<Rightarrow> AList.update (n_Name node) pd m"
  show ?case
  proof (cases "n = node")
    case True
    with Cons.prems show ?thesis
      by (simp add: collect_states_Cons collect_states_other update_conv' split: option.splits
          del: collect_states.simps(2))
  next
    case False
    have "\<forall>x \<in> set nodes. map_of ?m (n_Name x) = None"
      using Cons.prems(1,3) by (auto simp: update_conv' split: option.splits) (metis image_eqI)
    with Cons False show ?thesis by (simp add: collect_states_Cons del: collect_states.simps(2))
  qed
qed simp

text \<open>What the check decides on a snapshot of the cluster.\<close>

lemma Affinity_snapshot:
  assumes st: "P_State p = Required" and nodes: "c_ListNodes (P_Client p) AllNodes (w_api w) = (Inr nodes, w_api w)"
    and pods: "\<And>n. c_ListPods (P_Client p) n (w_api w) = (Inr (pods n), w_api w)"
    and names: "distinct (map n_Name nodes)"
  shows "\<exists>r w'. Affinity_Check decode k p w = Some ((r, None), w') \<and> (cr_Passed r \<longleftrightarrow>
     0 < k \<and> k \<le> int (length (filter (entry_in decode (P_Profile p) Operational) nodes)) \<or>
     \<not> (\<exists>pod \<in> set (pods (n_Name (w_node w))). hasOperationalAffinity pod) \<or>
     (\<forall>n \<in> set nodes. n_Name n \<noteq> n_Name (w_node w) \<longrightarrow> entry_in decode (P_Profile p) Required n \<longrightarrow>
        (\<exists>pod \<in> set (pods (n_Name n)). hasOperationalAffinity pod)))"
proof -
  let ?st = "collect_states decode (P_Profile p) nodes []"
  have [simp]: "api (c_ListNodes (P_Client p) AllNodes) w = (Inr nodes, w)"
    "api (c_ListPods (P_Client p) n) w = (Inr (pods n), w)" for n
    using nodes pods by (simp_all add: api_def)
  have entry: "map_of ?st (n_Name n) = node_entry decode (P_Profile p) n" if "n \<in> set nodes" for n
    using collect_states_entry [OF names that] by simp
  have count: "countOperational p ?st w = (Inr (int (length (filter (entry_in decode (P_Profile p) Operational) nodes))), w)"
    by (simp add: countOperational_def entry_in_def entry cong: filter_cong)
  note spec = check_others_spec [of p "w_api w" pods w ?st nodes, OF pods refl]
  obtain r err w' where others: "check_others p ?st nodes w = ((r, err), w')"
    by (cases "check_others p ?st nodes w") auto
  have err: "err = None" and r: "cr_Passed r \<longleftrightarrow> (\<forall>n \<in> set nodes. n_Name n \<noteq> n_Name (w_node w) \<longrightarrow>
      entry_in decode (P_Profile p) Required n \<longrightarrow> (\<exists>pod \<in> set (pods (n_Name n)). hasOperationalAffinity pod))"
    using spec by (simp_all add: others entry_in_iff entry) blast
  show ?thesis
    using st count others r err
    by (auto simp: Affinity_Check_def buildNodeStates_def affinity_rest_def checkOther_def hasAffinityPod_def)
qed

text \<open>Staggering: the node that passes takes a free lease, which then stays taken for the duration.\<close>

lemma getOrCreateLease_found:
  "c_GetLease (P_Client p) (makeLeaseKey s j) (w_api w) = (Inr l, s1) \<Longrightarrow>
   getOrCreateLease s j p w = (Inr l, w\<lparr>w_api := s1\<rparr>)"
  by (simp add: getOrCreateLease_def api_def)

lemma Stagger_OnTransition_writes:
  assumes "Stagger_OnTransition s p w = Some (None, w')" and "w_grab w (st_addr s) \<noteq> noGrab"
  shows "\<exists>old s1 new r. c_GetLease (P_Client p) (makeLeaseKey s (w_grab w (st_addr s))) (w_api w) = (Inr old, s1)
    \<and> c_PatchLease (P_Client p) new old s1 = (Inr r, w_api w')
    \<and> l_HolderIdentity new = Some (n_Name (w_node w)) \<and> l_Name new = l_Name old \<and> l_Namespace new = l_Namespace old
    \<and> (\<forall>now. lease_free new now \<longleftrightarrow> Sub now (UTC (fst (time_Now w))) > int32_seconds (st_Duration s) * Second)"
proof -
  obtain old s1 where g: "c_GetLease (P_Client p) (makeLeaseKey s (w_grab w (st_addr s))) (w_api w) = (Inr old, s1)"
    and run: "grabLease s p old (w\<lparr>w_api := s1\<rparr>) = (None, w')"
    using assms by (auto simp: Stagger_OnTransition_def api_def split: prod.splits sum.splits)
  have now: "fst (time_Now (w\<lparr>w_api := s1\<rparr>)) = fst (time_Now w)" by (simp add: time_Now_def)
  from grabLease_writes [OF run] obtain new r where "c_PatchLease (P_Client p) new old s1 = (r, w_api w')"
    "l_HolderIdentity new = Some (n_Name (w_node w))" "l_Name new = l_Name old" "l_Namespace new = l_Namespace old"
    "\<forall>now. lease_free new now \<longleftrightarrow> Sub now (UTC (fst (time_Now w))) > int32_seconds (st_Duration s) * Second"
    "\<exists>l. r = Inr l"
    unfolding now by auto
  with g show ?thesis by blast
qed

text \<open>While every lease is taken, at any time up to \<open>T\<close>, the check fails.\<close>

lemma time_left: "w_now (snd (time_Now w)) + int (sum_list (w_ticks (snd (time_Now w)))) \<le> w_now w + int (sum_list (w_ticks w))"
  by (cases "w_ticks w") (auto simp: time_Now_def)

lemma stagger_loop_blocked:
  assumes "\<And>j st. i \<le> j \<Longrightarrow> j < i + int n \<Longrightarrow> \<exists>l st'. c_GetLease (P_Client p) (makeLeaseKey s j) st = (Inr l, st')
      \<and> l_LeaseDurationSeconds l \<noteq> None \<and> l_RenewTime l \<noteq> None \<and> (\<forall>t. t_ns t \<le> T \<longrightarrow> \<not> lease_free l t)"
    and "w_now w + int (sum_list (w_ticks w)) \<le> T"
  shows "\<exists>r w'. stagger_loop s p i n av w = Some ((r, None), w') \<and> \<not> cr_Passed r"
  using assms
proof (induction n arbitrary: i av w)
  case (Suc n)
  obtain l st' where l: "c_GetLease (P_Client p) (makeLeaseKey s i) (w_api w) = (Inr l, st')"
    and nn: "l_LeaseDurationSeconds l \<noteq> None" "l_RenewTime l \<noteq> None" and busy: "\<forall>t. t_ns t \<le> T \<longrightarrow> \<not> lease_free l t"
    using Suc.prems(1) [of i "w_api w"] by auto
  obtain secs renew where f: "l_LeaseDurationSeconds l = Some secs" "l_RenewTime l = Some renew" using nn by auto
  let ?w = "w\<lparr>w_api := st'\<rparr>"
  let ?w1 = "snd (time_Now ?w)" let ?w2 = "snd (time_Now ?w1)"
  have "w_now ?w + int (sum_list (w_ticks ?w)) \<le> T" using Suc.prems(2) by simp
  then have "\<not> Sub (fst (time_Now ?w)) renew > secs * Second"
    using busy f by (auto simp: lease_free_def)
  then have "stagger_loop s p i (Suc n) av w
      = stagger_loop s p (i + 1) n (av @ [SecondsV (wrap64 (secs * Second - Sub (fst (time_Now ?w1)) renew))]) ?w2"
    using f getOrCreateLease_found [OF l] by (simp add: time_Since_def split_def Let_def)
  moreover have "w_now ?w2 + int (sum_list (w_ticks ?w2)) \<le> T"
    using time_left [of ?w] time_left [of ?w1] Suc.prems(2) by simp
  moreover have "\<exists>l st'. c_GetLease (P_Client p) (makeLeaseKey s j) st = (Inr l, st')
      \<and> l_LeaseDurationSeconds l \<noteq> None \<and> l_RenewTime l \<noteq> None \<and> (\<forall>t. t_ns t \<le> T \<longrightarrow> \<not> lease_free l t)"
    if "i + 1 \<le> j" "j < i + 1 + int n" for j st
    using that by (intro Suc.prems(1)) auto
  ultimately show ?case using Suc.IH by metis
qed simp

end
