(* ===== verification/Drain.thy ===== *)
theory Drain
  imports ClusterPlugins
begin

text \<open>
  \<open>common/schedule.go\<close>, \<open>common/version.go\<close> and \<open>plugin/impl/eviction.go\<close>:
  cordoning and draining of nodes. A drain never waits: it requests the eviction of every
  pod that is still active and reports that it has to be continued, so that the trigger asks
  for a retry until no pod is left.
\<close>

section \<open>Server version (version.go)\<close>

definition GetAPIServerVersion ::
    "'v semver \<Rightarrow> 's client \<Rightarrow> 's world \<Rightarrow> ((error + 'v) \<times> 's world) option" where
  "GetAPIServerVersion sv ki w =
     (case api (cs_ServerVersion ki) w of
        (Inl e, w) \<Rightarrow> Some (Inl (WrapError ''failed to do request for API Server version: '' e), w)
      | (Inr rsp, w) \<Rightarrow>
          (case rsp of
             [] \<Rightarrow> None \<comment> \<open>slice bounds out of range\<close>
           | _ # gitVersion \<Rightarrow>
               (case sv_Parse sv gitVersion of
                  Inl e \<Rightarrow> Some (Inl (WrapError (''API Server version '' @ gitVersion
                            @ '' is not semver compatible: '') e), w)
                | Inr version \<Rightarrow> Some (Inr version, w))))"

section \<open>Eviction and deletion of pods (schedule.go)\<close>

datatype evictionVersion = none | v1beta1 | v1

definition fetchEvictionVersion ::
    "'v semver \<Rightarrow> 's client \<Rightarrow> 's world \<Rightarrow> ((error + evictionVersion) \<times> 's world) option" where
  "fetchEvictionVersion sv ki w =
     do { (res, w) \<leftarrow> GetAPIServerVersion sv ki w;
          case res of
            Inl e \<Rightarrow> Some (Inl e, w)
          | Inr serverVersion \<Rightarrow> do {
              v122 \<leftarrow> MustParse sv ''1.22.0'';
              if sv_GE sv serverVersion v122 then Some (Inr v1, w)
              else do {
                v16 \<leftarrow> MustParse sv ''1.6.0'';
                if sv_GE sv serverVersion v16 then Some (Inr v1beta1, w) else Some (Inr none, w) } } }"

definition EnsureSchedulable :: "'s client \<Rightarrow> bool \<Rightarrow> 's world \<Rightarrow> error option \<times> 's world" where
  "EnsureSchedulable cl schedulable w =
     (let node = w_node w
      in if n_Unschedulable node \<noteq> schedulable then (None, w)
         else let modified = node\<lparr>n_Unschedulable := \<not> schedulable\<rparr>;
                  (r, w) = api (c_PatchNode cl modified node) w
              in (case r of
                    Inl e \<Rightarrow> (Some (WrapError (''failed to set node '' @ n_Name node @ '' as (un-)schedulable: '') e),
                              w\<lparr>w_node := modified\<rparr>)
                  | Inr patched \<Rightarrow> (None, w\<lparr>w_node := patched\<rparr>)))"

record wait_parameters =
  wp_Period :: duration
  wp_Timeout :: duration

record 's drain_parameters =
  dp_AwaitDeletion :: wait_parameters
  dp_Eviction :: wait_parameters
  dp_Client :: "'s client" \<comment> \<open>the client and the clientset\<close>
  dp_ForceEviction :: bool
  dp_GracePeriodSeconds :: "int option"
  dp_Recorder :: bool \<comment> \<open>whether there is a recorder\<close>

definition recordDrainEvent :: "bool \<Rightarrow> pod \<Rightarrow> string \<Rightarrow> string \<Rightarrow> 's world \<Rightarrow> 's world" where
  "recordDrainEvent recorder pod reason note w =
     (if \<not> recorder then w else emit_event (p_Name pod) reason note w)"

definition splitDrainCandidates :: "pod list \<Rightarrow> pod list \<times> pod list" where
  "splitDrainCandidates pods =
     (filter (\<lambda>pod. p_DeletionTimestamp pod = None) pods, filter (\<lambda>pod. p_DeletionTimestamp pod \<noteq> None) pods)"

definition MirrorPodAnnotationKey :: string where
  "MirrorPodAnnotationKey = ''kubernetes.io/config.mirror''"

definition drainable :: "pod \<Rightarrow> bool" where
  "drainable pod \<longleftrightarrow> gm_get (p_Annotations pod) MirrorPodAnnotationKey = None
     \<and> \<not> (\<exists>ref \<in> set (p_OwnerReferences pod). o_Kind ref = ''DaemonSet'')"

definition GetPodsForDrain :: "'s client \<Rightarrow> string \<Rightarrow> 's world \<Rightarrow> (error + pod list) \<times> 's world" where
  "GetPodsForDrain cl nodeName w =
     (case api (c_ListPods cl nodeName) w of
        (Inl e, w) \<Rightarrow> (Inl e, w)
      | (Inr pods, w) \<Rightarrow> (Inr (filter drainable pods), w))"

text \<open>A request for every pod; errors other than NotFound are collected.\<close>

fun for_pods ::
    "(pod \<Rightarrow> ('s, unit) request) \<Rightarrow> (pod \<Rightarrow> error \<Rightarrow> error) \<Rightarrow> pod list \<Rightarrow> error list \<Rightarrow> 's world
      \<Rightarrow> error list \<times> 's world" where
  "for_pods f wrap [] errs w = (errs, w)"
| "for_pods f wrap (pod # pods) errs w =
     (case api (f pod) w of
        (Inl e, w) \<Rightarrow> for_pods f wrap pods (if \<not> IsNotFound e then errs @ [wrap pod e] else errs) w
      | (Inr _, w) \<Rightarrow> for_pods f wrap pods errs w)"

definition deletePods :: "'s client \<Rightarrow> pod list \<Rightarrow> int option \<Rightarrow> 's world \<Rightarrow> error option \<times> 's world" where
  "deletePods cl pods grace w =
     (let (errs, w) = for_pods (\<lambda>pod. c_DeletePod cl pod grace)
            (\<lambda>pod e. WrapError (''failed to delete pod '' @ p_Name pod @ '' from node: '') e) pods [] w
      in (errors_Join errs, w))"

fun evictPod :: "'s client \<Rightarrow> evictionVersion \<Rightarrow> int option \<Rightarrow> pod \<Rightarrow> ('s, unit) request" where
  "evictPod ki v1beta1 grace pod s = cs_EvictV1beta1 ki pod grace s"
| "evictPod ki v1 grace pod s = cs_EvictV1 ki pod grace s"
| "evictPod ki none grace pod s = (Inr (), s)"

definition evictPods ::
    "'s client \<Rightarrow> pod list \<Rightarrow> evictionVersion \<Rightarrow> int option \<Rightarrow> 's world \<Rightarrow> error option \<times> 's world" where
  "evictPods ki pods version grace w =
     (if pods = [] then (None, w)
      else let (errs, w) = for_pods (evictPod ki version grace)
                 (\<lambda>pod e. WrapError (''failed to evict pod '' @ p_Name pod @ '': '') e) pods [] w
           in (errors_Join errs, w))"

section \<open>Draining\<close>

definition grace_exceeded :: "gotime \<Rightarrow> pod \<Rightarrow> bool" where
  "grace_exceeded now pod =
     (case (p_DeletionTimestamp pod, p_DeletionGracePeriodSeconds pod) of
        (Some ts, Some secs) \<Rightarrow> After now (Add ts (wrap64 (secs * Second)))
      | _ \<Rightarrow> False)"

definition force_delete :: "'s drain_parameters \<Rightarrow> pod list \<Rightarrow> 's world \<Rightarrow> 's world" where
  "force_delete params terminating w =
     (if terminating \<noteq> [] \<and> dp_ForceEviction params
      then let (now, w) = time_Now w;
               podsToForceDelete = filter (grace_exceeded now) terminating
           in if podsToForceDelete \<noteq> []
              then let w = fold (\<lambda>pod. recordDrainEvent (dp_Recorder params) pod ''ForceDeleting''
                             ''Force deleting pod that exceeded grace period during node drain'') podsToForceDelete w;
                       (_, w) = deletePods (dp_Client params) podsToForceDelete (Some 0) w
                   in w
              else w
      else w)"

definition EnsureDrain ::
    "'v semver \<Rightarrow> 's drain_parameters \<Rightarrow> 's world \<Rightarrow> ((bool \<times> error option) \<times> 's world) option" where
  "EnsureDrain sv params w =
     (case GetPodsForDrain (dp_Client params) (n_Name (w_node w)) w of
        (Inl e, w) \<Rightarrow> Some ((False, Some (WrapError ''failed to fetch deletable pods: '' e)), w)
      | (Inr pending, w) \<Rightarrow>
          let (active, terminating) = splitDrainCandidates pending
          in if active = [] \<and> terminating = [] then Some ((True, None), w)
             else let w = force_delete params terminating w
             in do {
               (err, w) \<leftarrow> (if active \<noteq> [] then do {
                   (res, w) \<leftarrow> fetchEvictionVersion sv (dp_Client params) w;
                   case res of
                     Inl e \<Rightarrow> Some (Some e, w)
                   | Inr version \<Rightarrow>
                       let w = fold (\<lambda>pod. recordDrainEvent (dp_Recorder params) pod ''Evicting''
                                  ''Evicting pod during node drain'') active w;
                           (err, w) = (if version = none
                                       then deletePods (dp_Client params) active (dp_GracePeriodSeconds params) w
                                       else evictPods (dp_Client params) active version (dp_GracePeriodSeconds params) w)
                       in Some (map_option (WrapError ''failed to delete/evict at least one pod: '') err, w) }
                 else Some (None, w));
               case err of
                 Some e \<Rightarrow> Some ((False, Some e), w)
               | None \<Rightarrow> if pending \<noteq> [] then Some ((False, None), w) else Some ((True, None), w) })"

section \<open>Waiting for deletion\<close>

text \<open>
  The condition \<open>waitForPodDeletion\<close> polls for. On a failed request the pod read stays
  zero, so its UID is empty.
\<close>

definition pod_gone :: "'s client \<Rightarrow> pod \<Rightarrow> ('s, bool) request" where
  "pod_gone cl pod s =
     (case c_GetPod cl (p_Namespace pod, p_Name pod) s of
        (Inl e, s) \<Rightarrow> if IsNotFound e \<or> [] \<noteq> p_UID pod then (Inr True, s) else (Inl e, s)
      | (Inr q, s) \<Rightarrow> if p_UID q \<noteq> p_UID pod then (Inr True, s) else (Inr False, s))"

definition waitForPodDeletion ::
    "'s poller \<Rightarrow> 's client \<Rightarrow> pod \<Rightarrow> wait_parameters \<Rightarrow> 's \<Rightarrow> error option \<times> 's" where
  "waitForPodDeletion poll cl pod params s = poll (wp_Period params) (wp_Timeout params) (pod_gone cl pod) s"

section \<open>The eviction trigger (eviction.go)\<close>

datatype eviction_action = Drain | Cordon | Uncordon | OtherAction string

definition parse_action :: "string \<Rightarrow> eviction_action" where
  "parse_action s = (if s = ''drain'' then Drain else if s = ''cordon'' then Cordon
     else if s = ''uncordon'' then Uncordon else OtherAction s)"

definition defaultPeriod :: duration where "defaultPeriod = 5 * Second"

record eviction =
  ev_Action :: eviction_action
  ev_DeletionTimeout :: duration
  ev_EvictionTimeout :: duration
  ev_ForceEviction :: bool

record eviction_conf =
  evc_Action :: string
  evc_DeletionTimeout :: "duration option"
  evc_EvictionTimeout :: "duration option"
  evc_ForceEviction :: bool

definition build_eviction :: "eviction_conf \<Rightarrow> error + eviction" where
  "build_eviction conf =
     (if parse_action (evc_Action conf) \<notin> {Drain, Cordon, Uncordon}
      then Inl (ErrorString (''got invalid eviction action: '' @ evc_Action conf))
      else Inr \<lparr>ev_Action = parse_action (evc_Action conf),
        ev_DeletionTimeout = (case evc_DeletionTimeout conf of None \<Rightarrow> 10 * Minute | Some d \<Rightarrow> d),
        ev_EvictionTimeout = (case evc_EvictionTimeout conf of None \<Rightarrow> 10 * Minute | Some d \<Rightarrow> d),
        ev_ForceEviction = evc_ForceEviction conf\<rparr>)"

definition set_unschedulable :: "bool \<Rightarrow> 's world \<Rightarrow> 's world" where
  "set_unschedulable b w = w\<lparr>w_node := (w_node w)\<lparr>n_Unschedulable := b\<rparr>\<rparr>"

definition Eviction_Trigger :: "'v semver \<Rightarrow> eviction \<Rightarrow> ('s, error option) plugin_method" where
  "Eviction_Trigger sv e p w =
     (case ev_Action e of
        Cordon \<Rightarrow> Some (None, set_unschedulable True w)
      | Uncordon \<Rightarrow> Some (None, set_unschedulable False w)
      | Drain \<Rightarrow> do {
          ((drained, err), w) \<leftarrow> EnsureDrain sv
            \<lparr>dp_AwaitDeletion = \<lparr>wp_Period = defaultPeriod, wp_Timeout = ev_DeletionTimeout e\<rparr>,
             dp_Eviction = \<lparr>wp_Period = defaultPeriod, wp_Timeout = ev_EvictionTimeout e\<rparr>,
             dp_Client = P_Client p, dp_ForceEviction = ev_ForceEviction e,
             dp_GracePeriodSeconds = None, dp_Recorder = True\<rparr> (set_unschedulable True w);
          case err of
            Some er \<Rightarrow> Some (Some (RetryError (Error er)), w)
          | None \<Rightarrow> if \<not> drained then Some (Some (RetryError ''drain still in progress''), w)
                    else Some (None, w) }
      | OtherAction s \<Rightarrow> Some (Some (ErrorString (''invalid eviction action: '' @ s)), w))"

definition Eviction :: "'v semver \<Rightarrow> eviction \<Rightarrow> 's trigger" where
  "Eviction sv e = \<lparr>Trigger = Eviction_Trigger sv e, t_ID = ''eviction''\<rparr>"

definition Eviction_New :: "'v semver \<Rightarrow> ('c, eviction_conf) unpacker \<Rightarrow> ('c, 's trigger) constructor" where
  "Eviction_New sv unpack config addr =
     construct unpack (\<lambda>conf. case build_eviction conf of Inl e \<Rightarrow> Inl e | Inr e \<Rightarrow> Inr (Eviction sv e)) config"

section \<open>Requests of a drain\<close>

text \<open>Every pod gets its request, whatever happens to the others.\<close>

lemma for_pods_requests:
  "w_api (snd (for_pods f wrap pods errs w)) = fold (\<lambda>pod s. snd (f pod s)) pods (w_api w)"
proof (induction pods arbitrary: errs w)
  case (Cons pod pods)
  obtain r s where f: "f pod (w_api w) = (r, s)" by (cases "f pod (w_api w)")
  with Cons show ?case by (cases r) (simp_all add: api_def)
qed simp

lemma for_pods_frame: "for_pods f wrap pods errs w = (errs', w') \<Longrightarrow> metrics_frame w w'"
proof (induction pods arbitrary: errs w)
  case (Cons pod pods)
  then show ?case
    by (auto split: prod.splits sum.splits dest!: metrics_frame_api intro: metrics_frame_trans)
qed simp

lemma for_pods_errs: "\<exists>more. fst (for_pods f wrap pods errs w) = errs @ more"
proof (induction pods arbitrary: errs w)
  case (Cons pod pods)
  show ?case
  proof (cases "api (f pod) w")
    case (Pair r w1)
    show ?thesis
    proof (cases r)
      case (Inl e)
      with Pair Cons [of "errs @ [wrap pod e]" w1] Cons [of errs w1] show ?thesis by auto
    next
      case (Inr u)
      with Pair Cons [of errs w1] show ?thesis by auto
    qed
  qed
qed simp

text \<open>No error is lost: an empty list means every request succeeded or found its pod gone.\<close>

lemma for_pods_no_error:
  "for_pods f wrap pods errs w = ([], w') \<Longrightarrow> i < length pods \<Longrightarrow>
   \<exists>e. fst (f (pods ! i) (fold (\<lambda>pod s. snd (f pod s)) (take i pods) (w_api w))) = Inr () \<or>
     fst (f (pods ! i) (fold (\<lambda>pod s. snd (f pod s)) (take i pods) (w_api w))) = Inl e \<and> IsNotFound e"
proof (induction pods arbitrary: errs w i)
  case (Cons pod pods)
  obtain r s where f: "f pod (w_api w) = (r, s)" by (cases "f pod (w_api w)")
  have run: "\<exists>errs'. for_pods f wrap pods errs' (w\<lparr>w_api := s\<rparr>) = ([], w')"
    using Cons.prems(1) f by (cases r) (auto simp: api_def)
  have ok: "\<exists>e. r = Inr () \<or> r = Inl e \<and> IsNotFound e"
  proof (cases r)
    case (Inl e)
    with Cons.prems(1) f for_pods_errs [of f wrap pods "errs @ [wrap pod e]" "w\<lparr>w_api := s\<rparr>"]
    show ?thesis by (auto simp: api_def split: if_splits)
  qed simp
  show ?case
  proof (cases i)
    case 0
    with ok f show ?thesis by simp
  next
    case (Suc j)
    from run obtain errs' where "for_pods f wrap pods errs' (w\<lparr>w_api := s\<rparr>) = ([], w')" by blast
    from Cons.IH [OF this, of j] Suc Cons.prems(2) f show ?thesis by simp
  qed
qed simp

section \<open>Outcome of a drain\<close>

lemma splitDrainCandidates_empty:
  "splitDrainCandidates pods = (a, t) \<Longrightarrow> a = [] \<and> t = [] \<longleftrightarrow> pods = []"
  by (auto simp: splitDrainCandidates_def filter_empty_conv)

lemma GetPodsForDrain_eq:
  "c_ListPods cl n (w_api w) = (Inr pods, s) \<Longrightarrow>
   GetPodsForDrain cl n w = (Inr (filter drainable pods), w\<lparr>w_api := s\<rparr>)"
  by (simp add: GetPodsForDrain_def api_def)

lemma EnsureDrain_empty:
  assumes "c_ListPods (dp_Client params) (n_Name (w_node w)) (w_api w) = (Inr pods, s)"
    and "filter drainable pods = []"
  shows "EnsureDrain sv params w = Some ((True, None), w\<lparr>w_api := s\<rparr>)"
  using assms by (simp add: EnsureDrain_def GetPodsForDrain_eq splitDrainCandidates_def)

lemma EnsureDrain_pending:
  assumes l: "c_ListPods (dp_Client params) (n_Name (w_node w)) (w_api w) = (Inr pods, s)"
    and ne: "filter drainable pods \<noteq> []"
    and run: "EnsureDrain sv params w = Some ((drained, err), w')"
  shows "\<not> drained"
proof -
  obtain a t where sp: "splitDrainCandidates (filter drainable pods) = (a, t)"
    by (cases "splitDrainCandidates (filter drainable pods)")
  with ne have at: "\<not> (a = [] \<and> t = [])" by (simp add: splitDrainCandidates_empty)
  note g = GetPodsForDrain_eq [OF l]
  from run g sp at obtain err1 w1 where "(drained, err) = (False, err1)"
    by (auto simp: EnsureDrain_def Let_def ne bind_eq_Some_conv simp del: filter_empty_conv split: option.splits)
  then show ?thesis by simp
qed

text \<open>A node counts as drained exactly when no pod is left that would have to go.\<close>

lemma EnsureDrain_drained_iff:
  assumes "EnsureDrain sv params w = Some ((drained, err), w')"
  shows "drained \<longleftrightarrow> (\<exists>pods s. c_ListPods (dp_Client params) (n_Name (w_node w)) (w_api w) = (Inr pods, s)
    \<and> filter drainable pods = [])"
proof (cases "c_ListPods (dp_Client params) (n_Name (w_node w)) (w_api w)")
  case (Pair r s)
  show ?thesis
  proof (cases r)
    case (Inl e)
    with assms Pair show ?thesis by (auto simp: EnsureDrain_def GetPodsForDrain_def api_def)
  next
    case (Inr pods)
    show ?thesis
    proof (cases "filter drainable pods = []")
      case True
      with assms Pair Inr EnsureDrain_empty [of params w pods s sv] show ?thesis by auto
    next
      case False
      with assms Pair Inr EnsureDrain_pending [of params w pods s sv] show ?thesis by auto
    qed
  qed
qed

lemma EnsureDrain_true:
  assumes "EnsureDrain sv params w = Some ((True, err), w')"
  shows "err = None"
proof -
  from EnsureDrain_drained_iff [OF assms] obtain pods s where
    l: "c_ListPods (dp_Client params) (n_Name (w_node w)) (w_api w) = (Inr pods, s)" and
    e: "filter drainable pods = []" by auto
  from EnsureDrain_empty [OF l e, of sv] assms show ?thesis by simp
qed

text \<open>The drain trigger succeeds on a drained node and otherwise asks for a retry.\<close>

lemma Eviction_drain_outcome:
  assumes "ev_Action e = Drain" and "Eviction_Trigger sv e p w = Some (err, w')"
  shows "(err = None \<longleftrightarrow> (\<exists>pods s. c_ListPods (P_Client p) (n_Name (w_node w)) (w_api w) = (Inr pods, s)
      \<and> filter drainable pods = [])) \<and> (\<forall>er. err = Some er \<longrightarrow> as_RetryError er)"
proof -
  let ?dp = "\<lparr>dp_AwaitDeletion = \<lparr>wp_Period = defaultPeriod, wp_Timeout = ev_DeletionTimeout e\<rparr>,
    dp_Eviction = \<lparr>wp_Period = defaultPeriod, wp_Timeout = ev_EvictionTimeout e\<rparr>,
    dp_Client = P_Client p, dp_ForceEviction = ev_ForceEviction e,
    dp_GracePeriodSeconds = None, dp_Recorder = True\<rparr>"
  let ?w = "set_unschedulable True w"
  from assms obtain drained err1 w1 where d: "EnsureDrain sv ?dp ?w = Some ((drained, err1), w1)"
    by (auto simp: Eviction_Trigger_def bind_eq_Some_conv)
  have "err1 = None" if drained
    by (rule EnsureDrain_true [of sv ?dp ?w]) (use d that in simp)
  with assms d have "err = None \<longleftrightarrow> drained" "\<forall>er. err = Some er \<longrightarrow> as_RetryError er"
    by (auto simp: Eviction_Trigger_def split: option.splits if_splits)
  with EnsureDrain_drained_iff [OF d] show ?thesis by (simp add: set_unschedulable_def)
qed

text \<open>
  A drain changes the world only through the clock, the events and five requests of the
  client. What these respect, every step of a drain respects.
\<close>

locale drain_relation =
  fixes cl :: "'s client" and R :: "'s world \<Rightarrow> 's world \<Rightarrow> bool"
  assumes R_refl [simp]: "R w w"
    and R_trans: "R w1 w2 \<Longrightarrow> R w2 w3 \<Longrightarrow> R w1 w3"
    and R_now: "time_Now w = (t, w') \<Longrightarrow> R w w'"
    and R_event: "R w (emit_event obj reason note w)"
    and R_list: "api (c_ListPods cl n) w = (pods, w') \<Longrightarrow> R w w'"
    and R_delete: "api (c_DeletePod cl pod g) w = (u, w') \<Longrightarrow> R w w'"
    and R_evict: "api (cs_EvictV1 cl pod g) w = (u, w') \<Longrightarrow> R w w'"
    and R_evict_beta: "api (cs_EvictV1beta1 cl pod g) w = (u, w') \<Longrightarrow> R w w'"
    and R_version: "api (cs_ServerVersion cl) w = (v, w') \<Longrightarrow> R w w'"
begin

lemma for_pods_R:
  assumes "\<And>pod w u w'. api (f pod) w = (u, w') \<Longrightarrow> R w w'"
  shows "for_pods f wrap pods errs w = (errs', w') \<Longrightarrow> R w w'"
proof (induction pods arbitrary: errs w)
  case (Cons pod pods)
  obtain u w1 where f: "api (f pod) w = (u, w1)" by (cases "api (f pod) w")
  with Cons.prems obtain errs1 where "for_pods f wrap pods errs1 w1 = (errs', w')" by (cases u) auto
  from R_trans [OF assms [OF f] Cons.IH [OF this]] show ?case .
qed simp

lemma deletePods_R: "deletePods cl pods g w = (r, w') \<Longrightarrow> R w w'"
  by (auto simp: deletePods_def split: prod.splits intro: for_pods_R dest: R_delete)

lemma evictPod_R: "api (evictPod cl v g pod) w = (u, w') \<Longrightarrow> R w w'"
proof (cases v)
  case none
  then have "evictPod cl v g pod = (\<lambda>s. (Inr (), s))" by (auto intro: ext)
  then show "api (evictPod cl v g pod) w = (u, w') \<Longrightarrow> R w w'" by (simp add: api_def)
next
  case v1beta1
  then have "evictPod cl v g pod = cs_EvictV1beta1 cl pod g" by (auto intro: ext)
  then show "api (evictPod cl v g pod) w = (u, w') \<Longrightarrow> R w w'" using R_evict_beta by simp
next
  case v1
  then have "evictPod cl v g pod = cs_EvictV1 cl pod g" by (auto intro: ext)
  then show "api (evictPod cl v g pod) w = (u, w') \<Longrightarrow> R w w'" using R_evict by simp
qed

lemma evictPods_R: "evictPods cl pods v g w = (r, w') \<Longrightarrow> R w w'"
  by (auto simp: evictPods_def split: prod.splits if_splits intro: for_pods_R dest: evictPod_R)

lemma fold_recordDrainEvent_R: "R w (fold (\<lambda>pod. recordDrainEvent b pod r n) pods w)"
proof (induction pods arbitrary: w)
  case (Cons pod pods)
  have "R w (recordDrainEvent b pod r n w)" by (simp add: recordDrainEvent_def R_event)
  from R_trans [OF this Cons] show ?case by simp
qed simp

lemma GetPodsForDrain_R: "GetPodsForDrain cl n w = (r, w') \<Longrightarrow> R w w'"
  by (auto simp: GetPodsForDrain_def split: prod.splits sum.splits dest: R_list)

lemma fetchEvictionVersion_R:
  assumes "fetchEvictionVersion sv cl w = Some (r, w')"
  shows "R w w'"
proof -
  from assms obtain res w1 where g: "GetAPIServerVersion sv cl w = Some (res, w1)"
    by (auto simp: fetchEvictionVersion_def bind_eq_Some_conv)
  then have "R w w1"
    by (auto simp: GetAPIServerVersion_def dest!: R_version split: prod.splits sum.splits list.splits)
  moreover have "w' = w1"
    using assms g by (cases res) (auto simp: fetchEvictionVersion_def bind_eq_Some_conv split: if_splits)
  ultimately show ?thesis by simp
qed

lemma force_delete_R:
  assumes "dp_Client params = cl"
  shows "R w (force_delete params ts w)"
proof -
  obtain now w1 where now: "time_Now w = (now, w1)" by (cases "time_Now w")
  let ?ps = "filter (grace_exceeded now) ts"
  let ?w2 = "fold (\<lambda>pod. recordDrainEvent (dp_Recorder params) pod ''ForceDeleting''
    ''Force deleting pod that exceeded grace period during node drain'') ?ps w1"
  obtain u w3 where del: "deletePods cl ?ps (Some 0) ?w2 = (u, w3)" by (cases "deletePods cl ?ps (Some 0) ?w2")
  have "R w w1" by (rule R_now [OF now])
  moreover have "R w1 w3" by (rule R_trans [OF fold_recordDrainEvent_R deletePods_R [OF del]])
  ultimately show ?thesis
    using assms now del R_trans by (auto simp: force_delete_def Let_def)
qed

lemma EnsureDrain_R:
  assumes run: "EnsureDrain sv params w = Some (r, w')" and cl: "dp_Client params = cl"
  shows "R w w'"
proof -
  obtain got w1 where g: "GetPodsForDrain cl (n_Name (w_node w)) w = (got, w1)"
    by (cases "GetPodsForDrain cl (n_Name (w_node w)) w")
  note w1 = GetPodsForDrain_R [OF g]
  show ?thesis
  proof (cases got)
    case (Inl e)
    with run g w1 cl show ?thesis by (auto simp: EnsureDrain_def)
  next
    case (Inr pending)
    obtain a t where sp: "splitDrainCandidates pending = (a, t)" by (cases "splitDrainCandidates pending")
    let ?w2 = "force_delete params t w1"
    note w2 = R_trans [OF w1 force_delete_R [OF cl, of w1 t]]
    show ?thesis
    proof (cases "a = []")
      case True
      with run g Inr sp w1 w2 cl show ?thesis by (auto simp: EnsureDrain_def Let_def split: if_splits)
    next
      case False
      with run g Inr sp cl obtain res w3 where f: "fetchEvictionVersion sv cl ?w2 = Some (res, w3)"
        by (auto simp: EnsureDrain_def Let_def bind_eq_Some_conv)
      note w3 = R_trans [OF w2 fetchEvictionVersion_R [OF f]]
      show ?thesis
      proof (cases res)
        case inl: (Inl e)
        with run g Inr sp False f w3 cl show ?thesis by (auto simp: EnsureDrain_def Let_def)
      next
        case inr: (Inr version)
        let ?w4 = "fold (\<lambda>pod. recordDrainEvent (dp_Recorder params) pod ''Evicting''
          ''Evicting pod during node drain'') a w3"
        let ?act = "if version = none then deletePods cl a (dp_GracePeriodSeconds params) ?w4
          else evictPods cl a version (dp_GracePeriodSeconds params) ?w4"
        obtain err w5 where act: "?act = (err, w5)" by (cases ?act)
        then have "R ?w4 w5" by (auto split: if_splits dest: deletePods_R evictPods_R)
        from R_trans [OF w3 R_trans [OF fold_recordDrainEvent_R this]] have "R w w5" .
        moreover have "w' = w5"
          using run g Inr sp False f inr act cl
          by (cases err) (auto simp: EnsureDrain_def Let_def simp del: if_split split: if_split_asm)
        ultimately show ?thesis by simp
      qed
    qed
  qed
qed

end

text \<open>A drain works on pods; the node object is not changed by it.\<close>

interpretation drain_node: drain_relation cl same_node for cl
  by unfold_locales (auto simp: same_node_def api_def time_Now_def emit_event_def split: prod.splits)

lemma EnsureDrain_node: "EnsureDrain sv params w = Some (r, w') \<Longrightarrow> w_node w' = w_node w"
  using drain_node.EnsureDrain_R [OF _ refl] by (simp add: same_node_def)

lemma Eviction_marks_node:
  assumes "Eviction_Trigger sv e p w = Some (err, w')" and "ev_Action e \<in> {Drain, Cordon, Uncordon}"
  shows "w_node w' = (w_node w)\<lparr>n_Unschedulable := (ev_Action e \<noteq> Uncordon)\<rparr>"
proof (cases "ev_Action e = Drain")
  case True
  with assms(1) obtain r where "EnsureDrain sv
      \<lparr>dp_AwaitDeletion = \<lparr>wp_Period = defaultPeriod, wp_Timeout = ev_DeletionTimeout e\<rparr>,
       dp_Eviction = \<lparr>wp_Period = defaultPeriod, wp_Timeout = ev_EvictionTimeout e\<rparr>,
       dp_Client = P_Client p, dp_ForceEviction = ev_ForceEviction e,
       dp_GracePeriodSeconds = None, dp_Recorder = True\<rparr> (set_unschedulable True w) = Some (r, w')"
    by (auto simp: Eviction_Trigger_def bind_eq_Some_conv split: option.splits if_splits)
  from EnsureDrain_node [OF this] True show ?thesis by (simp add: set_unschedulable_def)
next
  case False
  with assms show ?thesis by (auto simp: Eviction_Trigger_def set_unschedulable_def)
qed

text \<open>A failed request for a pod counts as its deletion.\<close>

lemma pod_gone_on_error:
  "c_GetPod cl (p_Namespace pod, p_Name pod) s = (Inl e, s') \<Longrightarrow> p_UID pod \<noteq> [] \<Longrightarrow>
   pod_gone cl pod s = (Inr True, s')"
  by (simp add: pod_gone_def)

end
