(* ===== verification/Scenario.thy ===== *)
theory Scenario
  imports TimePlugins Drain
begin

text \<open>
  Concrete objects on which the properties of the development are instantiated: an API server
  that answers every request with an error, a node with two maintenance profiles, plugins that
  succeed, fail and ask for a retry, and configurations built from them.
\<close>

definition offline :: "('s, 'a) request" where
  "offline s = (Inl (ErrorString ''offline''), s)"

definition demo_client :: "'s client" where
  "demo_client = \<lparr>c_ListNodes = (\<lambda>_. offline), c_ListPods = (\<lambda>_. offline), c_GetNode = (\<lambda>_. offline),
     c_PatchNode = (\<lambda>_ _. offline), c_GetLease = (\<lambda>_. offline), c_CreateLease = (\<lambda>_. offline),
     c_PatchLease = (\<lambda>_ _. offline), c_GetPod = (\<lambda>_. offline), c_DeletePod = (\<lambda>_ _. offline),
     c_GetDaemonSet = (\<lambda>_. offline), c_GetReplicaSet = (\<lambda>_. offline), c_GetDeployment = (\<lambda>_. offline),
     c_GetStatefulSet = (\<lambda>_. offline), cs_ServerVersion = offline, cs_EvictV1 = (\<lambda>_ _. offline),
     cs_EvictV1beta1 = (\<lambda>_ _. offline)\<rparr>"

text \<open>An API server that serves the given nodes and pods and accepts evictions and patches.\<close>

definition demo_cluster :: "node list \<Rightarrow> pod list \<Rightarrow> 's client" where
  "demo_cluster nodes pods = demo_client\<lparr>c_ListNodes := (\<lambda>_ s. (Inr nodes, s)), c_ListPods := (\<lambda>_ s. (Inr pods, s)),
     c_GetDaemonSet := (\<lambda>(ns, n) s. (Inr \<lparr>ds_Name = n, ds_NumberReady = 3\<rparr>, s)),
     c_PatchNode := (\<lambda>n _ s. (Inr n, s)), cs_ServerVersion := (\<lambda>s. (Inr ''v1.31.0'', s)),
     cs_EvictV1 := (\<lambda>_ _ s. (Inr (), s)), c_DeletePod := (\<lambda>_ _ s. (Inr (), s))\<rparr>"

definition demo_pod :: "string \<Rightarrow> (string \<times> string) list \<Rightarrow> pod" where
  "demo_pod name owners = \<lparr>p_Name = name, p_Namespace = ''default'', p_UID = name, p_PodIP = [], p_Annotations = None,
     p_OwnerReferences = map (\<lambda>(k, n). \<lparr>o_Kind = k, o_Name = n\<rparr>) owners, p_DeletionTimestamp = None,
     p_DeletionGracePeriodSeconds = None, p_Affinity = None\<rparr>"

definition demo_node :: "string \<Rightarrow> node" where
  "demo_node profiles = \<lparr>n_Name = ''node1'', n_Labels = Some [(ProfileLabelKey, profiles)],
     n_Annotations = None, n_Finalizers = [], n_Unschedulable = False, n_Conditions = [],
     n_ResourceVersion = ''1'', n_KubeletVersion = ''v1.31.0''\<rparr>"

definition world_of :: "'s \<Rightarrow> string \<Rightarrow> 's world" where
  "world_of s profiles = \<lparr>w_api = s, w_node = demo_node profiles, w_now = 63800000000000000000,
     w_local = 0, w_ticks = [], w_failures = [], w_shuffles = [], w_events = [], w_grab = (\<lambda>_. 0),
     w_sent = []\<rparr>"

definition demo_world :: "string \<Rightarrow> unit world" where
  "demo_world = world_of ()"

definition demo_check :: "bool \<Rightarrow> unit check_instance" where
  "demo_check b = \<lparr>ci_Plugin = \<lparr>Check = (\<lambda>p w. Some ((if b then Passed None else Failed None, None), w)),
     c_ID = ''demo'', OnTransition = (\<lambda>p w. Some (None, w))\<rparr>, ci_Name = ''demo''\<rparr>"

definition demo_chain :: "bool \<Rightarrow> unit check_chain" where
  "demo_chain b = \<lparr>cc_Plugins = [demo_check b],
     cc_Evaluable = Some (\<lambda>ps. Inr (map_of ps ''demo'' = Some True)), cc_Expression = ''demo''\<rparr>"

definition broken_check :: "unit check_instance" where
  "broken_check = \<lparr>ci_Plugin = \<lparr>Check = (\<lambda>p w. Some ((Failed None, Some (ErrorString ''broken'')), w)),
     c_ID = ''broken'', OnTransition = (\<lambda>p w. Some (None, w))\<rparr>, ci_Name = ''broken''\<rparr>"

definition broken_chain :: "unit check_chain" where
  "broken_chain = \<lparr>cc_Plugins = [broken_check], cc_Evaluable = Some (\<lambda>ps. Inr False), cc_Expression = ''broken''\<rparr>"

text \<open>A trigger that returns the given error, or succeeds.\<close>

definition demo_trigger :: "error option \<Rightarrow> unit trigger_instance" where
  "demo_trigger err = \<lparr>ti_Plugin = \<lparr>Trigger = (\<lambda>p w. Some (err, w)), t_ID = ''demo''\<rparr>, ti_Name = ''demo''\<rparr>"

definition edge :: "unit check_chain \<Rightarrow> unit trigger_chain \<Rightarrow> NodeStateLabel \<Rightarrow> unit transition" where
  "edge cs ts l = \<lparr>tr_Check = cs, tr_Trigger = ts, tr_Next = l\<rparr>"

definition demo_chains :: "unit trigger_chain \<Rightarrow> unit transition list \<Rightarrow> unit plugin_chains" where
  "demo_chains enter ts = \<lparr>pc_Enter = enter, pc_Notification = [], pc_Transitions = ts\<rparr>"

text \<open>A profile that runs through the whole cycle, with the given \<open>Enter\<close> chain in maintenance.\<close>

definition cycle_profile :: "string \<Rightarrow> unit trigger_chain \<Rightarrow> unit profile" where
  "cycle_profile name enter = \<lparr>pf_Name = name, pf_Chains =
     [(Operational, demo_chains [] [edge (demo_chain True) [demo_trigger None] Required]),
      (Required, demo_chains [] [edge (demo_chain True) [demo_trigger None] InMaintenance]),
      (InMaintenance, demo_chains enter [edge (demo_chain True) [] Operational])]\<rparr>"

definition demo_config :: "unit profile list \<Rightarrow> (unit, unit) config" where
  "demo_config ps = \<lparr>RequeueInterval = Minute, Profiles = Some (map (\<lambda>p. (pf_Name p, p)) ps),
     cfg_Registry = NewRegistry, DashboardLabelFilter = []\<rparr>"

definition demo_rp :: "unit profile list \<Rightarrow> (unit, unit) reconcile_params" where
  "demo_rp ps = \<lparr>rp_client = demo_client, rp_config = demo_config ps\<rparr>"

definition demo_data :: "(string \<times> NodeStateLabel \<times> NodeStateLabel) list \<Rightarrow> data" where
  "demo_data es = \<lparr>d_Profiles = Some (map (\<lambda>(n, cur, prev).
       (n, Some \<lparr>pd_Transition = zero_time, pd_Current = cur, pd_Previous = prev\<rparr>)) es),
     d_Notifications = Some []\<rparr>"

definition demo_state :: "string \<Rightarrow> (string \<times> NodeStateLabel \<times> NodeStateLabel) list \<Rightarrow> unit handler_state" where
  "demo_state profiles es = \<lparr>hs_data = demo_data es, hs_cache = gm_make, hs_world = demo_world profiles\<rparr>"

definition demo_params :: "string \<Rightarrow> bool \<Rightarrow> unit params" where
  "demo_params prof inM = \<lparr>P_State = Operational, P_Profile = prof, P_InMaintenance = inM,
     P_LogDetails = False, P_Client = demo_client, P_LastTransition = zero_time\<rparr>"

section \<open>Observations\<close>

text \<open>What a run of \<open>HandleNode\<close> shows: the error flag and the states of the profiles.\<close>

definition observe ::
    "string list \<Rightarrow> (error option \<times> 's handler_state) option \<Rightarrow> (bool \<times> (NodeStateLabel \<times> NodeStateLabel) option list) option" where
  "observe names res = map_option (\<lambda>(err, h). (err = None,
     map (\<lambda>n. case gm_get (d_Profiles (hs_data h)) n of
       Some (Some pd) \<Rightarrow> Some (pd_Current pd, pd_Previous pd) | _ \<Rightarrow> None) names)) res"

lemma observe_ok:
  assumes "observe names res = Some (b, xs)"
  obtains err h where "res = Some (err, h)" "b \<longleftrightarrow> err = None"
  using assms by (cases res) (auto simp: observe_def)

text \<open>One profile goes from operational through the cycle in three reconciliations.\<close>

lemma cycle_run:
  "observe [''a''] (HandleNode (demo_rp [cycle_profile ''a'' []]) (demo_state ''a'' []))
     = Some (True, [Some (Required, Operational)])"
  "observe [''a''] (HandleNode (demo_rp [cycle_profile ''a'' []]) (demo_state ''a'' [(''a'', Required, Operational)]))
     = Some (True, [Some (InMaintenance, Required)])"
  "observe [''a''] (HandleNode (demo_rp [cycle_profile ''a'' []]) (demo_state ''a'' [(''a'', InMaintenance, Required)]))
     = Some (True, [Some (Operational, InMaintenance)])"
  by code_simp+

section \<open>The sample configurations are well formed\<close>

lemma gm_all_Some: "\<forall>(k, v) \<in> set al. P k v \<Longrightarrow> gm_all P (Some al)"
  by (auto simp: gm_all_def gm_get_def dest: map_of_SomeD)

lemmas demo_defs = cycle_profile_def demo_chains_def edge_def demo_chain_def demo_check_def demo_trigger_def

lemma cycle_profile_ok: "profile_ok (cycle_profile n enter)"
  by (auto simp: profile_ok_def demo_defs chains_ok_def transition_ok_def valid_labels_def)

lemma demo_config_ok: "\<forall>pf \<in> set pfs. profile_ok pf \<Longrightarrow> config_ok (demo_config pfs)"
  by (auto simp: config_ok_def demo_config_def intro!: gm_all_Some)

lemma demo_config_named: "named_by_key (Profiles (demo_config pfs))"
  by (auto simp: demo_config_def named_by_key_def gm_get_def dest!: map_of_SomeD)

lemma cycle_profile_returns:
  assumes "\<And>w. R w w"
  shows "config_returns R (demo_config [cycle_profile n (map demo_trigger errs)])"
  unfolding config_returns_def demo_config_def config.select_convs
  using assms
  by (intro gm_all_Some) (auto simp: demo_defs chains_return_def triggers_return_def checks_return_def returns_def)

lemma demo_state_simps [simp]:
  "hs_data (demo_state s es) = demo_data es" "hs_world (demo_state s es) = demo_world s"
  "hs_cache (demo_state s es) = gm_make"
  by (simp_all add: demo_state_def)

lemma demo_rp_config [simp]: "rp_config (demo_rp ps) = demo_config ps"
  by (simp add: demo_rp_def)

lemma demo_label [simp]: "profiles_label (demo_world s) = s"
  by (simp add: profiles_label_def demo_world_def world_of_def demo_node_def gm_str_def gm_get_def)

lemma demo_data_ok:
  "\<forall>(n, cur, prev) \<in> set es. cur \<in> valid_labels \<and> prev \<in> valid_labels \<Longrightarrow> data_ok (demo_data es)"
  unfolding data_ok_def demo_data_def data.select_convs by (intro gm_all_Some) auto

end
