(* ===== verification/Progress.thy ===== *)
theory Progress
  imports Safety
begin

text \<open>
  What the controller does when its plugins cooperate: an abstract machine that moves all
  profiles of a node at once along the first transition whose check passes, and the refinement
  of this machine by \<open>HandleNode\<close>. Iterated, it gives the progress of profiles over several
  reconciliations, which needs that the plugins return, that triggers, notifications and hooks
  report no error, and that the checks give the verdicts the machine is run with.
\<close>

section \<open>The abstract machine\<close>

type_synonym verdicts = "string \<Rightarrow> NodeStateLabel \<Rightarrow> bool list"

text \<open>The first transition whose check passes, entering maintenance only when nobody is in it.\<close>

fun first_target :: "bool \<Rightarrow> 's transition list \<Rightarrow> bool list \<Rightarrow> NodeStateLabel option" where
  "first_target anyM (t # ts) (b # bs) =
     (if b \<and> \<not> (tr_Next t = InMaintenance \<and> anyM) then Some (tr_Next t) else first_target anyM ts bs)"
| "first_target anyM _ _ = None"

definition move :: "'s profile \<Rightarrow> bool list \<Rightarrow> bool \<Rightarrow> NodeStateLabel \<Rightarrow> NodeStateLabel" where
  "move pf bs anyM l =
     (case map_of (pf_Chains pf) l of
        None \<Rightarrow> l
      | Some c \<Rightarrow> (case first_target anyM (pc_Transitions c) bs of None \<Rightarrow> l | Some l' \<Rightarrow> l'))"

definition active :: "('s, 'c) config \<Rightarrow> string \<Rightarrow> string set" where
  "active cfg label = {n \<in> label_names label. gm_get (Profiles cfg) n \<noteq> None}"

definition machine_step ::
    "('s, 'c) config \<Rightarrow> string \<Rightarrow> verdicts \<Rightarrow> (string \<Rightarrow> NodeStateLabel) \<Rightarrow> string \<Rightarrow> NodeStateLabel" where
  "machine_step cfg label verdict s n =
     (if n \<in> active cfg label
      then move (the (gm_get (Profiles cfg) n)) (verdict n (s n)) (\<exists>m \<in> active cfg label. s m = InMaintenance) (s n)
      else s n)"

text \<open>A profile without an entry starts operational.\<close>

definition abs_state :: "data \<Rightarrow> string \<Rightarrow> NodeStateLabel" where
  "abs_state d n = (case gm_get (d_Profiles d) n of Some (Some pd) \<Rightarrow> pd_Current pd | _ \<Rightarrow> Operational)"

section \<open>Cooperating plugins\<close>

definition never_fails :: "('s, error option) plugin_method \<Rightarrow> bool" where
  "never_fails m \<longleftrightarrow> (\<forall>p w err w'. m p w = Some (err, w') \<longrightarrow> err = None)"

definition answers :: "'s transition \<Rightarrow> bool \<Rightarrow> bool" where
  "answers t b \<longleftrightarrow> (\<forall>p w r err w'. CheckChain_Execute (tr_Check t) p w = Some ((r, err), w') \<longrightarrow> err = None \<and> ccr_Passed r = b)"

definition cooperative_chains :: "bool list \<Rightarrow> 's plugin_chains \<Rightarrow> bool" where
  "cooperative_chains bs c \<longleftrightarrow> (\<forall>i \<in> set (pc_Enter c). never_fails (Trigger (ti_Plugin i)))
     \<and> (\<forall>n \<in> set (pc_Notification c). ni_Schedule n \<noteq> None \<and> never_fails (Notify (ni_Plugin n)))
     \<and> list_all2 answers (pc_Transitions c) bs
     \<and> (\<forall>t \<in> set (pc_Transitions c). (\<forall>i \<in> set (tr_Trigger t). never_fails (Trigger (ti_Plugin i)))
          \<and> (\<forall>i \<in> set (cc_Plugins (tr_Check t)). never_fails (OnTransition (ci_Plugin i))))"

definition cooperative :: "verdicts \<Rightarrow> ('s, 'c) config \<Rightarrow> bool" where
  "cooperative verdict cfg \<longleftrightarrow>
     gm_all (\<lambda>k pf. \<forall>(l, c) \<in> set (pf_Chains pf). cooperative_chains (verdict k l) c) (Profiles cfg)"

lemma never_failsD: "never_fails m \<Longrightarrow> m p w = Some (err, w') \<Longrightarrow> err = None"
  unfolding never_fails_def by blast

lemma answersD:
  "answers t b \<Longrightarrow> CheckChain_Execute (tr_Check t) p w = Some ((r, err), w') \<Longrightarrow> err = None \<and> ccr_Passed r = b"
  unfolding answers_def by blast

lemma TriggerChain_ok:
  "\<forall>i \<in> set ts. never_fails (Trigger (ti_Plugin i)) \<Longrightarrow> TriggerChain_Execute ts p w = Some (err, w') \<Longrightarrow> err = None"
proof (induction ts arbitrary: w)
  case (Cons t ts)
  from Cons.prems obtain e w1 where t: "Trigger (ti_Plugin t) p w = Some (e, w1)" by (auto simp: bind_eq_Some_conv)
  have "never_fails (Trigger (ti_Plugin t))" using Cons.prems(1) by simp
  from Cons never_failsD [OF this t] t show ?case by auto
qed simp

lemma run_hooks_ok:
  "\<forall>i \<in> set cs. never_fails (OnTransition (ci_Plugin i)) \<Longrightarrow> run_hooks cs p w = Some (err, w') \<Longrightarrow> err = None"
proof (induction cs arbitrary: w)
  case (Cons c cs)
  from Cons.prems obtain e w1 where h: "OnTransition (ci_Plugin c) p w = Some (e, w1)" by (auto simp: bind_eq_Some_conv)
  have "never_fails (OnTransition (ci_Plugin c))" using Cons.prems(1) by simp
  from Cons never_failsD [OF this h] h show ?case by auto
qed simp

text \<open>The transitions give the verdicts, up to the guard of maintenance.\<close>

definition reported :: "bool \<Rightarrow> 's transition \<Rightarrow> bool \<Rightarrow> transition_result \<Rightarrow> bool" where
  "reported anyM t b r \<longleftrightarrow> trr_Target r = tr_Next t \<and> (trr_Passed r \<longleftrightarrow> b \<and> \<not> (tr_Next t = InMaintenance \<and> anyM))"

lemma Transition_Execute_ok:
  assumes "answers t b" and "Transition_Execute t p w = Some ((r, err), w')"
  shows "err = None \<and> reported (P_InMaintenance p) t b r"
proof -
  from assms(2) obtain cr e w1 where c: "CheckChain_Execute (tr_Check t) p w = Some ((cr, e), w1)"
    by (auto simp: Transition_Execute_def bind_eq_Some_conv)
  from answersD [OF assms(1) c] have "e = None" "ccr_Passed cr = b" by simp_all
  with c assms(2) show ?thesis by (auto simp: Transition_Execute_def reported_def split: if_splits)
qed

lemma first_target_cases:
  "first_target anyM (t # ts) bs = (case bs of [] \<Rightarrow> None | b # bs' \<Rightarrow>
     if b \<and> \<not> (tr_Next t = InMaintenance \<and> anyM) then Some (tr_Next t) else first_target anyM ts bs')"
  by (cases bs) simp_all

lemma exec_transitions_ok:
  "list_all2 answers ts bs \<Longrightarrow> exec_transitions ts p (rs0, es0) w = Some ((rs, es), w') \<Longrightarrow>
   \<exists>rs1. rs = rs0 @ rs1 \<and> es = es0 \<and> length rs1 = length ts \<and> first_passed rs1 = first_target (P_InMaintenance p) ts bs"
proof (induction ts bs arbitrary: rs0 w rule: list_all2_induct)
  case (Cons t ts b bs)
  then obtain r err w1 where t: "Transition_Execute t p w = Some ((r, err), w1)"
    and rest: "exec_transitions ts p (rs0 @ [r], case err of None \<Rightarrow> es0 | Some e \<Rightarrow> es0 @ [e]) w1 = Some ((rs, es), w')"
    by (auto simp: bind_eq_Some_conv)
  from Transition_Execute_ok [OF Cons.hyps(1) t] have e: "err = None" and r: "reported (P_InMaintenance p) t b r" by simp_all
  from Cons.IH [OF rest [unfolded e, simplified]] r show ?case by (auto simp: reported_def)
qed simp

lemma pick_transition_ok:
  "\<forall>t \<in> set ts. \<forall>i \<in> set (cc_Plugins (tr_Check t)). never_fails (OnTransition (ci_Plugin i)) \<Longrightarrow>
   pick_transition (zip ts rs) final p w = Some ((res, err), w') \<Longrightarrow> err = None"
proof (induction ts arbitrary: rs)
  case (Cons t ts)
  show ?case
  proof (cases rs)
    case (Cons r rs')
    show ?thesis
    proof (cases "trr_Passed r")
      case True
      with Cons.prems Cons obtain e w1 where h: "run_hooks (cc_Plugins (tr_Check t)) p w = Some (e, w1)"
        by (auto simp: bind_eq_Some_conv)
      have "e = None" by (rule run_hooks_ok [OF _ h]) (use Cons.prems(1) in simp)
      with h True Cons Cons.prems(2) show ?thesis by simp
    qed (use Cons Cons.prems Cons.IH [of rs'] in simp)
  qed (use Cons.prems in simp)
qed simp

lemma NodeState_Transition_ok:
  assumes c: "cooperative_chains bs (NodeState_chains st)"
    and run: "NodeState_Transition st p w = Some ((res, err), w')"
  shows "err = None \<and> ts_Next res = (case first_target (P_InMaintenance p) (pc_Transitions (NodeState_chains st)) bs of
    None \<Rightarrow> NodeState_Label st | Some l \<Rightarrow> l)"
proof -
  let ?ts = "pc_Transitions (NodeState_chains st)"
  from run obtain rs es w1 where ex: "exec_transitions ?ts p ([], []) w = Some ((rs, es), w1)"
    by (auto simp: NodeState_Transition_def transitionDefault_def bind_eq_Some_conv)
  have a: "list_all2 answers ?ts bs" using c by (simp add: cooperative_chains_def)
  from exec_transitions_ok [OF a ex] have rs: "es = []" "length rs = length ?ts"
    "first_passed rs = first_target (P_InMaintenance p) ?ts bs" by auto
  with run ex have pick: "pick_transition (zip ?ts rs) \<lparr>ts_Next = NodeState_Label st, ts_Infos = rs\<rparr> p w1 = Some ((res, err), w')"
    by (simp add: NodeState_Transition_def transitionDefault_def Let_def errors_Join_def)
  have "err = None" by (rule pick_transition_ok [OF _ pick]) (use c in \<open>simp add: cooperative_chains_def\<close>)
  with pick_transition_spec [OF rs(2) [symmetric] pick] rs(3) show ?thesis by (auto split: option.splits)
qed

lemma notify_instance_ok:
  assumes n: "ni_Schedule n \<noteq> None" "never_fails (Notify (ni_Plugin n))"
    and pd: "gm_get (d_Profiles d) (P_Profile p) = Some (Some pd)" and run: "notify_instance p d n w = Some ((err, d'), w')"
  shows "err = None"
proof -
  from n(1) obtain sched where s: "ni_Schedule n = Some sched" by blast
  obtain now w1 where now: "time_Now w = (now, w1)" by fastforce
  from run s obtain ns where ns: "(case gm_get (d_Notifications d) (ni_Name n) of
      None \<Rightarrow> gm_put (ni_Name n) zero_time (d_Notifications d) | Some _ \<Rightarrow> Some (d_Notifications d)) = Some ns"
    by (auto simp: notify_instance_def bind_eq_Some_conv)
  let ?sp = "\<lparr>sn_Current = \<lparr>nd_State = pd_Current pd, nd_Time = UTC now\<rparr>,
    sn_Last = \<lparr>nd_State = pd_Previous pd, nd_Time = (case gm_get ns (ni_Name n) of None \<Rightarrow> zero_time | Some t \<Rightarrow> t)\<rparr>,
    sn_StateChange = pd_Transition pd\<rparr>"
  obtain b w2 where sn: "ShouldNotify sched ?sp w1 = (b, w2)" by fastforce
  note eqs = s ns now pd sn
  show ?thesis
  proof (cases b)
    case True
    with run eqs obtain e w3 where e: "Notify (ni_Plugin n) p w2 = Some (e, w3)"
      by (auto simp: notify_instance_def Let_def bind_eq_Some_conv)
    from never_failsD [OF n(2) e] run eqs True e show ?thesis
      by (auto simp: notify_instance_def Let_def bind_eq_Some_conv)
  qed (use run eqs in \<open>simp add: notify_instance_def Let_def\<close>)
qed

lemma notifyDefault_ok:
  "\<forall>n \<in> set ns. ni_Schedule n \<noteq> None \<and> never_fails (Notify (ni_Plugin n)) \<Longrightarrow>
   gm_get (d_Profiles d) (P_Profile p) = Some (Some pd) \<Longrightarrow> notifyDefault p d ns w = Some ((err, d'), w') \<Longrightarrow> err = None"
proof (induction ns arbitrary: d w)
  case (Cons n ns)
  from Cons.prems(3) obtain e d1 w1 where n: "notify_instance p d n w = Some ((e, d1), w1)" by (auto simp: bind_eq_Some_conv)
  have e: "e = None" by (rule notify_instance_ok [OF _ _ Cons.prems(2) n]) (use Cons.prems(1) in simp_all)
  have "gm_get (d_Profiles d1) (P_Profile p) = Some (Some pd)" using notify_instance_frame(1) [OF n] Cons.prems(2) by simp
  from Cons.IH [OF _ this] Cons.prems(1,3) n e show ?case by simp
qed simp

lemma NodeState_Trigger_ok:
  assumes "\<forall>t \<in> set (pc_Transitions (NodeState_chains st)). \<forall>i \<in> set (tr_Trigger t). never_fails (Trigger (ti_Plugin i))"
    and "\<exists>t \<in> set (pc_Transitions (NodeState_chains st)). tr_Next t = next"
    and "NodeState_Trigger st next p w = Some (err, w')"
  shows "err = None"
proof -
  have "\<exists>t \<in> set ts. find_trigger ts next = Some t" if "\<exists>t \<in> set ts. tr_Next t = next" for ts :: "'a transition list"
    using that by (induction ts) auto
  from this [OF assms(2)] obtain t where t: "t \<in> set (pc_Transitions (NodeState_chains st))"
    and run: "TriggerChain_Execute (tr_Trigger t) p w = Some (err, w')"
    using assms(3) by (auto simp: NodeState_Trigger_def)
  show ?thesis by (rule TriggerChain_ok [OF _ run]) (use assms(1) t in blast)
qed

lemma first_target_edge: "first_target anyM ts bs = Some l \<Longrightarrow> \<exists>t \<in> set ts. tr_Next t = l"
  by (induction anyM ts bs rule: first_target.induct) (auto split: if_splits)

section \<open>One reconciliation\<close>

lemma NodeState_Enter_ok:
  assumes "\<forall>i \<in> set (pc_Enter (NodeState_chains st)). never_fails (Trigger (ti_Plugin i))"
    and "NodeState_Enter st p w = Some (err, w')"
  shows "err = None"
proof -
  from assms(2) obtain e w1 where t: "TriggerChain_Execute (pc_Enter (NodeState_chains st)) p w = Some (e, w1)"
    by (cases st) (auto simp: bind_eq_Some_conv)
  from TriggerChain_ok [OF assms(1) t] t assms(2) show ?thesis by (cases st) (auto simp: split_def)
qed

lemma Apply_ok:
  assumes c: "cooperative_chains bs (NodeState_chains st)"
    and pd: "gm_get (d_Profiles d) (P_Profile p) = Some (Some pd)"
    and run: "Apply st d p w = Some ((r, err), d', w')"
  shows "err = None \<and> ar_Next r = (case first_target (P_InMaintenance p) (pc_Transitions (NodeState_chains st)) bs of
    None \<Rightarrow> NodeState_Label st | Some l \<Rightarrow> l)"
proof -
  let ?r = "\<lparr>ar_Next = NodeState_Label st, ar_Transitions = [], ar_Error = []\<rparr>"
  let ?ts = "pc_Transitions (NodeState_chains st)"
  obtain e1 w1 where e1: "(if pd_Previous pd \<noteq> pd_Current pd then NodeState_Enter st p w else Some (None, w)) = Some (e1, w1)"
    using run pd by (auto simp: Apply_def Let_def bind_eq_Some_conv)
  moreover have "e1 = None"
    using e1 c by (auto simp: cooperative_chains_def split: if_splits dest: NodeState_Enter_ok)
  ultimately have ev: "Apply_evaluate st d p ?r w1 = Some ((r, err), d', w')"
    using run pd by (simp add: Apply_def Let_def)
  then obtain e2 d2 w2 where n: "NodeState_Notify st p d w1 = Some ((e2, d2), w2)"
    by (auto simp: Apply_evaluate_def bind_eq_Some_conv)
  have e2: "e2 = None"
    by (rule notifyDefault_ok [OF _ pd n [unfolded NodeState_Notify_def]]) (use c in \<open>simp add: cooperative_chains_def\<close>)
  with ev n obtain res e3 w3 where t: "NodeState_Transition st p w2 = Some ((res, e3), w3)"
    by (auto simp: Apply_evaluate_def bind_eq_Some_conv)
  from NodeState_Transition_ok [OF c t] have e3: "e3 = None"
    and next': "ts_Next res = (case first_target (P_InMaintenance p) ?ts bs of None \<Rightarrow> NodeState_Label st | Some l \<Rightarrow> l)"
    by simp_all
  have trig: "Apply_trigger st d2 p (?r\<lparr>ar_Transitions := ts_Infos res\<rparr>) (ts_Next res) w3 = Some ((r, err), d', w')"
    using ev n e2 t e3 by (simp add: Apply_evaluate_def Let_def)
  show ?thesis
  proof (cases "ts_Next res = NodeState_Label st")
    case True
    with trig next' show ?thesis by (auto simp: Apply_trigger_def)
  next
    case False
    with next' obtain l where "first_target (P_InMaintenance p) ?ts bs = Some l" "ts_Next res = l"
      by (auto split: option.splits)
    with first_target_edge have ex: "\<exists>t \<in> set ?ts. tr_Next t = ts_Next res" by blast
    from trig False obtain e4 w4 where t4: "NodeState_Trigger st (ts_Next res) p w3 = Some (e4, w4)"
      by (auto simp: Apply_trigger_def bind_eq_Some_conv)
    have "e4 = None" by (rule NodeState_Trigger_ok [OF _ ex t4]) (use c in \<open>simp add: cooperative_chains_def\<close>)
    with trig False t4 next' show ?thesis by (auto simp: Apply_trigger_def)
  qed
qed

text \<open>The chains of a profile in its state, and the move of the machine.\<close>

lemma chains_of_cooperative:
  assumes "cooperative verdict cfg" and "gm_get (Profiles cfg) (pf_Name (ps_Profile ps)) = Some (ps_Profile ps)"
    and "map_of (pf_Chains (ps_Profile ps)) (ps_State ps) = Some c"
  shows "cooperative_chains (verdict (pf_Name (ps_Profile ps)) (ps_State ps)) c"
  using assms by (force simp: cooperative_def gm_all_def dest: map_of_SomeD)

lemma cooperative_empty: "cooperative_chains [] empty_chains"
  by (simp add: cooperative_chains_def empty_chains_def)

lemma Apply_moves_profile:
  assumes co: "cooperative verdict cfg" and pf: "gm_get (Profiles cfg) (pf_Name (ps_Profile ps)) = Some (ps_Profile ps)"
    and st: "FromLabel (ps_State ps) (chains_of ps) = Inr st"
    and pd: "gm_get (d_Profiles d) (pf_Name (ps_Profile ps)) = Some (Some pd)"
    and run: "Apply st d (plugin_params rp all ps pd w) w = Some ((r, err), d', w')"
  shows "err = None \<and> ar_Next r =
    move (ps_Profile ps) (verdict (pf_Name (ps_Profile ps)) (ps_State ps)) (anyInMaintenance all) (ps_State ps)"
proof -
  from FromLabel_Inr [OF st] have l: "NodeState_Label st = ps_State ps" and c: "NodeState_chains st = chains_of ps" by simp_all
  have p: "P_Profile (plugin_params rp all ps pd w) = pf_Name (ps_Profile ps)"
    "P_InMaintenance (plugin_params rp all ps pd w) = anyInMaintenance all" by (simp_all add: plugin_params_def)
  show ?thesis
  proof (cases "map_of (pf_Chains (ps_Profile ps)) (ps_State ps)")
    case None
    then have "chains_of ps = empty_chains" by (simp add: chains_of_def)
    with c have ch: "NodeState_chains st = empty_chains" by simp
    from Apply_ok [OF _ _ run, of "[]" pd] cooperative_empty l p pd None show ?thesis
      by (simp add: ch) (simp add: move_def empty_chains_def)
  next
    case (Some ch)
    then have "chains_of ps = ch" by (simp add: chains_of_def)
    with c have ch: "NodeState_chains st = ch" by simp
    from Apply_ok [OF _ _ run, of "verdict (pf_Name (ps_Profile ps)) (ps_State ps)" pd]
      chains_of_cooperative [OF co pf Some] ch l p pd Some show ?thesis
      by (simp add: move_def split: option.splits)
  qed
qed

lemma apply_loop_ok:
  assumes co: "cooperative verdict cfg"
  shows "apply_loop rp all pss acc d w = Some (acc', d', w') \<Longrightarrow>
    \<forall>ps \<in> set pss. ps_State ps \<in> valid_labels \<and> gm_get (Profiles cfg) (pf_Name (ps_Profile ps)) = Some (ps_Profile ps) \<Longrightarrow>
    aa_errs acc' = aa_errs acc \<and> aa_retry acc' = aa_retry acc \<and>
    (\<exists>rs. aa_results acc' = aa_results acc @ rs \<and> list_all2 (\<lambda>ps r. pr_State r = ps_State ps \<and> ar_Next (pr_Applied r) =
      move (ps_Profile ps) (verdict (pf_Name (ps_Profile ps)) (ps_State ps)) (anyInMaintenance all) (ps_State ps)) pss rs)"
proof (induction pss arbitrary: acc d w)
  case (Cons ps pss)
  from Cons.prems(1) show ?case
  proof (cases rule: apply_loop_ConsE)
    case (unknown e w1)
    with Cons.prems(2) show ?thesis by (auto simp: FromLabel_def valid_labels_def split: if_splits)
  next
    case (applied st pd w1 r err d1 w2 acc1)
    have pf: "gm_get (Profiles cfg) (pf_Name (ps_Profile ps)) = Some (ps_Profile ps)" using Cons.prems(2) by simp
    from Apply_moves_profile [OF co pf applied(1,2,4)] have e: "err = None" and m: "ar_Next r =
      move (ps_Profile ps) (verdict (pf_Name (ps_Profile ps)) (ps_State ps)) (anyInMaintenance all) (ps_State ps)" by simp_all
    from Cons.IH [OF applied(8)] Cons.prems(2) applied(5-7) e m FromLabel_Inr [OF applied(1)] show ?thesis by auto
  qed
qed simp

text \<open>What a reconciliation needs to be repeated.\<close>

definition ready :: "'s handler_state \<Rightarrow> bool" where
  "ready h \<longleftrightarrow> data_ok (hs_data h) \<and> d_Notifications (hs_data h) \<noteq> None \<and> hs_cache h \<noteq> None"

lemma ApplyProfiles_cache:
  assumes "ApplyProfiles rp h = Some (err, h')"
  shows "hs_cache h' \<noteq> None"
  using assms
  by (auto simp: ApplyProfiles_def cache_Update_def bind_eq_Some_conv case_prod_beta errors_Join_def
      dest!: gm_put_not_nil split: option.splits)

lemma apply_loop_initialised:
  "apply_loop rp all pss acc d w = Some (acc', d', w') \<Longrightarrow> d_Notifications d \<noteq> None \<Longrightarrow> d_Notifications d' \<noteq> None"
proof (induction pss arbitrary: acc d w)
  case (Cons ps pss)
  from Cons.prems(1) show ?case
    by (cases rule: apply_loop_ConsE) (use Cons.IH Cons.prems(2) Apply_initialised in blast)+
qed simp

lemma in_maintenance_abs:
  assumes "no_nil_profiles d"
  shows "in_maintenance cfg label d \<longleftrightarrow> (\<exists>m \<in> active cfg label. abs_state d m = InMaintenance)"
proof -
  have "abs_state d m = InMaintenance \<longleftrightarrow> (\<exists>pd. gm_get (d_Profiles d) m = Some (Some pd) \<and> pd_Current pd = InMaintenance)" for m
    using assms by (auto simp: abs_state_def no_nil_profiles_def split: option.splits)
  then show ?thesis by (auto simp: in_maintenance_def active_def)
qed

lemma ApplyProfiles_ok:
  assumes run: "ApplyProfiles rp h = Some (err, h')" and co: "cooperative verdict (rp_config rp)"
    and cfg: "named_by_key (Profiles (rp_config rp))" and ready: "ready h"
    and dist: "distinct (strings_Split (or_default (profiles_label (hs_world h))) profileSeparator)"
  shows "err = None" "d_Notifications (hs_data h') \<noteq> None"
    "n \<in> active (rp_config rp) (profiles_label (hs_world h)) \<Longrightarrow>
     abs_state (hs_data h') n = machine_step (rp_config rp) (profiles_label (hs_world h)) verdict (abs_state (hs_data h)) n"
proof -
  let ?l = "profiles_label (hs_world h)" and ?cfg = "rp_config rp"
  let ?acc0 = "\<lparr>aa_results = [], aa_errs = [], aa_retry = []\<rparr>"
  obtain pss acc d1 w1 where pss: "GetProfilesWithState (hs_data h) ?l (Profiles ?cfg) = Some pss"
    and loop: "apply_loop rp pss pss ?acc0 (hs_data h) (hs_world h) = Some (acc, d1, w1)"
    using run by (cases rule: ApplyProfiles_stages) blast+
  note of_ps = profile_state_of [OF pss cfg]
  have ok: "\<forall>ps \<in> set pss. ps_State ps \<in> valid_labels \<and> gm_get (Profiles ?cfg) (pf_Name (ps_Profile ps)) = Some (ps_Profile ps)"
    using of_ps(1,3) ready by (fastforce simp: ready_def data_ok_def gm_all_def)
  let ?moved = "\<lambda>ps r. pr_State r = ps_State ps \<and> ar_Next (pr_Applied r) =
    move (ps_Profile ps) (verdict (pf_Name (ps_Profile ps)) (ps_State ps)) (anyInMaintenance pss) (ps_State ps)"
  from apply_loop_ok [OF co loop ok] have acc: "aa_errs acc = []" "aa_retry acc = []" "list_all2 ?moved pss (aa_results acc)"
    by auto
  have d1: "d_Profiles d1 = d_Profiles (hs_data h)" "d_Notifications d1 \<noteq> None"
    using apply_loop_profiles [OF loop] apply_loop_initialised [OF loop] ready by (simp_all add: ready_def)
  have len: "length pss = length (aa_results acc)" by (rule list_all2_lengthD [OF acc(3)])
  obtain w2 where err: "err = None" and rec: "record_loop [] pss (aa_results acc) d1 w2 = Some (hs_data h', hs_world h')"
    using run by (cases rule: ApplyProfiles_stages) (use pss loop acc in auto)
  show "err = None" by (rule err)
  show "d_Notifications (hs_data h') \<noteq> None" using record_loop_frame [OF len rec] d1(2) by simp
  show "abs_state (hs_data h') n = machine_step ?cfg ?l verdict (abs_state (hs_data h)) n" if n: "n \<in> active ?cfg ?l"
  proof -
    have "n \<in> set (map (pf_Name \<circ> ps_Profile) pss)"
      unfolding names_of_states [OF pss cfg] using n by (auto simp: active_def label_names_def)
    then obtain i where i: "i < length pss" "n = pf_Name (ps_Profile (pss ! i))" by (auto simp: in_set_conv_nth)
    let ?ps = "pss ! i" and ?r = "aa_results acc ! i"
    have z: "(?ps, ?r) \<in> set (zip pss (aa_results acc))" using i len by (auto simp: in_set_zip)
    have dn: "distinct (map (pf_Name \<circ> ps_Profile) pss)" unfolding names_of_states [OF pss cfg] using dist by simp
    from record_loop_spec [OF len rec dn z] i d1(1) obtain pd pd' w3 where
      pd: "gm_get (d_Profiles (hs_data h)) n = Some (Some pd)" "gm_get (d_Profiles (hs_data h')) n = Some (Some pd')"
      "recorded ?ps ?r w3 pd pd'" by auto
    from of_ps(3) [of ?ps] i pd(1) have s: "ps_State ?ps = pd_Current pd" by auto
    have m: "?moved ?ps ?r" using acc(3) i by (simp add: list_all2_conv_all_nth)
    have "gm_get (Profiles ?cfg) n = Some (ps_Profile ?ps)" using ok i by auto
    moreover have "anyInMaintenance pss \<longleftrightarrow> (\<exists>m \<in> active ?cfg ?l. abs_state (hs_data h) m = InMaintenance)"
      using anyInMaintenance_iff [OF pss cfg] in_maintenance_abs [of "hs_data h" ?cfg ?l] ready
      by (simp add: ready_def data_ok_no_nil)
    moreover have "abs_state (hs_data h) n = pd_Current pd" "abs_state (hs_data h') n = pd_Current pd'"
      using pd by (simp_all add: abs_state_def)
    ultimately show ?thesis
      using n pd(3) m s i by (simp add: machine_step_def recorded_def split: if_splits)
  qed
qed

lemma UpdateMaintenanceStateLabel_frame:
  assumes "UpdateMaintenanceStateLabel rp h = Some (err, h')"
  shows "hs_cache h' = hs_cache h" "profiles_label (hs_world h') = profiles_label (hs_world h)"
proof -
  show "hs_cache h' = hs_cache h"
    using assms by (auto simp: UpdateMaintenanceStateLabel_def bind_eq_Some_conv Let_def)
  show "profiles_label (hs_world h') = profiles_label (hs_world h)"
    using assms by (rule UpdateMaintenanceStateLabel_Some) (simp add: profiles_label_def gm_str_def)
qed

lemma machine_step_cong:
  "\<forall>m \<in> active cfg l. s m = s' m \<Longrightarrow> n \<in> active cfg l \<Longrightarrow> machine_step cfg l verdict s n = machine_step cfg l verdict s' n"
  by (simp add: machine_step_def)

text \<open>The reconciliation of a node refines a step of the machine.\<close>

lemma HandleNode_refines:
  assumes ret: "config_returns same_label (rp_config rp)" and cfg: "config_ok (rp_config rp)"
    and co: "cooperative verdict (rp_config rp)" and ready: "ready h"
    and dist: "distinct (strings_Split (or_default (profiles_label (hs_world h))) profileSeparator)"
  shows "\<exists>h'. HandleNode rp h = Some (None, h') \<and> ready h' \<and> profiles_label (hs_world h') = profiles_label (hs_world h)
    \<and> (\<forall>n \<in> active (rp_config rp) (profiles_label (hs_world h)). abs_state (hs_data h') n =
         machine_step (rp_config rp) (profiles_label (hs_world h)) verdict (abs_state (hs_data h)) n)"
proof -
  let ?cfg = "rp_config rp" and ?l = "profiles_label (hs_world h)"
  note named = config_ok_named [OF cfg]
  have nn: "no_nil_profiles (hs_data h)" using ready by (simp add: ready_def data_ok_no_nil)
  obtain err h' where run: "HandleNode rp h = Some (err, h')"
    using keep_label.HandleNode_returns [OF ret named nn] ready by (auto simp: ready_def)
  from run show ?thesis
  proof (cases rule: HandleNode_stages)
    case (1 d1 w0 w1 err2 h2)
    let ?h1 = "h\<lparr>hs_data := d1, hs_world := w1\<rparr>"
    have r1: "ready ?h1"
      using ready MaintainProfileStates_data_ok [OF 1(3) named] MaintainProfileStates_frame [OF 1(3)] by (simp add: ready_def)
    have d1: "abs_state d1 n = abs_state (hs_data h) n" if "n \<in> active ?cfg ?l" for n
      using that MaintainProfileStates_get [OF 1(3) named, of n] nn
      by (cases "gm_get (d_Profiles (hs_data h)) n")
        (auto simp: abs_state_def active_def fresh_profile_def no_nil_profiles_def split: option.splits)
    obtain pss where pss: "GetProfilesWithState d1 ?l (Profiles ?cfg) = Some pss"
      using GetProfilesWithState_after_maintain [OF 1(3) named nn] by blast
    have lab: "profiles_label (hs_world h2) = ?l"
      using keep_label.ApplyProfiles_returns [OF ret named, of ?h1 pss] pss 1(4,5) r1 by (auto simp: ready_def same_label_def)
    have ok: "err2 = None" "d_Notifications (hs_data h2) \<noteq> None"
      "\<forall>n \<in> active ?cfg ?l. abs_state (hs_data h2) n = machine_step ?cfg ?l verdict (abs_state d1) n"
      using ApplyProfiles_ok [OF 1(5) co named r1] 1(4) dist by simp_all
    with 1(6) have e: "err = None" and up: "UpdateMaintenanceStateLabel rp h2 = Some (None, h')" by auto
    have d2: "hs_data h' = hs_data h2" using up by (rule UpdateMaintenanceStateLabel_Some)
    have "ready h'"
      using HandleNode_data_ok [OF run cfg] ready ok(2) d2 UpdateMaintenanceStateLabel_frame(1) [OF up] ApplyProfiles_cache [OF 1(5)]
      by (simp add: ready_def)
    moreover have "abs_state (hs_data h') n = machine_step ?cfg ?l verdict (abs_state (hs_data h)) n" if "n \<in> active ?cfg ?l" for n
      using ok(3) that d2 machine_step_cong [of ?cfg ?l "abs_state d1" "abs_state (hs_data h)" n verdict] d1 by simp
    ultimately show ?thesis
      using run e UpdateMaintenanceStateLabel_frame(2) [OF up] lab by simp
  qed
qed

section \<open>Several reconciliations\<close>

fun reconcile_n :: "('s, 'c) reconcile_params \<Rightarrow> nat \<Rightarrow> 's handler_state \<Rightarrow> 's handler_state option" where
  "reconcile_n rp 0 h = Some h"
| "reconcile_n rp (Suc k) h =
     do { (err, h) \<leftarrow> HandleNode rp h;
          if err \<noteq> None then None else reconcile_n rp k h }"

lemma machine_iterate_cong:
  "\<forall>m \<in> active cfg l. s m = s' m \<Longrightarrow> n \<in> active cfg l \<Longrightarrow>
   (machine_step cfg l verdict ^^ k) s n = (machine_step cfg l verdict ^^ k) s' n"
proof (induction k arbitrary: n)
  case (Suc k)
  then show ?case by (auto intro: machine_step_cong)
qed simp

lemma reconcile_n_refines:
  assumes ret: "config_returns same_label (rp_config rp)" and cfg: "config_ok (rp_config rp)"
    and co: "cooperative verdict (rp_config rp)"
  shows "ready h \<Longrightarrow> distinct (strings_Split (or_default (profiles_label (hs_world h))) profileSeparator) \<Longrightarrow>
    \<exists>h'. reconcile_n rp k h = Some h' \<and> ready h'
     \<and> (\<forall>n \<in> active (rp_config rp) (profiles_label (hs_world h)). abs_state (hs_data h') n =
          (machine_step (rp_config rp) (profiles_label (hs_world h)) verdict ^^ k) (abs_state (hs_data h)) n)"
proof (induction k arbitrary: h)
  case (Suc k)
  let ?cfg = "rp_config rp" and ?l = "profiles_label (hs_world h)"
  obtain h1 where h1: "HandleNode rp h = Some (None, h1)" "ready h1" "profiles_label (hs_world h1) = ?l"
    "\<forall>n \<in> active ?cfg ?l. abs_state (hs_data h1) n = machine_step ?cfg ?l verdict (abs_state (hs_data h)) n"
    using HandleNode_refines [OF ret cfg co Suc.prems] by blast
  obtain h' where h': "reconcile_n rp k h1 = Some h'" "ready h'"
    "\<forall>n \<in> active ?cfg ?l. abs_state (hs_data h') n = (machine_step ?cfg ?l verdict ^^ k) (abs_state (hs_data h1)) n"
    using Suc.IH [OF h1(2)] Suc.prems(2) h1(3) by auto
  have "(machine_step ?cfg ?l verdict ^^ k) (abs_state (hs_data h1)) n
      = (machine_step ?cfg ?l verdict ^^ Suc k) (abs_state (hs_data h)) n" if "n \<in> active ?cfg ?l" for n
    using machine_iterate_cong [OF h1(4) that] by (simp add: funpow_swap1)
  with h1(1) h' show ?case by simp
qed simp

text \<open>On a node with one profile, the machine runs through a cycle.\<close>

definition cycle :: "nat \<Rightarrow> NodeStateLabel" where
  "cycle k = [Operational, Required, InMaintenance] ! (k mod 3)"

lemma machine_cycle:
  assumes act: "active cfg l = {a}" and pf: "gm_get (Profiles cfg) a = Some pf"
    and moves: "move pf (verdict a Operational) False Operational = Required"
      "move pf (verdict a Required) False Required = InMaintenance"
      "move pf (verdict a InMaintenance) True InMaintenance = Operational"
    and start: "s a = Operational"
  shows "(machine_step cfg l verdict ^^ k) s a = cycle k"
proof (induction k)
  case 0
  with start show ?case by (simp add: cycle_def)
next
  case (Suc k)
  consider "k mod 3 = 0" | "k mod 3 = 1" | "k mod 3 = 2" by linarith
  then show ?case
    by cases (use Suc act pf moves in \<open>simp_all add: machine_step_def cycle_def mod_Suc\<close>)
qed

end
