(* ===== verification/Esx.thy ===== *)
theory Esx
  imports Drain Handler
begin

text \<open>
  Package \<open>esx\<close>: the controller that labels nodes with the maintenance state of their ESX
  host, shuts their virtual machines down before a maintenance and starts them afterwards
  (\<open>check.go\<close>, \<open>config.go\<close>, \<open>shutdown.go\<close>, \<open>start.go\<close>, \<open>util.go\<close>,
  \<open>runnable.go\<close>). The vCenter library is a parameter, a record of requests on the same
  external state that the Kubernetes client works on; the cache of vCenter connections is
  threaded beside the world. \<^const>\<open>None\<close> is a run-time panic.
\<close>

section \<open>The vCenter library\<close>

datatype power_state = PoweredOff | PoweredOn | Suspended

datatype task_state = TaskQueued | TaskRunning | TaskSuccess | TaskError

record task_info =
  tsk_Name :: string
  tsk_State :: task_state

record host_system =
  hsys_InMaintenanceMode :: bool
  hsys_RecentTask :: "string list" \<comment> \<open>references\<close>
  hsys_Product :: "string option" \<comment> \<open>version in \<open>Config\<close>, which may be nil\<close>
  hsys_TriggeredAlarms :: "string list" \<comment> \<open>references\<close>

record virtual_machine =
  vm_PowerState :: power_state
  vm_Self :: string

text \<open>
  \<open>'k\<close> is the type of a connected client, \<open>'v\<close> that of a container view. A retrieval by
  references yields the task information or the alarm names; a power operation yields a task.
\<close>

record ('s, 'k, 'v) govmomi =
  gv_ParseURL :: "string \<Rightarrow> error + string"
  gv_NewClient :: "string \<Rightarrow> string \<Rightarrow> string \<Rightarrow> bool \<Rightarrow> ('s, 'k) request" \<comment> \<open>URL, user, password, insecure\<close>
  gv_Logout :: "'k \<Rightarrow> ('s, unit) request"
  gv_CreateContainerView :: "'k \<Rightarrow> string \<Rightarrow> ('s, 'v) request"
  gv_Destroy :: "'v \<Rightarrow> ('s, unit) request"
  gv_RetrieveHosts :: "'v \<Rightarrow> string list \<Rightarrow> string \<Rightarrow> ('s, host_system list) request"
  gv_RetrieveVMs :: "'v \<Rightarrow> string \<Rightarrow> ('s, virtual_machine list) request"
  gv_RetrieveTasks :: "'k \<Rightarrow> string list \<Rightarrow> ('s, task_info list) request"
  gv_RetrieveAlarms :: "'k \<Rightarrow> string list \<Rightarrow> ('s, string list) request"
  gv_ShutdownGuest :: "'k \<Rightarrow> string \<Rightarrow> ('s, unit) request"
  gv_PowerOff :: "'k \<Rightarrow> string \<Rightarrow> ('s, string) request"
  gv_PowerOn :: "'k \<Rightarrow> string \<Rightarrow> ('s, string) request"
  gv_WaitForResult :: "'k \<Rightarrow> string \<Rightarrow> ('s, task_state) request"
  gv_IsSoapFault :: "error \<Rightarrow> bool"
  gv_FaultIsToolsUnavailable :: "error \<Rightarrow> bool"
  gv_PollWithContext :: "'s poller"
  gv_Interrupted :: "error \<Rightarrow> bool"

section \<open>Connections (config.go)\<close>

definition AvailabilityZoneReplacer :: string where "AvailabilityZoneReplacer = ''$AZ''"

record credential =
  cred_Username :: string
  cred_Password :: string

record 'k vcenters =
  vct_Template :: string
  vct_Insecure :: bool
  vct_Credentials :: "(string, credential) gomap"
  vct_cache :: "(string, 'k) gomap"

record 'k esx_config =
  ec_PodDeletion :: wait_parameters
  ec_PodEviction :: wait_parameters
  ec_Force :: bool
  ec_VMShutdown :: wait_parameters
  ec_Alarms :: "string list"
  ec_VCenters :: "'k vcenters"

definition AlarmsAsSet :: "'k esx_config \<Rightarrow> string set" where
  "AlarmsAsSet c = set (ec_Alarms c)"

text \<open>The URL without the user information, and the credential to put in.\<close>

definition VCenters_URL :: "('s, 'k, 'v) govmomi \<Rightarrow> 'k vcenters \<Rightarrow> string \<Rightarrow> error + string \<times> credential" where
  "VCenters_URL gv vc availabilityZone =
     (case gv_ParseURL gv (strings_ReplaceAll (vct_Template vc @ ''/sdk'') AvailabilityZoneReplacer availabilityZone) of
        Inl e \<Rightarrow> Inl e
      | Inr vCenterURL \<Rightarrow>
          (case gm_get (vct_Credentials vc) availabilityZone of
             None \<Rightarrow> Inl (ErrorString (''no vCenter credentials have been provided for availability zone ''
                       @ availabilityZone))
           | Some cred \<Rightarrow> Inr (vCenterURL, cred)))"

type_synonym ('s, 'k) vstate = "'k vcenters \<times> 's world"

definition vapi :: "('s \<Rightarrow> 'a \<times> 's) \<Rightarrow> ('s, 'k) vstate \<Rightarrow> 'a \<times> ('s, 'k) vstate" where
  "vapi f st = (let (r, w) = api f (snd st) in (r, (fst st, w)))"

definition makeClient ::
    "('s, 'k, 'v) govmomi \<Rightarrow> string \<Rightarrow> ('s, 'k) vstate \<Rightarrow> (error + 'k) \<times> ('s, 'k) vstate" where
  "makeClient gv availabilityZone st =
     (case VCenters_URL gv (fst st) availabilityZone of
        Inl e \<Rightarrow> (Inl (WrapError ''failed to render vCenter URL: '' e), st)
      | Inr (vcURL, cred) \<Rightarrow>
          (case vapi (gv_NewClient gv vcURL (cred_Username cred) (cred_Password cred) (vct_Insecure (fst st))) st of
             (Inl e, st) \<Rightarrow> (Inl (WrapError ''failed to create vCenter client: '' e), st)
           | (Inr client, st) \<Rightarrow> (Inr client, st)))"

definition VCenters_Client ::
    "('s, 'k, 'v) govmomi \<Rightarrow> string \<Rightarrow> ('s, 'k) vstate \<Rightarrow> (error + 'k) \<times> ('s, 'k) vstate" where
  "VCenters_Client gv availabilityZone st =
     (let st = ((fst st)\<lparr>vct_cache := gm_ensure (vct_cache (fst st))\<rparr>, snd st)
      in case gm_get (vct_cache (fst st)) availabilityZone of
        Some client \<Rightarrow> (Inr client, st)
      | None \<Rightarrow>
          (case makeClient gv availabilityZone st of
             (Inl e, st) \<Rightarrow> (Inl e, st)
           | (Inr client, (vc, w)) \<Rightarrow>
               (Inr client, (vc\<lparr>vct_cache := map_option (AList.update availabilityZone client) (vct_cache vc)\<rparr>, w))))"

definition ClearCache :: "('s, 'k, 'v) govmomi \<Rightarrow> ('s, 'k) vstate \<Rightarrow> ('s, 'k) vstate" where
  "ClearCache gv st =
     (let st = fold (\<lambda>client st. snd (vapi (gv_Logout gv client) st)) (map snd (gm_items (vct_cache (fst st)))) st
      in ((fst st)\<lparr>vct_cache := gm_make\<rparr>, snd st))"

section \<open>State of a host (check.go)\<close>

type_synonym Maintenance = string

definition NoMaintenance :: Maintenance where "NoMaintenance = ''false''"
definition EsxInMaintenance :: Maintenance where "EsxInMaintenance = ''true''"
definition AlarmMaintenance :: Maintenance where "AlarmMaintenance = ''alarm''"
definition UnknownMaintenance :: Maintenance where "UnknownMaintenance = ''unknown''"

lemmas maintenance_defs = NoMaintenance_def EsxInMaintenance_def AlarmMaintenance_def UnknownMaintenance_def

record host_info =
  hi_Name :: string
  hi_AvailabilityZone :: string

definition fetchHost ::
    "('s, 'k, 'v) govmomi \<Rightarrow> 'k \<Rightarrow> string \<Rightarrow> string list \<Rightarrow> ('s, 'k) vstate \<Rightarrow> (error + host_system) \<times> ('s, 'k) vstate" where
  "fetchHost gv client hostname filters st =
     (case vapi (gv_CreateContainerView gv client ''HostSystem'') st of
        (Inl e, st) \<Rightarrow> (Inl (WrapError ''failed to create container view: '' e), st)
      | (Inr containerView, st) \<Rightarrow>
     (case vapi (gv_RetrieveHosts gv containerView filters hostname) st of
        (Inl e, st) \<Rightarrow>
          (Inl (WrapError (''failed to fetch runtime information for esx host '' @ hostname @ '': '') e), st)
      | (Inr hss, st) \<Rightarrow>
          (case hss of
             [hs] \<Rightarrow> (Inr hs, st)
           | _ \<Rightarrow> (Inl (ErrorString (''expected to retrieve 1 esx host from vCenter, but got ''
                         @ fmt_int (int (length hss)))), st))))"

definition CheckForMaintenance ::
    "('s, 'k, 'v) govmomi \<Rightarrow> host_info \<Rightarrow> ('s, 'k) vstate \<Rightarrow> (Maintenance \<times> error option) \<times> ('s, 'k) vstate" where
  "CheckForMaintenance gv info st =
     (case VCenters_Client gv (hi_AvailabilityZone info) st of
        (Inl e, st) \<Rightarrow>
          ((UnknownMaintenance, Some (WrapError ''failed to check for esx host maintenance state: '' e)), st)
      | (Inr client, st) \<Rightarrow>
     (case fetchHost gv client (hi_Name info) [''runtime'', ''recentTask''] st of
        (Inl e, st) \<Rightarrow> ((UnknownMaintenance, Some e), st)
      | (Inr host, st) \<Rightarrow>
          if hsys_InMaintenanceMode host then ((EsxInMaintenance, None), st)
          else if hsys_RecentTask host = [] then ((NoMaintenance, None), st)
          else (case vapi (gv_RetrieveTasks gv client (hsys_RecentTask host)) st of
            (Inl e, st) \<Rightarrow> ((UnknownMaintenance,
               Some (WrapError (''failed to fetch recent task information for esx host '' @ hi_Name info @ '': '') e)), st)
          | (Inr tasks, st) \<Rightarrow>
              if \<exists>task \<in> set tasks. tsk_Name task = ''EnterMaintenanceMode_Task'' \<and> tsk_State task = TaskRunning
              then ((EsxInMaintenance, None), st) else ((NoMaintenance, None), st))))"

definition FetchVersion ::
    "('s, 'k, 'v) govmomi \<Rightarrow> host_info \<Rightarrow> ('s, 'k) vstate \<Rightarrow> (error + string) \<times> ('s, 'k) vstate" where
  "FetchVersion gv info st =
     (case VCenters_Client gv (hi_AvailabilityZone info) st of
        (Inl e, st) \<Rightarrow> (Inl e, st)
      | (Inr client, st) \<Rightarrow>
     (case fetchHost gv client (hi_Name info) [''config.product''] st of
        (Inl e, st) \<Rightarrow> (Inl e, st)
      | (Inr host, st) \<Rightarrow>
          (case hsys_Product host of
             None \<Rightarrow> (Inl (ErrorString (''host config information returned by ESX '' @ hi_Name info
                       @ '' is incomplete'')), st)
           | Some version \<Rightarrow> (Inr version, st))))"

definition CheckAlarms ::
    "('s, 'k, 'v) govmomi \<Rightarrow> host_info \<Rightarrow> ('s, 'k) vstate \<Rightarrow> (error + string list) \<times> ('s, 'k) vstate" where
  "CheckAlarms gv info st =
     (case VCenters_Client gv (hi_AvailabilityZone info) st of
        (Inl e, st) \<Rightarrow> (Inl e, st)
      | (Inr client, st) \<Rightarrow>
     (case fetchHost gv client (hi_Name info) [''triggeredAlarmState''] st of
        (Inl e, st) \<Rightarrow> (Inl e, st)
      | (Inr host, st) \<Rightarrow>
          if hsys_TriggeredAlarms host = [] then (Inr [], st)
          else vapi (gv_RetrieveAlarms gv client (hsys_TriggeredAlarms host)) st))"

section \<open>Virtual machines (util.go, shutdown.go, start.go)\<close>

definition RetrieveVM ::
    "('s, 'k, 'v) govmomi \<Rightarrow> 'k \<Rightarrow> string \<Rightarrow> ('s, virtual_machine) request" where
  "RetrieveVM gv client name s =
     (case gv_CreateContainerView gv client ''VirtualMachine'' s of
        (Inl e, s) \<Rightarrow> (Inl (WrapError ''failed to create container view: '' e), s)
      | (Inr containerView, s) \<Rightarrow>
     (case gv_RetrieveVMs gv containerView name s of
        (Inl e, s) \<Rightarrow> (Inl (ErrorString (''failed to retrieve VM '' @ name)), s)
      | (Inr vms, s) \<Rightarrow>
     (case gv_Destroy gv containerView s of
        (Inl e, s) \<Rightarrow> (Inl (WrapError ''failed to destroy ContainerView: '' e), s)
      | (Inr _, s) \<Rightarrow>
          (case vms of
             [vm] \<Rightarrow> (Inr vm, s)
           | _ \<Rightarrow> (Inl (ErrorString (''expected to retrieve 1 VM from vCenter, but got ''
                         @ fmt_int (int (length vms)))), s)))))"

text \<open>Waiting for the task of a power operation; \<open>op\<close> names it in the errors.\<close>

definition await_power_task ::
    "('s, 'k, 'v) govmomi \<Rightarrow> 'k \<Rightarrow> string \<Rightarrow> string \<Rightarrow> (error + string) \<times> ('s, 'k) vstate \<Rightarrow> error option \<times> ('s, 'k) vstate" where
  "await_power_task gv client op nodeName started =
     (case started of
        (Inl e, st) \<Rightarrow> (Some (ErrorString (''failed to create '' @ op @ '' task for VM '' @ nodeName)), st)
      | (Inr task, st) \<Rightarrow>
     (case vapi (gv_WaitForResult gv client task) st of
        (Inl e, st) \<Rightarrow> (Some (ErrorString (''failed to await '' @ op @ '' task for VM '' @ nodeName)), st)
      | (Inr state, st) \<Rightarrow>
          if state \<noteq> TaskSuccess
          then (Some (ErrorString (''VM '' @ nodeName @ '' '' @ op @ '' task was not successful'')), st)
          else (None, st)))"

definition isToolsUnavailable :: "('s, 'k, 'v) govmomi \<Rightarrow> error \<Rightarrow> bool" where
  "isToolsUnavailable gv e \<longleftrightarrow> gv_IsSoapFault gv e \<and> gv_FaultIsToolsUnavailable gv e"

definition vm_is_off :: "('s, 'k, 'v) govmomi \<Rightarrow> 'k \<Rightarrow> string \<Rightarrow> ('s, bool) request" where
  "vm_is_off gv client nodeName s =
     (case RetrieveVM gv client nodeName s of
        (Inl e, s) \<Rightarrow> (Inl e, s)
      | (Inr vm, s) \<Rightarrow> (Inr (vm_PowerState vm = PoweredOff), s))"

definition pollPowerOff ::
    "('s, 'k, 'v) govmomi \<Rightarrow> 'k \<Rightarrow> string \<Rightarrow> wait_parameters \<Rightarrow> 's \<Rightarrow> error option \<times> 's" where
  "pollPowerOff gv client nodeName wp s =
     gv_PollWithContext gv (wp_Period wp) (wp_Timeout wp) (vm_is_off gv client nodeName) s"

definition unplugVM ::
    "('s, 'k, 'v) govmomi \<Rightarrow> 'k \<Rightarrow> string \<Rightarrow> string \<Rightarrow> ('s, 'k) vstate \<Rightarrow> error option \<times> ('s, 'k) vstate" where
  "unplugVM gv client vm nodeName st =
     await_power_task gv client ''poweroff'' nodeName (vapi (gv_PowerOff gv client vm) st)"

definition shutdownVM ::
    "('s, 'k, 'v) govmomi \<Rightarrow> 'k \<Rightarrow> string \<Rightarrow> string \<Rightarrow> wait_parameters \<Rightarrow> ('s, 'k) vstate
      \<Rightarrow> error option \<times> ('s, 'k) vstate" where
  "shutdownVM gv client vm nodeName wp st =
     (case vapi (gv_ShutdownGuest gv client vm) st of
        (Inr _, st) \<Rightarrow>
          (case vapi (pollPowerOff gv client nodeName wp) st of
             (None, st) \<Rightarrow> (None, st)
           | (Some e, st) \<Rightarrow>
               if \<not> gv_Interrupted gv e then (Some (WrapError ''failed to wait for guest OS shutdown: '' e), st)
               else unplugVM gv client vm nodeName st)
      | (Inl e, st) \<Rightarrow>
          if \<not> isToolsUnavailable gv e
          then (Some (WrapError (''failed to shutdown guest OS for vm '' @ nodeName @ '': '') e), st)
          else unplugVM gv client vm nodeName st)"

definition EnsureVMOff ::
    "('s, 'k, 'v) govmomi \<Rightarrow> host_info \<Rightarrow> string \<Rightarrow> wait_parameters \<Rightarrow> ('s, 'k) vstate \<Rightarrow> error option \<times> ('s, 'k) vstate" where
  "EnsureVMOff gv info nodeName wp st =
     (case VCenters_Client gv (hi_AvailabilityZone info) st of
        (Inl e, st) \<Rightarrow> (Some (WrapError ''failed to connect to vCenter: '' e), st)
      | (Inr client, st) \<Rightarrow>
     (case vapi (RetrieveVM gv client nodeName) st of
        (Inl e, st) \<Rightarrow> (Some (WrapError (''failed to retrieve vm '' @ nodeName @ '': '') e), st)
      | (Inr movm, st) \<Rightarrow>
          if vm_PowerState movm = PoweredOff then (None, st)
          else shutdownVM gv client (vm_Self movm) nodeName wp st))"

definition ensureVMOn ::
    "('s, 'k, 'v) govmomi \<Rightarrow> host_info \<Rightarrow> string \<Rightarrow> ('s, 'k) vstate \<Rightarrow> error option \<times> ('s, 'k) vstate" where
  "ensureVMOn gv info nodeName st =
     (case VCenters_Client gv (hi_AvailabilityZone info) st of
        (Inl e, st) \<Rightarrow> (Some (WrapError ''failed to connect to vCenter: '' e), st)
      | (Inr client, st) \<Rightarrow>
     (case vapi (RetrieveVM gv client nodeName) st of
        (Inl e, st) \<Rightarrow> (Some (WrapError (''failed to retrieve vm '' @ nodeName @ '': '') e), st)
      | (Inr movm, st) \<Rightarrow>
          if vm_PowerState movm = PoweredOn then (None, st)
          else await_power_task gv client ''poweron'' nodeName (vapi (gv_PowerOn gv client (vm_Self movm)) st)))"

section \<open>Decisions about nodes (shutdown.go, start.go)\<close>

definition ShutdownAllowed :: "Maintenance \<Rightarrow> bool" where
  "ShutdownAllowed state \<longleftrightarrow> state = EsxInMaintenance \<or> state = AlarmMaintenance"

definition ShouldShutdownNode :: "node \<Rightarrow> bool" where
  "ShouldShutdownNode node \<longleftrightarrow> ShutdownAllowed (gm_str (n_Labels node) EsxMaintenanceLabelKey)
     \<and> gm_str (n_Labels node) EsxRebootOkLabelKey = TrueStr"

definition ShouldStart :: "node \<Rightarrow> bool" where
  "ShouldStart node \<longleftrightarrow>
     (case gm_get (n_Annotations node) EsxRebootInitiatedAnnotationKey of
        None \<Rightarrow> False
      | Some initiated \<Rightarrow>
          if initiated \<noteq> TrueStr then False
          else case gm_get (n_Labels node) EsxMaintenanceLabelKey of
            None \<Rightarrow> False | Some state \<Rightarrow> state = NoMaintenance)"

definition nodeGracePeriod :: "node \<Rightarrow> int option" where
  "nodeGracePeriod node =
     (case gm_get (n_Labels node) EsxMaintenanceLabelKey of
        None \<Rightarrow> None
      | Some maintenance \<Rightarrow> if maintenance \<noteq> AlarmMaintenance then None else Some 0)"

section \<open>Hosts (runnable.go)\<close>

record esx_host =
  eh_Info :: host_info
  eh_Nodes :: "node list"

definition ShouldShutdown :: "esx_host \<Rightarrow> bool" where
  "ShouldShutdown esx \<longleftrightarrow> length (filter ShouldShutdownNode (eh_Nodes esx)) = length (eh_Nodes esx)"

text \<open>The last byte of an empty failure domain cannot be sliced off.\<close>

definition parseHostInfo :: "node \<Rightarrow> (error + host_info) option" where
  "parseHostInfo node =
     (case gm_get (n_Labels node) HostLabelKey of
        None \<Rightarrow> Some (Inl (ErrorString (''node '' @ n_Name node @ '' is missing label '' @ HostLabelKey)))
      | Some name \<Rightarrow>
     (case gm_get (n_Labels node) FailureDomainLabelKey of
        None \<Rightarrow> Some (Inl (ErrorString (''node '' @ n_Name node @ '' is missing label '' @ FailureDomainLabelKey)))
      | Some failureDomain \<Rightarrow>
          if failureDomain = [] then None
          else Some (Inr \<lparr>hi_Name = name, hi_AvailabilityZone = [last failureDomain]\<rparr>)))"

text \<open>
  The nodes grouped by host; the hosts are kept in the order of their first node, one of the
  orders in which the source may range over its map.
\<close>

fun group_nodes :: "node list \<Rightarrow> (host_info \<times> node list) list \<Rightarrow> (error + (host_info \<times> node list) list) option" where
  "group_nodes [] nodesOnHost = Some (Inr nodesOnHost)"
| "group_nodes (node # nodes) nodesOnHost =
     (case parseHostInfo node of
        None \<Rightarrow> None
      | Some (Inl e) \<Rightarrow> Some (Inl e)
      | Some (Inr info) \<Rightarrow> group_nodes nodes (AList.update info
          ((case map_of nodesOnHost info of None \<Rightarrow> [] | Some ns \<Rightarrow> ns) @ [node]) nodesOnHost))"

definition ParseHostList :: "node list \<Rightarrow> (error + esx_host list) option" where
  "ParseHostList nodes =
     map_option (map_sum id (map (\<lambda>(info, ns). \<lparr>eh_Info = info, eh_Nodes = ns\<rparr>))) (group_nodes nodes [])"

section \<open>Labels and annotations of nodes (runnable.go)\<close>

fun ensureLabel_nodes ::
    "'s client \<Rightarrow> string \<Rightarrow> string \<Rightarrow> string \<Rightarrow> node list \<Rightarrow> 's world \<Rightarrow> (error option \<times> node list) \<times> 's world" where
  "ensureLabel_nodes cl host key val [] w = ((None, []), w)"
| "ensureLabel_nodes cl host key val (node # nodes) w =
     (let base = node\<lparr>n_Labels := gm_ensure (n_Labels node)\<rparr>
      in if gm_get (n_Labels base) key = Some val
         then (case ensureLabel_nodes cl host key val nodes w of
                 ((err, nodes), w) \<Rightarrow> ((err, base # nodes), w))
         else let modified = base\<lparr>n_Labels := map_option (AList.update key val) (n_Labels base)\<rparr>
              in case api (c_PatchNode cl modified base) w of
                (Inl e, w) \<Rightarrow> ((Some (WrapError (''failed to patch Label for node '' @ n_Name modified
                    @ '' status on host '' @ host @ '': '') e), modified # nodes), w)
              | (Inr patched, w) \<Rightarrow>
                  (case ensureLabel_nodes cl host key val nodes w of
                     ((err, nodes), w) \<Rightarrow> ((err, patched # nodes), w)))"

definition ensureLabel ::
    "'s client \<Rightarrow> string \<Rightarrow> string \<Rightarrow> esx_host \<Rightarrow> ('s, 'k) vstate \<Rightarrow> (error option \<times> esx_host) \<times> ('s, 'k) vstate" where
  "ensureLabel cl key val esx st =
     (case ensureLabel_nodes cl (hi_Name (eh_Info esx)) key val (eh_Nodes esx) (snd st) of
        ((err, nodes), w) \<Rightarrow> ((err, esx\<lparr>eh_Nodes := nodes\<rparr>), (fst st, w)))"

text \<open>The two operations on the annotations of \<open>w_node\<close>.\<close>

definition ensureAnnotation :: "'s client \<Rightarrow> string \<Rightarrow> string \<Rightarrow> 's world \<Rightarrow> error option \<times> 's world" where
  "ensureAnnotation cl key val w =
     (let base = (w_node w)\<lparr>n_Annotations := gm_ensure (n_Annotations (w_node w))\<rparr>
      in if gm_get (n_Annotations base) key = Some val then (None, w\<lparr>w_node := base\<rparr>)
         else let modified = base\<lparr>n_Annotations := map_option (AList.update key val) (n_Annotations base)\<rparr>
              in case api (c_PatchNode cl modified base) w of
                (Inl e, w) \<Rightarrow> (Some (WrapError (''failed to patch Annotation for node '' @ n_Name modified @ '': '') e),
                  w\<lparr>w_node := modified\<rparr>)
              | (Inr patched, w) \<Rightarrow> (None, w\<lparr>w_node := patched\<rparr>))"

definition deleteAnnotation :: "'s client \<Rightarrow> string \<Rightarrow> 's world \<Rightarrow> error option \<times> 's world" where
  "deleteAnnotation cl key w =
     (let node = w_node w
      in if n_Annotations node = None then (None, w)
         else if gm_get (n_Annotations node) key = None then (None, w)
         else let modified = node\<lparr>n_Annotations := gm_del key (n_Annotations node)\<rparr>
              in case api (c_PatchNode cl modified node) w of
                (Inl e, w) \<Rightarrow> (Some e, w\<lparr>w_node := modified\<rparr>)
              | (Inr patched, w) \<Rightarrow> (None, w\<lparr>w_node := patched\<rparr>))"

section \<open>The reconciliation of a host (runnable.go)\<close>

definition CheckMaintenance ::
    "('s, 'k, 'v) govmomi \<Rightarrow> 's client \<Rightarrow> 'k esx_config \<Rightarrow> esx_host \<Rightarrow> ('s, 'k) vstate
      \<Rightarrow> (error option \<times> esx_host) \<times> ('s, 'k) vstate" where
  "CheckMaintenance gv cl conf esx st =
     (case CheckAlarms gv (eh_Info esx) st of
        (Inl e, st) \<Rightarrow> ((Some e, esx), st)
      | (Inr hostAlarms, st) \<Rightarrow>
          if \<exists>oneAlarm \<in> set hostAlarms. oneAlarm \<in> AlarmsAsSet conf
          then ensureLabel cl EsxMaintenanceLabelKey AlarmMaintenance esx st
          else (case CheckForMaintenance gv (eh_Info esx) st of
            ((_, Some e), st) \<Rightarrow> ((Some e, esx), st)
          | ((status, None), st) \<Rightarrow> ensureLabel cl EsxMaintenanceLabelKey status esx st))"

definition Runnable_FetchVersion ::
    "('s, 'k, 'v) govmomi \<Rightarrow> 's client \<Rightarrow> esx_host \<Rightarrow> ('s, 'k) vstate
      \<Rightarrow> (error option \<times> esx_host) \<times> ('s, 'k) vstate" where
  "Runnable_FetchVersion gv cl esx st =
     (case FetchVersion gv (eh_Info esx) st of
        (Inl e, st) \<Rightarrow> ((Some e, esx), st)
      | (Inr version, st) \<Rightarrow> ensureLabel cl EsxVersionLabelKey version esx st)"

text \<open>
  The body of the loop of \<open>ShutdownNodes\<close> for the node \<open>w_node\<close>; logged errors only end
  the iteration. \<open>recorder\<close> tells whether the runnable has an event recorder.
\<close>

definition shutdown_node ::
    "'w semver \<Rightarrow> ('s, 'k, 'v) govmomi \<Rightarrow> 's client \<Rightarrow> bool \<Rightarrow> 'k esx_config \<Rightarrow> host_info
      \<Rightarrow> ('s, 'k) vstate \<Rightarrow> ('s, 'k) vstate option" where
  "shutdown_node sv gv cl recorder conf info st =
     (if \<not> ShouldShutdownNode (w_node (snd st)) then Some st
      else case ensureAnnotation cl EsxRebootInitiatedAnnotationKey TrueStr (snd st) of
        (Some e, w) \<Rightarrow> Some (fst st, w)
      | (None, w) \<Rightarrow>
     (case EnsureSchedulable cl False w of
        (Some e, w) \<Rightarrow> Some (fst st, w)
      | (None, w) \<Rightarrow> do {
          ((drained, err), w) \<leftarrow> EnsureDrain sv
            \<lparr>dp_AwaitDeletion = ec_PodDeletion conf, dp_Eviction = ec_PodEviction conf, dp_Client = cl,
             dp_ForceEviction = ec_Force conf, dp_GracePeriodSeconds = nodeGracePeriod (w_node w),
             dp_Recorder = recorder\<rparr> w;
          if err \<noteq> None \<or> \<not> drained then Some (fst st, w)
          else Some (snd (EnsureVMOff gv info (n_Name (w_node w)) (ec_VMShutdown conf) (fst st, w))) }))"

definition start_node ::
    "('s, 'k, 'v) govmomi \<Rightarrow> 's client \<Rightarrow> host_info \<Rightarrow> ('s, 'k) vstate \<Rightarrow> ('s, 'k) vstate" where
  "start_node gv cl info st =
     (if \<not> ShouldStart (w_node (snd st)) then st
      else case ensureVMOn gv info (n_Name (w_node (snd st))) st of
        (Some e, st) \<Rightarrow> st
      | (None, (vc, w)) \<Rightarrow>
     (case EnsureSchedulable cl True w of
        (Some e, w) \<Rightarrow> (vc, w)
      | (None, w) \<Rightarrow> (vc, snd (deleteAnnotation cl EsxRebootInitiatedAnnotationKey w))))"

text \<open>The loops over the nodes of a host.\<close>

fun ShutdownNodes_loop ::
    "'w semver \<Rightarrow> ('s, 'k, 'v) govmomi \<Rightarrow> 's client \<Rightarrow> bool \<Rightarrow> 'k esx_config \<Rightarrow> host_info \<Rightarrow> node list
      \<Rightarrow> ('s, 'k) vstate \<Rightarrow> (node list \<times> ('s, 'k) vstate) option" where
  "ShutdownNodes_loop sv gv cl recorder conf info [] st = Some ([], st)"
| "ShutdownNodes_loop sv gv cl recorder conf info (node # nodes) st =
     do { st \<leftarrow> shutdown_node sv gv cl recorder conf info (fst st, (snd st)\<lparr>w_node := node\<rparr>);
          let node = w_node (snd st);
          (nodes, st) \<leftarrow> ShutdownNodes_loop sv gv cl recorder conf info nodes st;
          Some (node # nodes, st) }"

definition ShutdownNodes ::
    "'w semver \<Rightarrow> ('s, 'k, 'v) govmomi \<Rightarrow> 's client \<Rightarrow> bool \<Rightarrow> 'k esx_config \<Rightarrow> esx_host
      \<Rightarrow> ('s, 'k) vstate \<Rightarrow> (esx_host \<times> ('s, 'k) vstate) option" where
  "ShutdownNodes sv gv cl recorder conf esx st =
     do { (nodes, st) \<leftarrow> ShutdownNodes_loop sv gv cl recorder conf (eh_Info esx) (eh_Nodes esx) st;
          Some (esx\<lparr>eh_Nodes := nodes\<rparr>, st) }"

fun StartNodes_loop ::
    "('s, 'k, 'v) govmomi \<Rightarrow> 's client \<Rightarrow> host_info \<Rightarrow> node list \<Rightarrow> ('s, 'k) vstate \<Rightarrow> node list \<times> ('s, 'k) vstate" where
  "StartNodes_loop gv cl info [] st = ([], st)"
| "StartNodes_loop gv cl info (node # nodes) st =
     (let st = start_node gv cl info (fst st, (snd st)\<lparr>w_node := node\<rparr>);
          node = w_node (snd st);
          (nodes, st) = StartNodes_loop gv cl info nodes st
      in (node # nodes, st))"

definition StartNodes ::
    "('s, 'k, 'v) govmomi \<Rightarrow> 's client \<Rightarrow> esx_host \<Rightarrow> ('s, 'k) vstate \<Rightarrow> esx_host \<times> ('s, 'k) vstate" where
  "StartNodes gv cl esx st =
     (case StartNodes_loop gv cl (eh_Info esx) (eh_Nodes esx) st of
        (nodes, st) \<Rightarrow> (esx\<lparr>eh_Nodes := nodes\<rparr>, st))"

definition reconcile_host ::
    "'w semver \<Rightarrow> ('s, 'k, 'v) govmomi \<Rightarrow> 's client \<Rightarrow> bool \<Rightarrow> 'k esx_config \<Rightarrow> esx_host
      \<Rightarrow> ('s, 'k) vstate \<Rightarrow> ('s, 'k) vstate option" where
  "reconcile_host sv gv cl recorder conf esx st =
     (let ((_, esx), st) = Runnable_FetchVersion gv cl esx st;
          ((err, esx), st) = CheckMaintenance gv cl conf esx st
      in if err \<noteq> None then Some st
         else let (esx, st) = StartNodes gv cl esx st
              in map_option snd (ShutdownNodes sv gv cl recorder conf esx st))"

fun reconcile_hosts ::
    "'w semver \<Rightarrow> ('s, 'k, 'v) govmomi \<Rightarrow> 's client \<Rightarrow> bool \<Rightarrow> 'k esx_config \<Rightarrow> esx_host list
      \<Rightarrow> ('s, 'k) vstate \<Rightarrow> ('s, 'k) vstate option" where
  "reconcile_hosts sv gv cl recorder conf [] st = Some st"
| "reconcile_hosts sv gv cl recorder conf (esx # esxs) st =
     do { st \<leftarrow> reconcile_host sv gv cl recorder conf esx st;
          reconcile_hosts sv gv cl recorder conf esxs st }"

text \<open>One round of the runnable, with the result of loading its configuration.\<close>

definition Runnable_Reconcile ::
    "'w semver \<Rightarrow> ('s, 'k, 'v) govmomi \<Rightarrow> 's client \<Rightarrow> bool \<Rightarrow> (error + 'k esx_config) \<Rightarrow> 's world
      \<Rightarrow> 's world option" where
  "Runnable_Reconcile sv gv cl recorder loaded w =
     (case loaded of
        Inl e \<Rightarrow> Some w
      | Inr conf \<Rightarrow>
     (case api (c_ListNodes cl (HasLabels [HostLabelKey, FailureDomainLabelKey])) w of
        (Inl e, w) \<Rightarrow> Some w
      | (Inr nodes, w) \<Rightarrow> do {
          parsed \<leftarrow> ParseHostList nodes;
          let esxList = (case parsed of Inl _ \<Rightarrow> [] | Inr hosts \<Rightarrow> hosts);
          st \<leftarrow> reconcile_hosts sv gv cl recorder conf esxList (ec_VCenters conf, w);
          Some (snd (ClearCache gv st)) }))"

section \<open>Nodes grouped by host\<close>

definition host_nodes :: "(host_info \<times> node list) list \<Rightarrow> host_info \<Rightarrow> node list" where
  "host_nodes m info = (case map_of m info of None \<Rightarrow> [] | Some ns \<Rightarrow> ns)"

definition on_host :: "host_info \<Rightarrow> node \<Rightarrow> bool" where
  "on_host info node \<longleftrightarrow> parseHostInfo node = Some (Inr info)"

lemma host_nodes_update:
  "host_nodes (AList.update i ns m) info = (if info = i then ns else host_nodes m info)"
  by (simp add: host_nodes_def update_conv')

lemma group_nodes_Cons:
  assumes "group_nodes (node # nodes) m = Some (Inr res)"
  obtains i where "parseHostInfo node = Some (Inr i)"
    "group_nodes nodes (AList.update i (host_nodes m i @ [node]) m) = Some (Inr res)"
  using assms by (auto simp: host_nodes_def split: option.splits sum.splits)

lemma group_nodes_spec:
  "group_nodes nodes m = Some (Inr res) \<Longrightarrow>
   host_nodes res info = host_nodes m info @ filter (on_host info) nodes"
proof (induction nodes arbitrary: m)
  case (Cons node nodes)
  from Cons.prems obtain i where i: "parseHostInfo node = Some (Inr i)"
    and rest: "group_nodes nodes (AList.update i (host_nodes m i @ [node]) m) = Some (Inr res)"
    by (rule group_nodes_Cons)
  from Cons.IH [OF rest] i show ?case by (auto simp: host_nodes_update on_host_def)
qed simp

lemma update_nonempty: "ns \<noteq> [] \<Longrightarrow> [] \<notin> snd ` set m \<Longrightarrow> [] \<notin> snd ` set (AList.update i ns m)"
  by (induction m) auto

lemma group_nodes_keys:
  "group_nodes nodes m = Some (Inr res) \<Longrightarrow> distinct (map fst m) \<Longrightarrow> [] \<notin> snd ` set m \<Longrightarrow>
   distinct (map fst res) \<and> [] \<notin> snd ` set res"
proof (induction nodes arbitrary: m)
  case (Cons node nodes)
  from Cons.prems(1) obtain i where
    rest: "group_nodes nodes (AList.update i (host_nodes m i @ [node]) m) = Some (Inr res)"
    by (rule group_nodes_Cons)
  have "[] \<notin> snd ` set (AList.update i (host_nodes m i @ [node]) m)"
    using Cons.prems(3) by (intro update_nonempty) auto
  with Cons.IH [OF rest] Cons.prems(2) show ?case by (simp add: distinct_update)
qed simp

lemma group_nodes_parsed:
  "group_nodes nodes m = Some (Inr res) \<Longrightarrow> n \<in> set nodes \<Longrightarrow> \<exists>info. on_host info n"
proof (induction nodes arbitrary: m)
  case (Cons node nodes)
  from Cons.prems(1) obtain i where "parseHostInfo node = Some (Inr i)"
    and rest: "group_nodes nodes (AList.update i (host_nodes m i @ [node]) m) = Some (Inr res)"
    by (rule group_nodes_Cons)
  with Cons.IH [OF rest] Cons.prems(2) show ?case by (auto simp: on_host_def)
qed simp

lemma ParseHostList_partition:
  assumes "ParseHostList nodes = Some (Inr hosts)"
  shows "distinct (map eh_Info hosts)"
    and "h \<in> set hosts \<Longrightarrow> eh_Nodes h = filter (on_host (eh_Info h)) nodes \<and> eh_Nodes h \<noteq> []"
    and "n \<in> set nodes \<Longrightarrow> \<exists>h \<in> set hosts. n \<in> set (eh_Nodes h)"
proof -
  obtain res where run: "group_nodes nodes [] = Some (Inr res)"
    and hosts: "hosts = map (\<lambda>(info, ns). \<lparr>eh_Info = info, eh_Nodes = ns\<rparr>) res"
    using assms by (cases "group_nodes nodes []"; cases "the (group_nodes nodes [])") (auto simp: ParseHostList_def)
  have keys: "distinct (map fst res)" "[] \<notin> snd ` set res" using group_nodes_keys [OF run] by auto
  have spec: "host_nodes res info = filter (on_host info) nodes" for info
    using group_nodes_spec [OF run, of info] by (simp add: host_nodes_def)
  show "distinct (map eh_Info hosts)" using keys(1) by (simp add: hosts split_def comp_def)
  show "eh_Nodes h = filter (on_host (eh_Info h)) nodes \<and> eh_Nodes h \<noteq> []" if "h \<in> set hosts"
  proof -
    from that obtain info ns where in_res: "(info, ns) \<in> set res" and h: "h = \<lparr>eh_Info = info, eh_Nodes = ns\<rparr>"
      by (auto simp: hosts)
    then have "host_nodes res info = ns" using keys(1) by (simp add: host_nodes_def)
    with spec [of info] h in_res keys(2) show ?thesis by force
  qed
  show "\<exists>h \<in> set hosts. n \<in> set (eh_Nodes h)" if n: "n \<in> set nodes"
  proof -
    obtain info where info: "on_host info n" using group_nodes_parsed [OF run n] by blast
    with n spec [of info] have "n \<in> set (host_nodes res info)" by simp
    then obtain ns where "map_of res info = Some ns" "n \<in> set ns" 
      unfolding host_nodes_def by (cases "map_of res info") auto
    then show ?thesis by (force simp: hosts dest: map_of_SomeD)
  qed
qed

section \<open>What touches the vCenter\<close>

text \<open>
  \<open>view\<close> is the part of the external state that the vCenter keeps; Kubernetes requests leave
  it alone, and the response to a patch is the object that was sent, with a new version.
\<close>

definition kube_keeps :: "('s \<Rightarrow> 'x) \<Rightarrow> 's client \<Rightarrow> bool" where
  "kube_keeps view cl \<longleftrightarrow>
     (\<forall>s n m. view (snd (c_PatchNode cl n m s)) = view s) \<and>
     (\<forall>s n. view (snd (c_ListPods cl n s)) = view s) \<and>
     (\<forall>s p g. view (snd (c_DeletePod cl p g s)) = view s) \<and>
     (\<forall>s p g. view (snd (cs_EvictV1 cl p g s)) = view s) \<and>
     (\<forall>s p g. view (snd (cs_EvictV1beta1 cl p g s)) = view s) \<and>
     (\<forall>s. view (snd (cs_ServerVersion cl s)) = view s)"

definition patch_echo :: "'s client \<Rightarrow> bool" where
  "patch_echo cl \<longleftrightarrow> (\<forall>n m s q s'. c_PatchNode cl n m s = (Inr q, s') \<longrightarrow>
     q = n\<lparr>n_ResourceVersion := n_ResourceVersion q\<rparr>)"

lemma api_state: "api f w = (r, w') \<Longrightarrow> f (w_api w) = (r, w_api w') \<and> w' = w\<lparr>w_api := w_api w'\<rparr>"
  by (auto simp: api_def split: prod.splits)

lemma api_snd: "api f w = (r, w') \<Longrightarrow> w_api w' = snd (f (w_api w))"
  by (metis api_result(2) snd_conv)

lemma api_view: "(\<And>s. view (snd (f s)) = view s) \<Longrightarrow> api f w = (r, w') \<Longrightarrow> view (w_api w') = view (w_api w)"
  by (metis api_state snd_conv)

lemma api_patch_view:
  "kube_keeps view cl \<Longrightarrow> api (c_PatchNode cl n m) w = (r, w') \<Longrightarrow> view (w_api w') = view (w_api w)"
  unfolding kube_keeps_def by (metis api_view)

lemma api_patch_echo:
  "patch_echo cl \<Longrightarrow> api (c_PatchNode cl n m) w = (Inr q, w') \<Longrightarrow>
   \<exists>rv. q = n\<lparr>n_ResourceVersion := rv\<rparr> \<and> w_node w' = w_node w"
  unfolding patch_echo_def using api_frame(1) [of "c_PatchNode cl n m" w] by (metis api_state snd_conv)

lemma gm_get_set: "gm_get (map_option (AList.update k v) (gm_ensure m)) = (gm_get m)(k \<mapsto> v)"
  by (cases m) (auto simp: gm_ensure_def gm_get_def gm_make_def update_conv' fun_eq_iff)

lemma kube_keeps_drain:
  assumes "kube_keeps view cl"
  shows "drain_relation cl (\<lambda>w w'. view (w_api w') = view (w_api w))"
  using assms unfolding kube_keeps_def
  by unfold_locales (auto simp: time_Now_def emit_event_def dest!: api_snd)

lemma EnsureSchedulable_done:
  assumes "EnsureSchedulable cl sch w = (err, w')"
  shows "kube_keeps view cl \<Longrightarrow> view (w_api w') = view (w_api w)"
    and "patch_echo cl \<Longrightarrow> err = None \<Longrightarrow>
      \<exists>rv. w_node w' = (w_node w)\<lparr>n_Unschedulable := \<not> sch, n_ResourceVersion := rv\<rparr>"
proof -
  show "view (w_api w') = view (w_api w)" if "kube_keeps view cl"
    using assms by (auto simp: EnsureSchedulable_def Let_def split: prod.splits sum.splits if_splits
        dest: api_patch_view [OF that])
  show "\<exists>rv. w_node w' = (w_node w)\<lparr>n_Unschedulable := \<not> sch, n_ResourceVersion := rv\<rparr>"
    if "patch_echo cl" "err = None"
  proof (cases "n_Unschedulable (w_node w) \<noteq> sch")
    case True
    with that assms show ?thesis
      by (intro exI [of _ "n_ResourceVersion (w_node w)"]) (auto simp: EnsureSchedulable_def)
  next
    case False
    with that assms show ?thesis
      by (auto simp: EnsureSchedulable_def Let_def split: prod.splits sum.splits dest!: api_patch_echo)
  qed
qed

lemma ensureAnnotation_done:
  assumes "ensureAnnotation cl key val w = (err, w')"
  shows "kube_keeps view cl \<Longrightarrow> view (w_api w') = view (w_api w)"
    and "patch_echo cl \<Longrightarrow> err = None \<Longrightarrow> gm_get (n_Annotations (w_node w')) key = Some val
      \<and> n_Labels (w_node w') = n_Labels (w_node w) \<and> n_Name (w_node w') = n_Name (w_node w)"
proof -
  show "view (w_api w') = view (w_api w)" if "kube_keeps view cl"
    using assms by (auto simp: ensureAnnotation_def Let_def split: prod.splits sum.splits if_splits
        dest: api_patch_view [OF that])
  show "gm_get (n_Annotations (w_node w')) key = Some val
      \<and> n_Labels (w_node w') = n_Labels (w_node w) \<and> n_Name (w_node w') = n_Name (w_node w)"
    if "patch_echo cl" "err = None"
    using that assms
    by (auto simp: ensureAnnotation_def Let_def gm_get_set
        split: prod.splits sum.splits if_splits dest!: api_patch_echo)
qed

lemma EnsureDrain_drained_state:
  assumes "EnsureDrain sv params w = Some ((drained, err), w')" and "drained"
  obtains pods where "c_ListPods (dp_Client params) (n_Name (w_node w)) (w_api w) = (Inr pods, w_api w')"
    and "filter drainable pods = []" and "err = None" and "w' = w\<lparr>w_api := w_api w'\<rparr>"
proof -
  from assms obtain pods s where l: "c_ListPods (dp_Client params) (n_Name (w_node w)) (w_api w) = (Inr pods, s)"
    and e: "filter drainable pods = []"
    using EnsureDrain_drained_iff by blast
  from EnsureDrain_empty [OF l e, of sv] assms have "w' = w\<lparr>w_api := s\<rparr>" "err = None" by auto
  with that l e show thesis by simp
qed

text \<open>
  Every iteration either leaves the vCenter alone or has found the node annotated, cordoned
  and without pods before it turns to the virtual machine.
\<close>

lemma shutdown_node_stages:
  assumes run: "shutdown_node sv gv cl recorder conf info st = Some st'"
    and keeps: "kube_keeps view cl" and echo: "patch_echo cl"
  obtains (kept) "view (w_api (snd st')) = view (w_api (snd st))"
  | (off) w1 pods where "ShouldShutdownNode (w_node (snd st))" "n_Name (w_node w1) = n_Name (w_node (snd st))"
      "gm_get (n_Annotations (w_node w1)) EsxRebootInitiatedAnnotationKey = Some TrueStr"
      "n_Unschedulable (w_node w1)" "\<exists>s. c_ListPods cl (n_Name (w_node w1)) s = (Inr pods, w_api w1)"
      "filter drainable pods = []" "view (w_api w1) = view (w_api (snd st))"
      "st' = snd (EnsureVMOff gv info (n_Name (w_node w1)) (ec_VMShutdown conf) (fst st, w1))"
proof (cases "ShouldShutdownNode (w_node (snd st))")
  case False
  with run kept show thesis by (simp add: shutdown_node_def)
next
  case should: True
  obtain err1 w1 where a: "ensureAnnotation cl EsxRebootInitiatedAnnotationKey TrueStr (snd st) = (err1, w1)"
    by (cases "ensureAnnotation cl EsxRebootInitiatedAnnotationKey TrueStr (snd st)")
  note v1 = ensureAnnotation_done(1) [OF a keeps]
  show thesis
  proof (cases err1)
    case (Some e)
    with run should a v1 kept show thesis by (auto simp: shutdown_node_def)
  next
    case None
    note a1 = ensureAnnotation_done(2) [OF a echo None]
    obtain err2 w2 where c: "EnsureSchedulable cl False w1 = (err2, w2)" by (cases "EnsureSchedulable cl False w1")
    note v2 = EnsureSchedulable_done(1) [OF c keeps]
    show thesis
    proof (cases err2)
      case (Some e)
      with run should a None c v1 v2 kept show thesis by (auto simp: shutdown_node_def)
    next
      case none2: None
      note c2 = EnsureSchedulable_done(2) [OF c echo none2]
      let ?dp = "\<lparr>dp_AwaitDeletion = ec_PodDeletion conf, dp_Eviction = ec_PodEviction conf, dp_Client = cl,
        dp_ForceEviction = ec_Force conf, dp_GracePeriodSeconds = nodeGracePeriod (w_node w2), dp_Recorder = recorder\<rparr>"
      from run should a None c none2 obtain drained err3 w3 where d: "EnsureDrain sv ?dp w2 = Some ((drained, err3), w3)"
        and st': "st' = (if err3 \<noteq> None \<or> \<not> drained then (fst st, w3)
          else snd (EnsureVMOff gv info (n_Name (w_node w3)) (ec_VMShutdown conf) (fst st, w3)))"
        by (auto simp: shutdown_node_def bind_eq_Some_conv split: if_splits)
      have v3: "view (w_api w3) = view (w_api w2)"
        by (rule drain_relation.EnsureDrain_R [OF kube_keeps_drain [OF keeps] d]) simp
      show thesis
      proof (cases "err3 \<noteq> None \<or> \<not> drained")
        case True
        with st' v1 v2 v3 kept show thesis by simp
      next
        case False
        then have dr: "drained" by simp
        obtain pods where "c_ListPods cl (n_Name (w_node w2)) (w_api w2) = (Inr pods, w_api w3)"
          "filter drainable pods = []"
          by (rule EnsureDrain_drained_state [OF d dr]) simp
        moreover have "w_node w3 = w_node w2" by (rule EnsureDrain_node [OF d])
        ultimately show thesis
          using False st' v1 v2 v3 should a1 c2 by (intro off [of w3 pods]) auto
      qed
    qed
  qed
qed

lemma start_node_idle: "\<not> ShouldStart (w_node (snd st)) \<Longrightarrow> start_node gv cl info st = st"
  by (simp add: start_node_def)

text \<open>No node is to be started and shut down on the same labels.\<close>

lemma not_start_and_shutdown: "\<not> (ShouldStart node \<and> ShouldShutdownNode node)"
  by (auto simp: ShouldStart_def ShouldShutdownNode_def ShutdownAllowed_def gm_str_def maintenance_defs
      split: option.splits if_splits)

section \<open>Labels of the nodes of a host\<close>

lemma ensureLabel_nodes_done:
  assumes "patch_echo cl"
  shows "ensureLabel_nodes cl host key val nodes w = ((None, nodes'), w') \<Longrightarrow>
    list_all2 (\<lambda>n n'. n_Name n' = n_Name n \<and> gm_get (n_Labels n') = (gm_get (n_Labels n))(key \<mapsto> val)
      \<and> n_Annotations n' = n_Annotations n) nodes nodes'"
proof (induction nodes arbitrary: w nodes')
  case (Cons node nodes)
  let ?base = "node\<lparr>n_Labels := gm_ensure (n_Labels node)\<rparr>"
  let ?mod = "?base\<lparr>n_Labels := map_option (AList.update key val) (n_Labels ?base)\<rparr>"
  show ?case
  proof (cases "gm_get (n_Labels ?base) key = Some val")
    case True
    with Cons.prems obtain ns where "ensureLabel_nodes cl host key val nodes w = ((None, ns), w')" "nodes' = ?base # ns"
      by (auto split: prod.splits)
    with Cons.IH True show ?thesis by (auto simp: fun_upd_idem)
  next
    case False
    with Cons.prems obtain q w1 ns where p: "api (c_PatchNode cl ?mod ?base) w = (Inr q, w1)"
      and r: "ensureLabel_nodes cl host key val nodes w1 = ((None, ns), w')" "nodes' = q # ns"
      by (auto simp: Let_def split: prod.splits sum.splits)
    from api_patch_echo [OF assms p] Cons.IH [OF r(1)] r(2) show ?thesis by (auto simp: gm_get_set fun_eq_iff)
  qed
qed simp

lemma ensureLabel_nodes_idle:
  "\<forall>n \<in> set nodes. gm_get (n_Labels n) key = Some val \<Longrightarrow>
   \<exists>nodes'. ensureLabel_nodes cl host key val nodes w = ((None, nodes'), w)"
  by (induction nodes) auto

lemma CheckMaintenance_labels:
  assumes run: "CheckMaintenance gv cl conf esx st = ((None, esx'), st')" and echo: "patch_echo cl"
  obtains val alarms st1 where "CheckAlarms gv (eh_Info esx) st = (Inr alarms, st1)"
    and "val \<in> {NoMaintenance, EsxInMaintenance, AlarmMaintenance}"
    and "val = AlarmMaintenance \<longleftrightarrow> (\<exists>a \<in> set alarms. a \<in> AlarmsAsSet conf)"
    and "\<forall>n \<in> set (eh_Nodes esx'). gm_get (n_Labels n) EsxMaintenanceLabelKey = Some val"
    and "map n_Name (eh_Nodes esx') = map n_Name (eh_Nodes esx)"
proof -
  have labels: "(\<forall>n \<in> set (eh_Nodes esx'). gm_get (n_Labels n) EsxMaintenanceLabelKey = Some val)
      \<and> map n_Name (eh_Nodes esx') = map n_Name (eh_Nodes esx)"
    if "ensureLabel cl EsxMaintenanceLabelKey val esx st1 = ((None, esx'), st')" for val st1
  proof -
    from that obtain nodes w where e: "ensureLabel_nodes cl (hi_Name (eh_Info esx)) EsxMaintenanceLabelKey val
        (eh_Nodes esx) (snd st1) = ((None, nodes), w)" "esx' = esx\<lparr>eh_Nodes := nodes\<rparr>"
      by (auto simp: ensureLabel_def split: prod.splits)
    note all = ensureLabel_nodes_done [OF echo e(1)]
    have "\<forall>n \<in> set nodes. gm_get (n_Labels n) EsxMaintenanceLabelKey = Some val"
      using all by (induction rule: list_all2_induct) auto
    moreover have "map n_Name nodes = map n_Name (eh_Nodes esx)"
      using all by (induction rule: list_all2_induct) auto
    ultimately show ?thesis by (simp add: e(2))
  qed
  from run obtain alarms st1 where al: "CheckAlarms gv (eh_Info esx) st = (Inr alarms, st1)"
    by (auto simp: CheckMaintenance_def split: prod.splits sum.splits)
  show thesis
  proof (cases "\<exists>a \<in> set alarms. a \<in> AlarmsAsSet conf")
    case True
    with run al have "ensureLabel cl EsxMaintenanceLabelKey AlarmMaintenance esx st1 = ((None, esx'), st')"
      by (auto simp: CheckMaintenance_def)
    with labels al True that show thesis by blast
  next
    case False
    with run al obtain status st2 where s: "CheckForMaintenance gv (eh_Info esx) st1 = ((status, None), st2)"
      and e: "ensureLabel cl EsxMaintenanceLabelKey status esx st2 = ((None, esx'), st')"
      by (auto simp: CheckMaintenance_def split: prod.splits option.splits)
    from s have "status \<in> {NoMaintenance, EsxInMaintenance}"
      by (auto simp: CheckForMaintenance_def split: prod.splits sum.splits if_splits)
    with labels [OF e] al False show thesis
      by (intro that [of alarms st1 status]) (auto simp: maintenance_defs)
  qed
qed

end
