(* ===== verification/Kubernikus.thy ===== *)
theory Kubernikus
  imports Esx
begin

text \<open>
  The Kubernikus side: \<open>common/openstack.go\<close>, the controller of
  \<open>kubernikus/node_controller.go\<close>, which marks outdated kubelets and deletes nodes on
  request, and the check plugin \<open>plugin/impl/kubernikus.go\<close>. Gophercloud, the INI and JSON
  decoders, the file system and the HTTP client are parameters.
\<close>

section \<open>OpenStack (openstack.go)\<close>

record openstack_config =
  osc_Region :: string
  osc_AuthURL :: string
  osc_Username :: string
  osc_Password :: string
  osc_Domainname :: string
  osc_ProjectID :: string

record auth_options =
  ao_IdentityEndpoint :: string
  ao_Username :: string
  ao_Password :: string
  ao_DomainName :: string
  ao_AllowReauth :: bool
  ao_ScopeProjectID :: string

text \<open>
  \<open>'p\<close>: provider client, \<open>'e\<close>: compute endpoint, \<open>'g\<close>: listed pages, \<open>'q\<close>: HTTP
  request. The INI decoder gives the values of the section \<open>Global\<close>; a missing key is empty.
\<close>

record ('s, 'p, 'e, 'g, 'q) cloud =
  os_ReadFile :: "string \<Rightarrow> ('s, string) request"
  os_GetSecret :: "namespaced_name \<Rightarrow> ('s, (string, string) gomap) request"
  ini_Global :: "string \<Rightarrow> error + (string \<Rightarrow> string)"
  gc_NewClient :: "string \<Rightarrow> ('s, 'p) request"
  gc_Authenticate :: "'p \<Rightarrow> auth_options \<Rightarrow> ('s, unit) request"
  gc_Token :: "'p \<Rightarrow> 's \<Rightarrow> string"
  gc_NewComputeV2 :: "'p \<Rightarrow> string \<Rightarrow> ('s, 'e) request"
  gc_ListServers :: "'e \<Rightarrow> string \<Rightarrow> string \<Rightarrow> ('s, 'g) request" \<comment> \<open>tenant, name\<close>
  gc_ExtractServers :: "'g \<Rightarrow> error + string list" \<comment> \<open>the identifiers\<close>
  gc_DeleteServer :: "'e \<Rightarrow> string \<Rightarrow> 's \<Rightarrow> (error option \<times> string) \<times> 's" \<comment> \<open>error and body\<close>
  http_NewGet :: "string \<Rightarrow> error + 'q"
  http_Do :: "'q \<Rightarrow> (string \<times> string) list \<Rightarrow> ('s, (error + string)) request" \<comment> \<open>headers; reading the body\<close>

definition CloudProviderConfigFilePath :: string where
  "CloudProviderConfigFilePath = ''./provider/cloudprovider.conf''"

definition parseOSConfig :: "('s, 'p, 'e, 'g, 'q) cloud \<Rightarrow> string \<Rightarrow> error + openstack_config" where
  "parseOSConfig os content =
     (case ini_Global os content of
        Inl e \<Rightarrow> Inl (WrapError ''failed to parse cloudprovider.conf: '' e)
      | Inr global \<Rightarrow> Inr \<lparr>osc_Region = global ''region'', osc_AuthURL = global ''auth-url'',
          osc_Username = global ''username'', osc_Password = global ''password'',
          osc_Domainname = global ''domain-name'', osc_ProjectID = global ''tenant-id''\<rparr>)"

definition LoadOSConfigFile :: "('s, 'p, 'e, 'g, 'q) cloud \<Rightarrow> ('s, openstack_config) request" where
  "LoadOSConfigFile os s =
     (case os_ReadFile os CloudProviderConfigFilePath s of
        (Inl e, s) \<Rightarrow> (Inl (WrapError ''failed to read cloudprovider.conf: '' e), s)
      | (Inr content, s) \<Rightarrow> (parseOSConfig os content, s))"

definition key_string :: "namespaced_name \<Rightarrow> string" where
  "key_string key = fst key @ ''/'' @ snd key"

definition LoadOSConfig :: "('s, 'p, 'e, 'g, 'q) cloud \<Rightarrow> namespaced_name \<Rightarrow> ('s, openstack_config) request" where
  "LoadOSConfig os secretKey s =
     (if snd secretKey = [] \<or> fst secretKey = [] then LoadOSConfigFile os s
      else case os_GetSecret os secretKey s of
        (Inl e, s) \<Rightarrow> (Inl (WrapError (''failed to retrieve secret '' @ key_string secretKey @ '': '') e), s)
      | (Inr secretData, s) \<Rightarrow>
          (case gm_get secretData ''cloudprovider.conf'' of
             None \<Rightarrow> (Inl (ErrorString (''secret '' @ key_string secretKey
                       @ '' does not contain key '' @ [CHR 39] @ ''cloudprovider.conf'' @ [CHR 39])), s)
           | Some cloudProviderConf \<Rightarrow> (parseOSConfig os cloudProviderConf, s)))"

text \<open>\<open>Connect\<close>: the provider and the region of the endpoint options.\<close>

definition Connect :: "('s, 'p, 'e, 'g, 'q) cloud \<Rightarrow> openstack_config \<Rightarrow> ('s, 'p \<times> string) request" where
  "Connect os osConf s =
     (let ao = \<lparr>ao_IdentityEndpoint = osc_AuthURL osConf, ao_Username = osc_Username osConf,
        ao_Password = osc_Password osConf, ao_DomainName = osc_Domainname osConf,
        ao_AllowReauth = True, ao_ScopeProjectID = osc_ProjectID osConf\<rparr>
      in case gc_NewClient os (ao_IdentityEndpoint ao) s of
        (Inl e, s) \<Rightarrow> (Inl e, s)
      | (Inr provider, s) \<Rightarrow>
     (case gc_Authenticate os provider ao s of
        (Inl e, s) \<Rightarrow> (Inl e, s)
      | (Inr _, s) \<Rightarrow> (Inr (provider, osc_Region osConf), s)))"

section \<open>Deletion of virtual machines (node\_controller.go)\<close>

definition deleteVM ::
    "('s, 'p, 'e, 'g, 'q) cloud \<Rightarrow> string \<Rightarrow> openstack_config \<Rightarrow> 's world \<Rightarrow> error option \<times> 's world" where
  "deleteVM os nodeName osConf w =
     (case api (Connect os osConf) w of
        (Inl e, w) \<Rightarrow> (Some (WrapError ''failed OpenStack authentication: '' e), w)
      | (Inr (provider, region), w) \<Rightarrow>
     (case api (gc_NewComputeV2 os provider region) w of
        (Inl e, w) \<Rightarrow> (Some (WrapError ''failed to create OS compute endpoint: '' e), w)
      | (Inr compute, w) \<Rightarrow>
     (case api (gc_ListServers os compute (osc_ProjectID osConf) nodeName) w of
        (Inl e, w) \<Rightarrow> (Some (WrapError ''failed to list servers: '' e), w)
      | (Inr pages, w) \<Rightarrow>
     (case gc_ExtractServers os pages of
        Inl e \<Rightarrow> (Some (WrapError ''failed to extract server list: '' e), w)
      | Inr [] \<Rightarrow> (None, w)
      | Inr [server] \<Rightarrow>
          (case api (gc_DeleteServer os compute server) w of
             ((Some e, body), w) \<Rightarrow>
               (Some (ErrorString (''failed to delete VM: '' @ Error e @ '' body: '' @ body)), w)
           | ((None, body), w) \<Rightarrow> (None, w))
      | Inr servers \<Rightarrow> (Some (ErrorString (''expected to list 1 or 0 servers, but got ''
                             @ fmt_int (int (length servers)))), w)))))"

section \<open>The controller (node\_controller.go)\<close>

record kubernikus_config =
  kc_Requeue :: duration
  kc_PodDeletion :: wait_parameters
  kc_PodEviction :: wait_parameters
  kc_Force :: bool
  kc_SecretKey :: namespaced_name

text \<open>
  The node reconciled is \<open>w_node\<close>. \<open>clientset\<close> is the result of \<open>NewForConfig\<close>; the
  variant that dies on its error panics. A drain uses the discovery and the evictions of the
  clientset and everything else of the cached client.
\<close>

definition with_clientset :: "'s client \<Rightarrow> 's client \<Rightarrow> 's client" where
  "with_clientset cl ki = cl\<lparr>cs_ServerVersion := cs_ServerVersion ki, cs_EvictV1 := cs_EvictV1 ki,
     cs_EvictV1beta1 := cs_EvictV1beta1 ki\<rparr>"

definition getAPIServerVersion ::
    "'v semver \<Rightarrow> (error + 's client) \<Rightarrow> 's world \<Rightarrow> ((error + 'v) \<times> 's world) option" where
  "getAPIServerVersion sv clientset w =
     (case clientset of
        Inl e \<Rightarrow> Some (Inl (WrapError ''failed to create API Server client: '' e), w)
      | Inr ki \<Rightarrow> GetAPIServerVersion sv ki w)"

definition needsKubeletUpdate ::
    "'v semver \<Rightarrow> (error + 's client) \<Rightarrow> 's world \<Rightarrow> ((error + bool) \<times> 's world) option" where
  "needsKubeletUpdate sv clientset w =
     (case n_KubeletVersion (w_node w) of
        [] \<Rightarrow> None \<comment> \<open>slice bounds out of range\<close>
      | _ # kubelet \<Rightarrow>
          (case sv_Parse sv kubelet of
             Inl e \<Rightarrow> Some (Inl e, w)
           | Inr kubeletVersion \<Rightarrow> do {
               (res, w) \<leftarrow> getAPIServerVersion sv clientset w;
               case res of
                 Inl e \<Rightarrow> Some (Inl e, w)
               | Inr apiVersion \<Rightarrow> Some (Inr (sv_NE sv apiVersion kubeletVersion), w) }))"

definition markUpdate ::
    "'v semver \<Rightarrow> 's client \<Rightarrow> (error + 's client) \<Rightarrow> 's world \<Rightarrow> (error option \<times> 's world) option" where
  "markUpdate sv cl clientset w =
     (let unmodified = w_node w;
          w = w\<lparr>w_node := (w_node w)\<lparr>n_Labels := gm_ensure (n_Labels (w_node w))\<rparr>\<rparr>
      in do {
        (res, w) \<leftarrow> needsKubeletUpdate sv clientset w;
        case res of
          Inl e \<Rightarrow> Some (Some e, w)
        | Inr update \<Rightarrow> do {
            labels \<leftarrow> gm_put KubeletUpdateLabelKey (if update then TrueStr else ''false'') (n_Labels (w_node w));
            let modified = (w_node w)\<lparr>n_Labels := labels\<rparr>;
            case api (c_PatchNode cl modified unmodified) w of
              (Inl e, w) \<Rightarrow> Some (Some e, w\<lparr>w_node := modified\<rparr>)
            | (Inr patched, w) \<Rightarrow> Some (None, w\<lparr>w_node := patched\<rparr>) } })"

definition deleteNode ::
    "'v semver \<Rightarrow> ('s, 'p, 'e, 'g, 'q) cloud \<Rightarrow> 's client \<Rightarrow> namespaced_name \<Rightarrow> 's drain_parameters
      \<Rightarrow> 's world \<Rightarrow> (error option \<times> 's world) option" where
  "deleteNode sv os cl secretKey params w =
     (let name = n_Name (w_node w)
      in case EnsureSchedulable cl False w of
        (Some e, w) \<Rightarrow> Some (Some (WrapError (''failed to cordon node '' @ name @ '': '') e), w)
      | (None, w) \<Rightarrow> do {
          ((drained, err), w) \<leftarrow> EnsureDrain sv params w;
          case err of
            Some e \<Rightarrow> Some (Some (WrapError (''failed to drain node '' @ n_Name (w_node w) @ '': '') e), w)
          | None \<Rightarrow>
              if \<not> drained then Some (None, w)
              else case api (LoadOSConfig os secretKey) w of
                (Inl e, w) \<Rightarrow> Some (Some (WrapError ''failed to load OpenStack config: '' e), w)
              | (Inr osConf, w) \<Rightarrow>
                  (case deleteVM os (n_Name (w_node w)) osConf w of
                     (Some e, w) \<Rightarrow> Some (Some (WrapError (''failed to delete VM backing node ''
                       @ n_Name (w_node w) @ '': '') e), w)
                   | (None, w) \<Rightarrow> Some (None, w)) })"

definition Kubernikus_Reconcile ::
    "'v semver \<Rightarrow> ('s, 'p, 'e, 'g, 'q) cloud \<Rightarrow> 's client \<Rightarrow> (error + 's client) \<Rightarrow> bool
      \<Rightarrow> (error + kubernikus_config) \<Rightarrow> string \<Rightarrow> 's world \<Rightarrow> ((duration \<times> error option) \<times> 's world) option" where
  "Kubernikus_Reconcile sv os cl clientset recorder loaded name w =
     (case loaded of
        Inl e \<Rightarrow> Some ((0, Some e), w)
      | Inr conf \<Rightarrow>
          let again = (kc_Requeue conf, None)
          in (case api (c_GetNode cl name) w of
            (Inl e, w) \<Rightarrow> Some (again, w) \<comment> \<open>deleted, or only logged\<close>
          | (Inr node, w) \<Rightarrow> do {
              (err, w) \<leftarrow> markUpdate sv cl clientset (w\<lparr>w_node := node\<rparr>);
              if err \<noteq> None then Some (again, w)
              else if gm_get (n_Labels (w_node w)) DeleteNodeLabelKey = Some TrueStr
              then (case clientset of
                 Inl _ \<Rightarrow> None
               | Inr ki \<Rightarrow> do {
                   (err, w) \<leftarrow> deleteNode sv os cl (kc_SecretKey conf)
                     \<lparr>dp_AwaitDeletion = kc_PodDeletion conf, dp_Eviction = kc_PodEviction conf, dp_Client = with_clientset cl ki,
                      dp_ForceEviction = kc_Force conf, dp_GracePeriodSeconds = None, dp_Recorder = recorder\<rparr> w;
                   Some (again, w) })
              else Some (again, w) }))"

section \<open>The node count of a cluster (plugin/impl/kubernikus.go)\<close>

record kubernikus_count =
  kn_Cluster :: string
  kn_SecretKey :: namespaced_name

text \<open>\<open>unmarshal\<close> decodes a cluster to the sizes of its node pools.\<close>

definition fetchKluster ::
    "('s, 'p, 'e, 'g, 'q) cloud \<Rightarrow> (string \<Rightarrow> error + int list) \<Rightarrow> kubernikus_count \<Rightarrow> 's world
      \<Rightarrow> ((error + int list) \<times> 's world) option" where
  "fetchKluster os unmarshal kc w =
     (case api (LoadOSConfig os (kn_SecretKey kc)) w of
        (Inl e, w) \<Rightarrow> Some (Inl e, w)
      | (Inr osConf, w) \<Rightarrow>
     (case api (Connect os osConf) w of
        (Inl e, w) \<Rightarrow> Some (Inl (WrapError ''failed OpenStack authentication: '' e), w)
      | (Inr (provider, _), w) \<Rightarrow>
     (case http_NewGet os (''https://kubernikus.'' @ osc_Region osConf @ ''.cloud.sap/api/v1/clusters/'' @ kn_Cluster kc) of
        Inl e \<Rightarrow> None \<comment> \<open>the header of a nil request is set before the error is looked at\<close>
      | Inr req \<Rightarrow>
     (case api (http_Do os req [(''x-auth-token'', gc_Token os provider (w_api w))]) w of
        (Inl e, w) \<Rightarrow> Some (Inl e, w)
      | (Inr (Inl e), w) \<Rightarrow> Some (Inl e, w)
      | (Inr (Inr body), w) \<Rightarrow> Some (unmarshal body, w)))))"

definition KubernikusCount_Check ::
    "('s, 'p, 'e, 'g, 'q) cloud \<Rightarrow> (string \<Rightarrow> error + int list) \<Rightarrow> kubernikus_count
      \<Rightarrow> ('s, check_result \<times> error option) plugin_method" where
  "KubernikusCount_Check os unmarshal kc p w =
     do { (cluster, w) \<leftarrow> fetchKluster os unmarshal kc w;
          case cluster of
            Inl e \<Rightarrow> Some ((Failed None, Some e), w)
          | Inr sizes \<Rightarrow>
              (case api (c_ListNodes (P_Client p) AllNodes) w of
                 (Inl e, w) \<Rightarrow> Some ((Failed None, Some e), w)
               | (Inr nodes, w) \<Rightarrow>
                   if int (length nodes) \<ge> wrap64 (sum_list sizes)
                   then Some ((PassedWithReason ''found equal or more nodes than specified by nodepool'', None), w)
                   else Some ((FailedWithReason ''found less nodes than specified by nodepool'', None), w)) }"

definition KubernikusCount ::
    "('s, 'p, 'e, 'g, 'q) cloud \<Rightarrow> (string \<Rightarrow> error + int list) \<Rightarrow> kubernikus_count \<Rightarrow> 's checker" where
  "KubernikusCount os unmarshal kc =
     \<lparr>Check = KubernikusCount_Check os unmarshal kc, c_ID = ''kubernikusCount'', OnTransition = no_hook\<rparr>"

definition KubernikusCount_New ::
    "('s, 'p, 'e, 'g, 'q) cloud \<Rightarrow> (string \<Rightarrow> error + int list) \<Rightarrow> ('c, kubernikus_count) unpacker
      \<Rightarrow> ('c, 's checker) constructor" where
  "KubernikusCount_New os unmarshal unpack config addr =
     construct unpack (\<lambda>conf. Inr (KubernikusCount os unmarshal conf)) config"

section \<open>What deletes a virtual machine\<close>

text \<open>\<open>view\<close> is the part of the external state that holds the servers; only deletions change it.\<close>

definition cloud_reads :: "('s \<Rightarrow> 'x) \<Rightarrow> ('s, 'p, 'e, 'g, 'q) cloud \<Rightarrow> bool" where
  "cloud_reads view os \<longleftrightarrow>
     (\<forall>s f. view (snd (os_ReadFile os f s)) = view s) \<and> (\<forall>s k. view (snd (os_GetSecret os k s)) = view s) \<and>
     (\<forall>s u. view (snd (gc_NewClient os u s)) = view s) \<and> (\<forall>s p a. view (snd (gc_Authenticate os p a s)) = view s) \<and>
     (\<forall>s p r. view (snd (gc_NewComputeV2 os p r s)) = view s) \<and>
     (\<forall>s e t n. view (snd (gc_ListServers os e t n s)) = view s)"

lemma cloud_readsD:
  assumes "cloud_reads view os"
  shows "os_ReadFile os f s = (r1, s') \<Longrightarrow> view s' = view s" "os_GetSecret os k s = (r2, s') \<Longrightarrow> view s' = view s"
    "gc_NewClient os u s = (r3, s') \<Longrightarrow> view s' = view s" "gc_Authenticate os p a s = (r4, s') \<Longrightarrow> view s' = view s"
    "gc_NewComputeV2 os p r s = (r5, s') \<Longrightarrow> view s' = view s"
    "gc_ListServers os e t n s = (r6, s') \<Longrightarrow> view s' = view s"
  using assms unfolding cloud_reads_def by (metis snd_conv)+

lemma LoadOSConfig_view:
  "cloud_reads view os \<Longrightarrow> LoadOSConfig os key s = (r, s') \<Longrightarrow> view s' = view s"
  by (auto simp: LoadOSConfig_def LoadOSConfigFile_def split: prod.splits sum.splits if_splits option.splits
      dest: cloud_readsD)

lemma Connect_view: "cloud_reads view os \<Longrightarrow> Connect os conf s = (r, s') \<Longrightarrow> view s' = view s"
  by (auto simp: Connect_def Let_def split: prod.splits sum.splits)
    (metis cloud_readsD(3,4))+

lemma deleteVM_view:
  assumes reads: "cloud_reads view os" and run: "deleteVM os name conf w = (err, w')"
  obtains (kept) "view (w_api w') = view (w_api w)"
  | (deleted) e s g server where "fst (gc_ListServers os e (osc_ProjectID conf) name s) = Inr g"
      "gc_ExtractServers os g = Inr [server]"
      "w_api w' = snd (gc_DeleteServer os e server (snd (gc_ListServers os e (osc_ProjectID conf) name s)))"
proof -
  obtain r1 w1 where c: "api (Connect os conf) w = (r1, w1)" by (cases "api (Connect os conf) w")
  have v1: "view (w_api w1) = view (w_api w)" using api_state [OF c] Connect_view [OF reads] by blast
  show thesis
  proof (cases r1)
    case (Inl e)
    with run c v1 kept show thesis by (auto simp: deleteVM_def)
  next
    case right: (Inr pr)
    obtain p region where pr: "pr = (p, region)" by (cases pr)
    note Inr = right [unfolded pr]
    obtain r2 w2 where n: "api (gc_NewComputeV2 os p region) w1 = (r2, w2)"
      by (cases "api (gc_NewComputeV2 os p region) w1")
    have v2: "view (w_api w2) = view (w_api w1)" using api_state [OF n] cloud_readsD(5) [OF reads] by blast
    show thesis
    proof (cases r2)
      case (Inl e)
      with run c Inr n v1 v2 kept show thesis by (auto simp: deleteVM_def)
    next
      case inr2: (Inr e)
      obtain r3 w3 where l: "api (gc_ListServers os e (osc_ProjectID conf) name) w2 = (r3, w3)"
        by (cases "api (gc_ListServers os e (osc_ProjectID conf) name) w2")
      have v3: "view (w_api w3) = view (w_api w2)" using api_state [OF l] cloud_readsD(6) [OF reads] by blast
      note eqs = run c Inr n inr2 l
      show thesis
      proof (cases r3)
        case (Inl e)
        with eqs v1 v2 v3 kept show thesis by (auto simp: deleteVM_def)
      next
        case inr3: (Inr g)
        show thesis
        proof (cases "\<exists>server. gc_ExtractServers os g = Inr [server]")
          case True
          then obtain server where srv: "gc_ExtractServers os g = Inr [server]" by blast
          obtain eb w4 where d: "api (gc_DeleteServer os e server) w3 = (eb, w4)"
            by (cases "api (gc_DeleteServer os e server) w3")
          have "w' = w4"
            using eqs inr3 srv d by (cases eb; cases "fst eb") (auto simp: deleteVM_def)
          with api_state [OF l] api_state [OF d] inr3 srv show thesis
            by (intro deleted [of e "w_api w2" g server]) auto
        next
          case False
          with eqs inr3 have "w' = w3"
            by (auto simp: deleteVM_def split: sum.splits list.splits)
          with v1 v2 v3 kept show thesis by simp
        qed
      qed
    qed
  qed
qed

text \<open>A virtual machine is deleted only for a node that was cordoned and drained, and only if it is the only one found.\<close>

lemma deleteNode_view:
  fixes w :: "'s world"
  assumes run: "deleteNode sv os cl key params w = Some (err, w')"
    and reads: "cloud_reads view os" and keeps: "kube_keeps view cl" "kube_keeps view (dp_Client params)"
    and echo: "patch_echo cl"
  obtains (kept) "view (w_api w') = view (w_api w)"
  | (deleted) w1 :: "'s world" and conf :: openstack_config and pods e s g server where
      "\<exists>rv. w_node w1 = (w_node w)\<lparr>n_Unschedulable := True, n_ResourceVersion := rv\<rparr>"
      "fst (c_ListPods (dp_Client params) (n_Name (w_node w)) (w_api w1)) = Inr pods" "filter drainable pods = []"
      "fst (gc_ListServers os e (osc_ProjectID conf) (n_Name (w_node w)) s) = Inr g"
      "gc_ExtractServers os g = Inr [server]"
      "w_api w' = snd (gc_DeleteServer os e server (snd (gc_ListServers os e (osc_ProjectID conf) (n_Name (w_node w)) s)))"
proof -
  obtain err1 w1 where c: "EnsureSchedulable cl False w = (err1, w1)" by (cases "EnsureSchedulable cl False w")
  note v1 = EnsureSchedulable_done(1) [OF c keeps(1)]
  show thesis
  proof (cases err1)
    case (Some e)
    with run c v1 kept show thesis by (auto simp: deleteNode_def Let_def)
  next
    case None
    note n1 = EnsureSchedulable_done(2) [OF c echo None]
    with run c None obtain drained err2 w2 where d: "EnsureDrain sv params w1 = Some ((drained, err2), w2)"
      by (auto simp: deleteNode_def Let_def bind_eq_Some_conv split: option.splits)
    have v2: "view (w_api w2) = view (w_api w1)"
      by (rule drain_relation.EnsureDrain_R [OF kube_keeps_drain [OF keeps(2)] d]) simp
    have n2: "w_node w2 = w_node w1" by (rule EnsureDrain_node [OF d])
    show thesis
    proof (cases "drained \<and> err2 = None")
      case False
      with run c None d v1 v2 kept show thesis
        by (auto simp: deleteNode_def Let_def split: option.splits if_splits)
    next
      case True
      obtain pods where pods: "c_ListPods (dp_Client params) (n_Name (w_node w1)) (w_api w1) = (Inr pods, w_api w2)"
        "filter drainable pods = []"
        by (rule EnsureDrain_drained_state [OF d]) (use True in simp_all)
      obtain r3 w3 where o: "api (LoadOSConfig os key) w2 = (r3, w3)" by (cases "api (LoadOSConfig os key) w2")
      have v3: "view (w_api w3) = view (w_api w2)" using api_state [OF o] LoadOSConfig_view [OF reads] by blast
      have n3: "w_node w3 = w_node w2" using api_frame(1) [of "LoadOSConfig os key" w2] o by simp
      show thesis
      proof (cases r3)
        case (Inl e)
        with run c None d True o v1 v2 v3 kept show thesis by (auto simp: deleteNode_def Let_def)
      next
        case (Inr conf)
        obtain err4 w4 where x: "deleteVM os (n_Name (w_node w3)) conf w3 = (err4, w4)"
          by (cases "deleteVM os (n_Name (w_node w3)) conf w3")
        have w': "w_api w' = w_api w4"
          using run c None d True o Inr x by (cases err4) (auto simp: deleteNode_def Let_def)
        have name: "n_Name (w_node w3) = n_Name (w_node w)" using n1 n2 n3 by auto
        from reads x show thesis
        proof (cases rule: deleteVM_view)
          case kept
          with v1 v2 v3 w' \<open>view (w_api w') = view (w_api w) \<Longrightarrow> thesis\<close> show thesis by simp
        next
          case (deleted e s g server)
          show thesis
            by (rule that(2) [of w1 pods e conf s g server]) (use deleted n1 pods name w' in auto)
        qed
      qed
    qed
  qed
qed

text \<open>Marking: afterwards the label tells whether the versions differ.\<close>

lemma GetAPIServerVersion_node: "GetAPIServerVersion sv cl w = Some (r, w') \<Longrightarrow> w_node w' = w_node w"
  by (auto simp: GetAPIServerVersion_def split: prod.splits sum.splits list.splits)
    (metis api_frame(1) snd_conv)+

lemma needsKubeletUpdate_Inr:
  assumes "needsKubeletUpdate sv clientset w = Some (Inr upd, w')"
  obtains c kubelet kv av ki where "n_KubeletVersion (w_node w) = c # kubelet" "sv_Parse sv kubelet = Inr kv"
    "clientset = Inr ki" "GetAPIServerVersion sv ki w = Some (Inr av, w')" "upd = sv_NE sv av kv"
proof -
  obtain c kubelet where n: "n_KubeletVersion (w_node w) = c # kubelet"
    using assms by (cases "n_KubeletVersion (w_node w)") (auto simp: needsKubeletUpdate_def)
  moreover obtain kv where "sv_Parse sv kubelet = Inr kv"
    using assms n by (cases "sv_Parse sv kubelet") (auto simp: needsKubeletUpdate_def)
  moreover obtain ki where "clientset = Inr ki"
    using assms calculation
    by (cases clientset) (auto simp: needsKubeletUpdate_def getAPIServerVersion_def)
  moreover obtain res w1 where g: "GetAPIServerVersion sv ki w = Some (res, w1)"
    using assms calculation by (auto simp: needsKubeletUpdate_def getAPIServerVersion_def bind_eq_Some_conv)
  ultimately show thesis
    using assms by (cases res) (auto simp: needsKubeletUpdate_def getAPIServerVersion_def intro!: that)
qed

lemma markUpdate_label:
  assumes run: "markUpdate sv cl clientset w = Some (None, w')" and echo: "patch_echo cl"
  obtains c kubelet kv av ki w1 w2 where "n_KubeletVersion (w_node w) = c # kubelet" "sv_Parse sv kubelet = Inr kv"
    "clientset = Inr ki" "GetAPIServerVersion sv ki w1 = Some (Inr av, w2)" "w_api w1 = w_api w"
    "gm_get (n_Labels (w_node w')) = (gm_get (n_Labels (w_node w)))(KubeletUpdateLabelKey \<mapsto>
       (if sv_NE sv av kv then TrueStr else ''false''))"
proof -
  let ?w1 = "w\<lparr>w_node := (w_node w)\<lparr>n_Labels := gm_ensure (n_Labels (w_node w))\<rparr>\<rparr>"
  obtain res w2 where need: "needsKubeletUpdate sv clientset ?w1 = Some (res, w2)"
    using run by (auto simp: markUpdate_def Let_def bind_eq_Some_conv)
  obtain upd where upd: "res = Inr upd"
    using run need by (cases res) (auto simp: markUpdate_def Let_def)
  obtain labels where put: "gm_put KubeletUpdateLabelKey (if upd then TrueStr else ''false'') (n_Labels (w_node w2)) = Some labels"
    using run need upd by (auto simp: markUpdate_def Let_def bind_eq_Some_conv)
  obtain r3 w3 where patch: "api (c_PatchNode cl ((w_node w2)\<lparr>n_Labels := labels\<rparr>) (w_node w)) w2 = (r3, w3)"
    by (cases "api (c_PatchNode cl ((w_node w2)\<lparr>n_Labels := labels\<rparr>) (w_node w)) w2")
  obtain q where q: "r3 = Inr q" "w' = w3\<lparr>w_node := q\<rparr>"
    using run need upd put patch by (cases r3) (auto simp: markUpdate_def Let_def)
  from need [unfolded upd] obtain c kubelet kv av ki
    where v: "n_KubeletVersion (w_node ?w1) = c # kubelet" "sv_Parse sv kubelet = Inr kv"
    "clientset = Inr ki" "GetAPIServerVersion sv ki ?w1 = Some (Inr av, w2)" "upd = sv_NE sv av kv"
    by (rule needsKubeletUpdate_Inr)
  have "gm_get labels = (gm_get (n_Labels (w_node w)))(KubeletUpdateLabelKey \<mapsto> (if upd then TrueStr else ''false''))"
    using put GetAPIServerVersion_node [OF v(4)] by (simp add: gm_get_put)
  with v q api_patch_echo [OF echo patch [unfolded q]] show thesis
    by (intro that [of c kubelet kv ki ?w1 av w2]) auto
qed

lemma KubernikusCount_passes:
  assumes "KubernikusCount_Check os unmarshal kc p w = Some ((r, err), w')" and "cr_Passed r"
  shows "err = None \<and> (\<exists>sizes nodes w1 w2. fetchKluster os unmarshal kc w = Some (Inr sizes, w1)
    \<and> api (c_ListNodes (P_Client p) AllNodes) w1 = (Inr nodes, w2) \<and> wrap64 (sum_list sizes) \<le> int (length nodes))"
proof -
  obtain res w1 where f: "fetchKluster os unmarshal kc w = Some (res, w1)"
    using assms by (auto simp: KubernikusCount_Check_def bind_eq_Some_conv)
  obtain sizes where s: "res = Inr sizes"
    using assms f by (cases res) (auto simp: KubernikusCount_Check_def)
  obtain r2 w2 where l: "api (c_ListNodes (P_Client p) AllNodes) w1 = (r2, w2)"
    by (cases "api (c_ListNodes (P_Client p) AllNodes) w1")
  obtain nodes where n: "r2 = Inr nodes"
    using assms f s l by (cases r2) (auto simp: KubernikusCount_Check_def)
  show ?thesis
    using assms f s l n by (auto simp: KubernikusCount_Check_def split: if_splits)
qed

text \<open>The check reads the cluster and the list of nodes, and keeps the node.\<close>

lemma fetchKluster_node: "fetchKluster os unmarshal kc w = Some (r, w') \<Longrightarrow> w_node w' = w_node w"
  by (auto simp: fetchKluster_def dest!: api_node split: prod.splits sum.splits)

lemma KubernikusCount_node:
  assumes "KubernikusCount_Check os unmarshal kc p w = Some (r, w')"
  shows "w_node w' = w_node w"
proof -
  obtain res w1 where f: "fetchKluster os unmarshal kc w = Some (res, w1)"
    using assms by (auto simp: KubernikusCount_Check_def bind_eq_Some_conv)
  show ?thesis
    using assms f fetchKluster_node [OF f]
    by (cases res) (auto simp: KubernikusCount_Check_def dest!: api_node split: prod.splits sum.splits if_splits)
qed

interpretation kubernikusCount: checker_keeps_node "KubernikusCount os unmarshal kc" for os unmarshal kc
  by unfold_locales (auto simp: KubernikusCount_def no_hook_def dest: KubernikusCount_node)

end
