(* ===== verification/Notifiers.thy ===== *)
theory Notifiers
  imports Drain
begin

text \<open>
  The notification plugins: \<open>plugin/impl/slack.go\<close>, \<open>plugin/impl/mail.go\<close> and
  \<open>RenderNotificationTemplate\<close> of \<open>plugin/notification.go\<close>. The template engine, the JSON
  encoder, HTTP, SMTP and the Slack client are parameters. The lemmas show how
  \<open>SlackThread\<close> groups messages: the lease written when a thread starts makes every
  notification within the period a reply to that thread.
\<close>

section \<open>Parameters\<close>

text \<open>\<open>'t\<close>: parsed templates, \<open>'q\<close>: HTTP requests. A Slack client is a token and the URL option.\<close>

record slack_client =
  sl_token :: string
  sl_url :: "string option"

record ('s, 't, 'q) messaging =
  tmpl_Parse :: "string \<Rightarrow> error + 't"
  tmpl_Execute :: "'t \<Rightarrow> 's params \<Rightarrow> node \<Rightarrow> error + string"
  json_Marshal :: "(string \<times> string) list \<Rightarrow> error + string"
  http_NewPost :: "string \<Rightarrow> string \<Rightarrow> error + 'q" \<comment> \<open>URL and body\<close>
  http_DoPost :: "'q \<Rightarrow> (string \<times> string) list \<Rightarrow> ('s, error + string) request" \<comment> \<open>headers; reading the body\<close>
  slack_Post :: "slack_client \<Rightarrow> string \<Rightarrow> string \<Rightarrow> string option \<Rightarrow> ('s, string) request"
    \<comment> \<open>channel, text and thread; the result is the timestamp of the message\<close>
  smtp_SendMail :: "string \<Rightarrow> (string \<times> string \<times> string \<times> string) option \<Rightarrow> string \<Rightarrow> string list \<Rightarrow> string
    \<Rightarrow> ('s, unit) request" \<comment> \<open>address, \<open>PlainAuth\<close>, sender, recipients, message\<close>

definition RenderNotificationTemplate ::
    "('s, 't, 'q) messaging \<Rightarrow> string \<Rightarrow> 's params \<Rightarrow> 's world \<Rightarrow> error + string" where
  "RenderNotificationTemplate ms templateStr p w =
     (case tmpl_Parse ms templateStr of
        Inl e \<Rightarrow> Inl e
      | Inr templateObj \<Rightarrow> tmpl_Execute ms templateObj p (w_node w))"

section \<open>Mail (mail.go)\<close>

record mail =
  ml_Auth :: bool
  ml_Message :: string
  ml_Subject :: string
  ml_Address :: string
  ml_From :: string
  ml_To :: "string list"
  ml_Identity :: string
  ml_User :: string
  ml_Password :: string

definition crlf :: string where
  "crlf = [CHR 13, CHR 10]"

definition buildMailHeader :: "mail \<Rightarrow> string" where
  "buildMailHeader m =
     (let recipients = strings_Join (ml_To m) '',''
      in ''From: '' @ ml_From m @ crlf @ ''To: '' @ recipients @ crlf @ ''Subject: '' @ ml_Subject m @ crlf @ crlf)"

definition Mail_Notify :: "('s, 't, 'q) messaging \<Rightarrow> mail \<Rightarrow> ('s, error option) plugin_method" where
  "Mail_Notify ms m p w =
     (case RenderNotificationTemplate ms (ml_Message m) p w of
        Inl e \<Rightarrow> Some (Some e, w)
      | Inr text \<Rightarrow>
          let theMessage = buildMailHeader m @ text;
              auth = (if ml_Auth m
                then Some (ml_Identity m, ml_User m, ml_Password m, hd (strings_Split (ml_Address m) '':''))
                else None)
          in (case api (smtp_SendMail ms (ml_Address m) auth (ml_From m) (ml_To m) theMessage) w of
                (Inl e, w) \<Rightarrow> Some (Some e, w)
              | (Inr _, w) \<Rightarrow> Some (None, w)))"

definition Mail :: "('s, 't, 'q) messaging \<Rightarrow> mail \<Rightarrow> 's notifier" where
  "Mail ms m = \<lparr>Notify = Mail_Notify ms m, nf_ID = ''mail''\<rparr>"

definition Mail_New ::
    "('s, 't, 'q) messaging \<Rightarrow> ('c, mail) unpacker \<Rightarrow> ('c, 's notifier) constructor" where
  "Mail_New ms unpack config addr = construct unpack (\<lambda>conf. Inr (Mail ms conf)) config"

section \<open>Slack webhook (slack.go)\<close>

record slack_webhook =
  sw_Hook :: string
  sw_Channel :: string
  sw_Message :: string

text \<open>The header of a nil request is set before the error of its creation is looked at.\<close>

definition SlackWebhook_Notify ::
    "('s, 't, 'q) messaging \<Rightarrow> slack_webhook \<Rightarrow> ('s, error option) plugin_method" where
  "SlackWebhook_Notify ms sw p w =
     (case RenderNotificationTemplate ms (sw_Message sw) p w of
        Inl e \<Rightarrow> Some (Some e, w)
      | Inr theMessage \<Rightarrow>
     (case json_Marshal ms [(''text'', theMessage), (''channel'', sw_Channel sw)] of
        Inl e \<Rightarrow> Some (Some e, w)
      | Inr marshaled \<Rightarrow>
     (case http_NewPost ms (sw_Hook sw) marshaled of
        Inl e \<Rightarrow> None
      | Inr req \<Rightarrow>
     (case api (http_DoPost ms req [(''Content-Type'', ''application/json'')]) w of
        (Inl e, w) \<Rightarrow> Some (Some e, w)
      | (Inr (Inl e), w) \<Rightarrow> Some (Some e, w)
      | (Inr (Inr bodyBytes), w) \<Rightarrow>
          if bodyBytes \<noteq> ''ok'' then Some (Some (ErrorString ''slack webhook response is not ok''), w)
          else Some (None, w)))))"

definition SlackWebhook :: "('s, 't, 'q) messaging \<Rightarrow> slack_webhook \<Rightarrow> 's notifier" where
  "SlackWebhook ms sw = \<lparr>Notify = SlackWebhook_Notify ms sw, nf_ID = ''slack''\<rparr>"

definition SlackWebhook_New ::
    "('s, 't, 'q) messaging \<Rightarrow> ('c, slack_webhook) unpacker \<Rightarrow> ('c, 's notifier) constructor" where
  "SlackWebhook_New ms unpack config addr = construct unpack (\<lambda>conf. Inr (SlackWebhook ms conf)) config"

section \<open>Slack threads (slack.go)\<close>

record slack_thread =
  sth_Token :: string
  sth_Channel :: string
  sth_Title :: string
  sth_Message :: string
  sth_LeaseName :: namespaced_name
  sth_Period :: duration
  sth_testURL :: string

definition SetTestURL :: "string \<Rightarrow> slack_thread \<Rightarrow> slack_thread" where
  "SetTestURL url st = st\<lparr>sth_testURL := url\<rparr>"

definition makeSlack :: "slack_thread \<Rightarrow> slack_client" where
  "makeSlack st =
     (if sth_testURL st = [] then \<lparr>sl_token = sth_Token st, sl_url = None\<rparr>
      else \<lparr>sl_token = sth_Token st, sl_url = Some (sth_testURL st)\<rparr>)"

definition postTitle ::
    "('s, 't, 'q) messaging \<Rightarrow> slack_thread \<Rightarrow> 's params \<Rightarrow> slack_client \<Rightarrow> 's world \<Rightarrow> (error + string) \<times> 's world" where
  "postTitle ms st p sl w =
     (case RenderNotificationTemplate ms (sth_Title st) p w of
        Inl e \<Rightarrow> (Inl e, w)
      | Inr theMessage \<Rightarrow> api (slack_Post ms sl (sth_Channel st) theMessage None) w)"

definition replyMessage ::
    "('s, 't, 'q) messaging \<Rightarrow> slack_thread \<Rightarrow> 's params \<Rightarrow> slack_client \<Rightarrow> string \<Rightarrow> 's world
      \<Rightarrow> error option \<times> 's world" where
  "replyMessage ms st p sl parentTS w =
     (case RenderNotificationTemplate ms (sth_Message st) p w of
        Inl e \<Rightarrow> (Some e, w)
      | Inr theMessage \<Rightarrow>
          (case api (slack_Post ms sl (sth_Channel st) theMessage (Some parentTS)) w of
             (Inl e, w) \<Rightarrow> (Some e, w)
           | (Inr _, w) \<Rightarrow> (None, w)))"

definition startThread ::
    "('s, 't, 'q) messaging \<Rightarrow> slack_thread \<Rightarrow> 's params \<Rightarrow> slack_client \<Rightarrow> 's world \<Rightarrow> (error + string) \<times> 's world" where
  "startThread ms st p sl w =
     (case postTitle ms st p sl w of
        (Inl e, w) \<Rightarrow> (Inl (WrapError ''failed to post message to slack: '' e), w)
      | (Inr parentTS, w) \<Rightarrow>
          (case replyMessage ms st p sl parentTS w of
             (Some e, w) \<Rightarrow> (Inl (WrapError ''failed to reply to slack thread: '' e), w)
           | (None, w) \<Rightarrow> (Inr parentTS, w)))"

definition slack_createLease :: "slack_thread \<Rightarrow> 's params \<Rightarrow> string \<Rightarrow> 's world \<Rightarrow> error option \<times> 's world" where
  "slack_createLease st p parentTS w =
     (let (now, w) = time_Now w;
          lease = \<lparr>l_Namespace = fst (sth_LeaseName st), l_Name = snd (sth_LeaseName st),
            l_HolderIdentity = Some parentTS, l_AcquireTime = Some (UTC now), l_RenewTime = Some (UTC now),
            l_LeaseDurationSeconds = Some (int32_seconds (sth_Period st)), l_LeaseTransitions = None\<rparr>
      in case api (c_CreateLease (P_Client p) lease) w of
           (Inl e, w) \<Rightarrow> (Some e, w)
         | (Inr _, w) \<Rightarrow> (None, w))"

definition slack_updateLease ::
    "slack_thread \<Rightarrow> 's params \<Rightarrow> string \<Rightarrow> lease \<Rightarrow> 's world \<Rightarrow> error option \<times> 's world" where
  "slack_updateLease st p parentTS lease w =
     (let (now, w) = time_Now w;
          modified = lease\<lparr>l_HolderIdentity := Some parentTS, l_RenewTime := Some (UTC now),
            l_LeaseDurationSeconds := Some (int32_seconds (sth_Period st))\<rparr>
      in case api (c_PatchLease (P_Client p) modified lease) w of
           (Inl e, w) \<Rightarrow> (Some e, w)
         | (Inr _, w) \<Rightarrow> (None, w))"

text \<open>\<open>%s\<close> of a namespaced name.\<close>

definition lease_string :: "namespaced_name \<Rightarrow> string" where
  "lease_string key = fst key @ ''/'' @ snd key"

definition SlackThread_Notify ::
    "('s, 't, 'q) messaging \<Rightarrow> slack_thread \<Rightarrow> ('s, error option) plugin_method" where
  "SlackThread_Notify ms st p w =
     (let sl = makeSlack st
      in case api (c_GetLease (P_Client p) (sth_LeaseName st)) w of
        (Inl e, w) \<Rightarrow>
          if IsNotFound e
          then (case startThread ms st p sl w of
              (Inl e, w) \<Rightarrow> Some (Some (WrapError ''failed to create slack thread: '' e), w)
            | (Inr parentTS, w) \<Rightarrow>
                (case slack_createLease st p parentTS w of
                   (Some e, w) \<Rightarrow> Some (Some (WrapError (''failed to create slack thread lease ''
                     @ lease_string (sth_LeaseName st) @ '': '') e), w)
                 | (None, w) \<Rightarrow> Some (None, w)))
          else Some (Some e, w)
      | (Inr lease, w) \<Rightarrow>
          (case (l_RenewTime lease, l_LeaseDurationSeconds lease) of
             (Some renew, Some secs) \<Rightarrow>
               let (since, w) = time_Since renew w
               in if since \<le> secs * Second
                  then (case l_HolderIdentity lease of
                      None \<Rightarrow> Some (Some (ErrorString ''slack thread leases has no holder''), w)
                    | Some holder \<Rightarrow>
                        (case replyMessage ms st p sl holder w of
                           (Some e, w) \<Rightarrow> Some (Some (WrapError ''failed to reply to slack thread: '' e), w)
                         | (None, w) \<Rightarrow> Some (None, w)))
                  else (case startThread ms st p sl w of
                      (Inl e, w) \<Rightarrow> Some (Some (WrapError ''failed to create slack thread: '' e), w)
                    | (Inr parentTS, w) \<Rightarrow>
                        (case slack_updateLease st p parentTS lease w of
                           (Some e, w) \<Rightarrow> Some (Some (WrapError (''failed to update slack thread lease ''
                             @ lease_string (sth_LeaseName st) @ '': '') e), w)
                         | (None, w) \<Rightarrow> Some (None, w)))
           | _ \<Rightarrow> None))" \<comment> \<open>nil dereference\<close>

definition SlackThread :: "('s, 't, 'q) messaging \<Rightarrow> slack_thread \<Rightarrow> 's notifier" where
  "SlackThread ms st = \<lparr>Notify = SlackThread_Notify ms st, nf_ID = ''slackThread''\<rparr>"

record slack_thread_conf =
  stc_Token :: string
  stc_Channel :: string
  stc_Title :: string
  stc_Message :: string
  stc_LeaseName :: string
  stc_LeaseNamespace :: string
  stc_Period :: duration

definition build_slack_thread :: "slack_thread_conf \<Rightarrow> slack_thread" where
  "build_slack_thread conf =
     \<lparr>sth_Token = stc_Token conf, sth_Channel = stc_Channel conf, sth_Title = stc_Title conf,
      sth_Message = stc_Message conf, sth_LeaseName = (stc_LeaseNamespace conf, stc_LeaseName conf),
      sth_Period = stc_Period conf, sth_testURL = []\<rparr>"

definition SlackThread_New ::
    "('s, 't, 'q) messaging \<Rightarrow> ('c, slack_thread_conf) unpacker \<Rightarrow> ('c, 's notifier) constructor" where
  "SlackThread_New ms unpack config addr =
     construct unpack (\<lambda>conf. Inr (SlackThread ms (build_slack_thread conf))) config"

section \<open>What a thread groups\<close>

text \<open>A lease keeps a thread open at an instant.\<close>

definition thread_open :: "lease \<Rightarrow> string \<Rightarrow> gotime \<Rightarrow> bool" where
  "thread_open l ts now \<longleftrightarrow> l_HolderIdentity l = Some ts \<and>
     (\<exists>renew secs. l_RenewTime l = Some renew \<and> l_LeaseDurationSeconds l = Some secs \<and> Sub now renew \<le> secs * Second)"

lemma SlackThread_replies:
  assumes get: "api (c_GetLease (P_Client p) (sth_LeaseName st)) w = (Inr l, w1)"
    and ongoing: "thread_open l ts (fst (time_Now w1))"
  shows "\<exists>err w2. replyMessage ms st p (makeSlack st) ts (snd (time_Now w1)) = (err, w2)
    \<and> SlackThread_Notify ms st p w = Some (map_option (WrapError ''failed to reply to slack thread: '') err, w2)"
proof -
  obtain err w2 where r: "replyMessage ms st p (makeSlack st) ts (snd (time_Now w1)) = (err, w2)"
    by (cases "replyMessage ms st p (makeSlack st) ts (snd (time_Now w1))")
  from ongoing obtain renew secs where "l_HolderIdentity l = Some ts" "l_RenewTime l = Some renew"
    "l_LeaseDurationSeconds l = Some secs" "Sub (fst (time_Now w1)) renew \<le> secs * Second"
    by (auto simp: thread_open_def)
  with get r show ?thesis
    by (cases err) (simp_all add: SlackThread_Notify_def Let_def time_Since_def split_def)
qed

text \<open>
  A notification that succeeds without an open thread has posted the title, posted the message
  as a reply to it and written a lease that keeps this thread open for the period.
\<close>

definition writes_lease :: "'s client \<Rightarrow> lease \<Rightarrow> 's \<Rightarrow> 's \<Rightarrow> bool" where
  "writes_lease cl l s s' \<longleftrightarrow> (\<exists>r. c_CreateLease cl l s = (Inr r, s')) \<or> (\<exists>b r. c_PatchLease cl l b s = (Inr r, s'))"

lemma slack_lease_written:
  "slack_createLease st p ts w = (None, w') \<Longrightarrow>
   \<exists>l. writes_lease (P_Client p) l (w_api w) (w_api w') \<and> (\<forall>now. thread_open l ts now \<longleftrightarrow>
      Sub now (UTC (fst (time_Now w))) \<le> int32_seconds (sth_Period st) * Second)"
  "slack_updateLease st p ts old w = (None, w') \<Longrightarrow>
   \<exists>l. writes_lease (P_Client p) l (w_api w) (w_api w') \<and> (\<forall>now. thread_open l ts now \<longleftrightarrow>
      Sub now (UTC (fst (time_Now w))) \<le> int32_seconds (sth_Period st) * Second)"
  by (auto simp: slack_createLease_def slack_updateLease_def thread_open_def writes_lease_def api_def Let_def
      split: prod.splits sum.splits) (fastforce simp: time_Now_def)+

lemma startThread_posts:
  assumes "startThread ms st p sl w = (Inr ts, w')"
  obtains title msg s r where "RenderNotificationTemplate ms (sth_Title st) p w = Inr title"
    "slack_Post ms sl (sth_Channel st) title None (w_api w) = (Inr ts, s)"
    "RenderNotificationTemplate ms (sth_Message st) p w = Inr msg"
    "slack_Post ms sl (sth_Channel st) msg (Some ts) s = (Inr r, w_api w')"
proof -
  obtain title where t: "RenderNotificationTemplate ms (sth_Title st) p w = Inr title"
    using assms by (cases "RenderNotificationTemplate ms (sth_Title st) p w")
      (auto simp: startThread_def postTitle_def)
  obtain s where s: "slack_Post ms sl (sth_Channel st) title None (w_api w) = (Inr ts, s)"
    using assms t by (cases "slack_Post ms sl (sth_Channel st) title None (w_api w)")
      (auto simp: startThread_def postTitle_def api_def split: prod.splits sum.splits option.splits)
  let ?w = "w\<lparr>w_api := s\<rparr>"
  have r: "replyMessage ms st p sl ts ?w = (None, w')"
    using assms t s by (auto simp: startThread_def postTitle_def api_def split: prod.splits sum.splits option.splits)
  obtain msg where m: "RenderNotificationTemplate ms (sth_Message st) p w = Inr msg"
    using r by (cases "RenderNotificationTemplate ms (sth_Message st) p w")
      (auto simp: replyMessage_def RenderNotificationTemplate_def split: sum.splits)
  then have "RenderNotificationTemplate ms (sth_Message st) p ?w = Inr msg"
    by (simp add: RenderNotificationTemplate_def split: sum.splits)
  with r obtain x where "slack_Post ms sl (sth_Channel st) msg (Some ts) s = (Inr x, w_api w')"
    by (auto simp: replyMessage_def api_def split: prod.splits sum.splits)
  with t s m show thesis by (rule that)
qed

lemma SlackThread_starts:
  assumes run: "SlackThread_Notify ms st p w = Some (None, w')"
    and get: "api (c_GetLease (P_Client p) (sth_LeaseName st)) w = (res, w1)"
    and closed: "\<forall>l ts. res = Inr l \<longrightarrow> \<not> thread_open l ts (fst (time_Now w1))"
  obtains ts w2 w3 l where "startThread ms st p (makeSlack st) w2 = (Inr ts, w3)" "w_api w2 = w_api w1"
    "writes_lease (P_Client p) l (w_api w3) (w_api w')"
    "\<And>now. thread_open l ts now \<longleftrightarrow> Sub now (UTC (fst (time_Now w3))) \<le> int32_seconds (sth_Period st) * Second"
proof (cases res)
  case (Inl e)
  obtain ts w3 where s: "startThread ms st p (makeSlack st) w1 = (Inr ts, w3)"
    using run get Inl by (cases "startThread ms st p (makeSlack st) w1"; cases "fst (startThread ms st p (makeSlack st) w1)")
      (auto simp: SlackThread_Notify_def Let_def split: if_splits)
  obtain err w4 where c: "slack_createLease st p ts w3 = (err, w4)" by (cases "slack_createLease st p ts w3")
  have "err = None" "w4 = w'"
    using run get Inl s c by (cases err; auto simp: SlackThread_Notify_def Let_def split: if_splits)+
  with c have "slack_createLease st p ts w3 = (None, w')" by simp
  from slack_lease_written(1) [OF this] s that show thesis by blast
next
  case (Inr l)
  obtain renew secs where l: "l_RenewTime l = Some renew" "l_LeaseDurationSeconds l = Some secs"
    using run get Inr by (auto simp: SlackThread_Notify_def Let_def split: option.splits)
  let ?w2 = "snd (time_Now w1)"
  have over: "\<not> Sub (fst (time_Now w1)) renew \<le> secs * Second"
  proof
    assume fresh: "Sub (fst (time_Now w1)) renew \<le> secs * Second"
    with closed Inr l have "l_HolderIdentity l = None" by (cases "l_HolderIdentity l") (auto simp: thread_open_def)
    with run get Inr l fresh show False by (simp add: SlackThread_Notify_def Let_def time_Since_def split_def)
  qed
  obtain ts w3 where s: "startThread ms st p (makeSlack st) ?w2 = (Inr ts, w3)"
    using run get Inr l over by (cases "startThread ms st p (makeSlack st) ?w2"; cases "fst (startThread ms st p (makeSlack st) ?w2)")
      (auto simp: SlackThread_Notify_def Let_def time_Since_def split_def)
  obtain err w4 where c: "slack_updateLease st p ts l w3 = (err, w4)" by (cases "slack_updateLease st p ts l w3")
  have "err = None" "w4 = w'"
    using run get Inr l over s c by (cases err; simp add: SlackThread_Notify_def Let_def time_Since_def split_def)+
  with c have "slack_updateLease st p ts l w3 = (None, w')" by simp
  from slack_lease_written(2) [OF this] obtain l' where
    "writes_lease (P_Client p) l' (w_api w3) (w_api w')"
    "\<And>now. thread_open l' ts now \<longleftrightarrow> Sub now (UTC (fst (time_Now w3))) \<le> int32_seconds (sth_Period st) * Second"
    by blast
  with s show thesis by (intro that [of ?w2 ts w3 l']) simp_all
qed

end
