(* ===== verification/Queries.thy ===== *)
theory Queries
  imports Drain
begin

text \<open>
  The plugins that query other systems: \<open>plugin/impl/prometheus.go\<close> and the hypervisor
  plugins of \<open>plugin/impl/hypervisor.go\<close>. The hypervisor type comes from another module, so
  its two structs are values over an arbitrary list of fields; what the source does with the
  package \<open>reflect\<close> is modelled on these, panics included. The main lemmas show that the
  validation on construction is strong enough: a check built from validated fields neither
  panics nor fails on a well-typed status, and the trigger patches exactly the given fields.
\<close>

section \<open>Prometheus (prometheus.go)\<close>

record prometheus_instant =
  pi_URL :: string
  pi_Query :: string
  pi_Expr :: string

text \<open>A result of a query; the samples of a vector are the bits of a float64.\<close>

datatype prom_value = PromVector "int list" | PromOther

record ('s, 'p) prometheus =
  prom_NewClient :: "string \<Rightarrow> error + 'p"
  prom_Query :: "'p \<Rightarrow> string \<Rightarrow> gotime \<Rightarrow> ('s, prom_value \<times> string list) request"
  gval_NewEvaluable :: "string \<Rightarrow> error + ((string \<times> int) list \<Rightarrow> error + bool)"

definition PrometheusInstant_Check ::
    "('s, 'p) prometheus \<Rightarrow> prometheus_instant \<Rightarrow> ('s, check_result \<times> error option) plugin_method" where
  "PrometheusInstant_Check pm pq p w =
     (let info = [(''url'', StrV (pi_URL pq)), (''query'', StrV (pi_Query pq)), (''expr'', StrV (pi_Expr pq))]
      in case prom_NewClient pm (pi_URL pq) of
        Inl e \<Rightarrow> Some ((Failed (Some info),
          Some (WrapError (''failed to create prometheus client for '' @ pi_URL pq @ '': '') e)), w)
      | Inr promClient \<Rightarrow>
          let (now, w) = time_Now w
          in case api (prom_Query pm promClient (pi_Query pq) now) w of
            (Inl e, w) \<Rightarrow> Some ((Failed (Some info),
              Some (WrapError (''failed to query prometheus '' @ pi_URL pq @ '': '') e)), w)
          | (Inr (result, warns), w) \<Rightarrow>
              let info = (if warns \<noteq> [] then AList.update ''warns'' (ListV (map StrV warns)) info else info)
              in case result of
                PromOther \<Rightarrow> Some ((Failed (Some info),
                  Some (ErrorString ''result from prometheus is not a vector'')), w)
              | PromVector vector \<Rightarrow>
                  (case vector of
                     [value] \<Rightarrow>
                       let info = AList.update ''value'' (FloatV value) info
                       in (case gval_NewEvaluable pm (pi_Expr pq) of
                            Inl e \<Rightarrow> Some ((Failed (Some info), Some e), w)
                          | Inr evaluable \<Rightarrow>
                              (case evaluable [(''value'', value)] of
                                 Inl e \<Rightarrow> Some ((Failed (Some info),
                                   Some (WrapError ''failed to evaluate prometheus expression: '' e)), w)
                               | Inr passed \<Rightarrow>
                                   if \<not> passed then Some ((Failed (Some info), None), w)
                                   else Some ((Passed (Some info), None), w)))
                   | _ \<Rightarrow> Some ((Failed (Some info),
                       Some (ErrorString ''result does not contain exactly one element'')), w)))"

definition PrometheusInstant :: "('s, 'p) prometheus \<Rightarrow> prometheus_instant \<Rightarrow> 's checker" where
  "PrometheusInstant pm pq =
     \<lparr>Check = PrometheusInstant_Check pm pq, c_ID = ''prometheusInstant'', OnTransition = no_hook\<rparr>"

definition PrometheusInstant_New ::
    "('s, 'p) prometheus \<Rightarrow> ('c, prometheus_instant) unpacker \<Rightarrow> ('c, 's checker) constructor" where
  "PrometheusInstant_New pm unpack config addr = construct unpack (\<lambda>conf. Inr (PrometheusInstant pm conf)) config"

section \<open>Reflection\<close>

text \<open>
  Types as far as the sources distinguish them, the values of a configuration (an interface
  value with its dynamic type, \<open>None\<close> for nil) and the fields of a struct.
\<close>

datatype go_type = BoolT | StringT | IntT | SliceT go_type | NamedT string go_type | OtherT string

datatype go_any = BoolA bool | StringA string | StringsA "string list" | IntA int | OtherA "go_type option"

datatype go_value = BoolGV bool | StringGV string | StringsGV "string list" | IntGV int | OtherGV

fun underlying :: "go_type \<Rightarrow> go_type" where
  "underlying (NamedT n t) = underlying t"
| "underlying t = t"

fun type_string :: "go_type \<Rightarrow> string" where
  "type_string BoolT = ''bool''"
| "type_string StringT = ''string''"
| "type_string IntT = ''int''"
| "type_string (SliceT t) = ''[]'' @ type_string t"
| "type_string (NamedT n t) = n"
| "type_string (OtherT n) = n"

fun TypeOf :: "go_any \<Rightarrow> go_type option" where
  "TypeOf (BoolA b) = Some BoolT"
| "TypeOf (StringA s) = Some StringT"
| "TypeOf (StringsA ss) = Some (SliceT StringT)"
| "TypeOf (IntA i) = Some IntT"
| "TypeOf (OtherA t) = t"

definition opt_type_string :: "go_type option \<Rightarrow> string" where
  "opt_type_string t = (case t of None \<Rightarrow> ''<nil>'' | Some t \<Rightarrow> type_string t)"

record struct_field =
  sf_Name :: string
  sf_Tag :: string \<comment> \<open>the \<open>json\<close> tag\<close>
  sf_Type :: go_type

record struct_type =
  sty_Name :: string
  sty_Fields :: "struct_field list"

type_synonym struct_value = "(string \<times> go_type \<times> go_value) list"

definition FieldByName :: "struct_type \<Rightarrow> string \<Rightarrow> struct_field option" where
  "FieldByName t name = List.find (\<lambda>f. sf_Name f = name) (sty_Fields t)"

definition exported :: "string \<Rightarrow> bool" where
  "exported name = (case name of [] \<Rightarrow> False | c # _ \<Rightarrow> 65 \<le> (of_char c :: nat) \<and> (of_char c :: nat) \<le> 90)"

text \<open>\<open>Value.Bool\<close> panics on other kinds; \<open>Value.String\<close> gives a description for them.\<close>

definition Value_Bool :: "go_type \<times> go_value \<Rightarrow> bool option" where
  "Value_Bool f = (case snd f of BoolGV b \<Rightarrow> Some b | _ \<Rightarrow> None)"

definition Value_String :: "go_type \<times> go_value \<Rightarrow> string" where
  "Value_String f = (case snd f of StringGV s \<Rightarrow> s | _ \<Rightarrow> ''<'' @ type_string (fst f) @ '' Value>'')"

text \<open>Type assertions on \<open>Value.Interface\<close> want the very type.\<close>

definition assert_strings :: "go_type \<times> go_value \<Rightarrow> string list option" where
  "assert_strings f = (case f of (SliceT StringT, StringsGV ss) \<Rightarrow> Some ss | _ \<Rightarrow> None)"

definition assert_int :: "go_type \<times> go_value \<Rightarrow> int option" where
  "assert_int f = (case f of (IntT, IntGV i) \<Rightarrow> Some i | _ \<Rightarrow> None)"

section \<open>Validation of the configured wanted (hypervisor.go)\<close>

definition json_name :: "string \<Rightarrow> string" where
  \<comment> \<open>\<open>strings.SplitN(tag, ",", 2)[0]\<close>\<close>
  "json_name tag = takeWhile (\<lambda>c. c \<noteq> CHR '','') tag"

definition jsonToStructField :: "struct_type \<Rightarrow> (string \<times> string) list" where
  "jsonToStructField t = fold (\<lambda>f. AList.update (json_name (sf_Tag f)) (sf_Name f)) (sty_Fields t) []"

fun map_fields ::
    "(string \<times> go_any) list \<Rightarrow> struct_type \<Rightarrow> (string \<times> go_any) list \<Rightarrow> error + (string \<times> go_any) list" where
  "map_fields [] t structFields = Inr structFields"
| "map_fields ((key, value) # rest) t structFields =
     (case map_of (jsonToStructField t) key of
        None \<Rightarrow> Inl (ErrorString (''field '' @ key @ '' not found in '' @ sty_Name t))
      | Some structFieldName \<Rightarrow>
          let expected = map_option sf_Type (FieldByName t structFieldName)
          in if TypeOf value \<noteq> expected
             then Inl (ErrorString (''field '' @ key @ '' has incorrect type: expected ''
                    @ opt_type_string expected @ '', got '' @ opt_type_string (TypeOf value)))
             else map_fields rest t (AList.update structFieldName value structFields))"

definition mapToStructFields ::
    "(string, go_any) gomap \<Rightarrow> struct_type \<Rightarrow> error + (string, go_any) gomap" where
  "mapToStructFields wanted t =
     (case map_fields (gm_items wanted) t [] of Inl e \<Rightarrow> Inl e | Inr structFields \<Rightarrow> Inr (Some structFields))"

section \<open>Checking and altering a hypervisor (hypervisor.go)\<close>

record hypervisor =
  hv_Spec :: struct_value
  hv_Status :: struct_value
  hv_Conditions :: "(string \<times> string) list" \<comment> \<open>type and status\<close>

text \<open>
  The custom resource is read and patched by the client; \<open>RetryOnConflict\<close> of client-go runs a
  function again.
\<close>

record 's hypervisors =
  hv_Get :: "string \<Rightarrow> ('s, hypervisor) request"
  hv_Patch :: "hypervisor \<Rightarrow> hypervisor \<Rightarrow> ('s, hypervisor) request"
  RetryOnConflict :: "('s world \<Rightarrow> (error option \<times> 's world) option) \<Rightarrow> 's world \<Rightarrow> (error option \<times> 's world) option"
  sty_Spec :: struct_type
  sty_Status :: struct_type

text \<open>One field: an error, or whether it has the wanted value.\<close>

definition check_field :: "struct_value \<Rightarrow> string \<Rightarrow> go_any \<Rightarrow> (error + bool) option" where
  "check_field status key value =
     (case map_of status key of
        None \<Rightarrow> Some (Inl (ErrorString (''field '' @ key @ '' not found in Hypervisor status'')))
      | Some f \<Rightarrow>
          (case value of
             BoolA v \<Rightarrow> map_option (\<lambda>b. Inr (b = v)) (Value_Bool f)
           | StringA v \<Rightarrow> Some (Inr (Value_String f = v))
           | StringsA v \<Rightarrow>
               if \<not> exported key then None
               else (case assert_strings f of
                  None \<Rightarrow> Some (Inl (ErrorString (''field '' @ key @ '' is not of type []string'')))
                | Some fieldSlice \<Rightarrow> Some (Inr (fieldSlice = v)))
           | IntA v \<Rightarrow>
               if \<not> exported key then None
               else (case assert_int f of
                  None \<Rightarrow> Some (Inl (ErrorString (''field '' @ key @ '' is not of type int'')))
                | Some fieldInt \<Rightarrow> Some (Inr (fieldInt = v)))
           | OtherA t \<Rightarrow> Some (Inl (ErrorString (''unsupported field type '' @ opt_type_string t
               @ '' for field '' @ key)))))"

fun check_fields :: "(string \<times> go_any) list \<Rightarrow> struct_value \<Rightarrow> (check_result \<times> error option) option" where
  "check_fields [] status = Some (Passed None, None)"
| "check_fields ((key, value) # rest) status = do {
     r \<leftarrow> check_field status key value;
     case r of
       Inl e \<Rightarrow> Some (Failed None, Some e)
     | Inr same \<Rightarrow> if \<not> same then Some (Failed None, None) else check_fields rest status }"

definition CheckHypervisor_Check ::
    "'s hypervisors \<Rightarrow> (string, go_any) gomap \<Rightarrow> ('s, check_result \<times> error option) plugin_method" where
  "CheckHypervisor_Check hs wanted p w =
     (case api (hv_Get hs (n_Name (w_node w))) w of
        (Inl e, w) \<Rightarrow> Some ((Failed None, Some e), w)
      | (Inr h, w) \<Rightarrow> map_option (\<lambda>r. (r, w)) (check_fields (gm_items wanted) (hv_Status h)))"

definition CheckHypervisor :: "'s hypervisors \<Rightarrow> (string, go_any) gomap \<Rightarrow> 's checker" where
  "CheckHypervisor hs wanted =
     \<lparr>Check = CheckHypervisor_Check hs wanted, c_ID = ''checkHypervisor'', OnTransition = no_hook\<rparr>"

definition CheckHypervisor_New ::
    "'s hypervisors \<Rightarrow> ('c, (string, go_any) gomap) unpacker \<Rightarrow> ('c, 's checker) constructor" where
  "CheckHypervisor_New hs unpack config addr = construct unpack
     (\<lambda>conf. case mapToStructFields conf (sty_Status hs) of
        Inl e \<Rightarrow> Inl e | Inr mappedFields \<Rightarrow> Inr (CheckHypervisor hs mappedFields)) config"

definition HypervisorCondition_Check ::
    "'s hypervisors \<Rightarrow> condition \<Rightarrow> ('s, check_result \<times> error option) plugin_method" where
  "HypervisorCondition_Check hs c p w =
     (case api (hv_Get hs (n_Name (w_node w))) w of
        (Inl e, w) \<Rightarrow> Some ((Failed None, Some e), w)
      | (Inr h, w) \<Rightarrow>
          (case find_condition (co_Type c) (hv_Conditions h) of
             Some status \<Rightarrow> Some ((check_bool (status = co_Status c)
                 (Some [(''current'', StrV status), (''expected'', StrV (co_Status c))]), None), w)
           | None \<Rightarrow> Some ((FailedWithReason (''condition '' @ co_Type c @ '' not present''), None), w)))"

definition HypervisorCondition :: "'s hypervisors \<Rightarrow> condition \<Rightarrow> 's checker" where
  "HypervisorCondition hs c =
     \<lparr>Check = HypervisorCondition_Check hs c, c_ID = ''hypervisorCondition'', OnTransition = no_hook\<rparr>"

definition HypervisorCondition_New ::
    "'s hypervisors \<Rightarrow> ('c, condition) unpacker \<Rightarrow> ('c, 's checker) constructor" where
  "HypervisorCondition_New hs unpack config addr = construct unpack (\<lambda>conf. Inr (HypervisorCondition hs conf)) config"

text \<open>
  One field is set; \<open>Value.Set\<close> panics when the value is not assignable to the type of the
  field, which \<open>[]string\<close> is to its own type and to names for it.
\<close>

definition set_field :: "struct_value \<Rightarrow> string \<Rightarrow> go_any \<Rightarrow> (error + struct_value) option" where
  "set_field spec key value =
     (case map_of spec key of
        None \<Rightarrow> Some (Inl (ErrorString (''field '' @ key @ '' not found in Hypervisor spec'')))
      | Some (t, old) \<Rightarrow>
          if \<not> exported key then Some (Inl (ErrorString (''cannot set field '' @ key @ '' in Hypervisor spec'')))
          else (case value of
             BoolA v \<Rightarrow>
               if underlying t \<noteq> BoolT
               then Some (Inl (ErrorString (''field '' @ key @ '' is not of type bool, expected '' @ type_string t)))
               else Some (Inr (AList.update key (t, BoolGV v) spec))
           | StringA v \<Rightarrow>
               if underlying t \<noteq> StringT
               then Some (Inl (ErrorString (''field '' @ key @ '' is not of type string, expected '' @ type_string t)))
               else Some (Inr (AList.update key (t, StringGV v) spec))
           | StringsA v \<Rightarrow>
               (case underlying t of
                  SliceT elem \<Rightarrow>
                    if underlying elem \<noteq> StringT
                    then Some (Inl (ErrorString (''field '' @ key @ '' is not of type []string, expected '' @ type_string t)))
                    else if elem \<noteq> StringT then None
                    else Some (Inr (AList.update key (t, StringsGV v) spec))
                | _ \<Rightarrow> Some (Inl (ErrorString (''field '' @ key @ '' is not of type []string, expected '' @ type_string t))))
           | IntA v \<Rightarrow> Some (Inl (ErrorString (''unsupported field type int for field '' @ key)))
           | OtherA u \<Rightarrow> Some (Inl (ErrorString (''unsupported field type '' @ opt_type_string u
               @ '' for field '' @ key)))))"

fun set_fields :: "(string \<times> go_any) list \<Rightarrow> struct_value \<Rightarrow> (error + struct_value) option" where
  "set_fields [] spec = Some (Inr spec)"
| "set_fields ((key, value) # rest) spec = do {
     r \<leftarrow> set_field spec key value;
     case r of Inl e \<Rightarrow> Some (Inl e) | Inr spec \<Rightarrow> set_fields rest spec }"

definition alter_once ::
    "'s hypervisors \<Rightarrow> (string, go_any) gomap \<Rightarrow> string \<Rightarrow> 's world \<Rightarrow> (error option \<times> 's world) option" where
  "alter_once hs wanted name w =
     (case api (hv_Get hs name) w of
        (Inl e, w) \<Rightarrow> Some (Some e, w)
      | (Inr orig, w) \<Rightarrow> do {
          r \<leftarrow> set_fields (gm_items wanted) (hv_Spec orig);
          case r of
            Inl e \<Rightarrow> Some (Some e, w)
          | Inr spec \<Rightarrow>
              (case api (hv_Patch hs (orig\<lparr>hv_Spec := spec\<rparr>) orig) w of
                 (Inl e, w) \<Rightarrow> Some (Some e, w)
               | (Inr _, w) \<Rightarrow> Some (None, w)) })"

definition AlterHypervisor_Trigger ::
    "'s hypervisors \<Rightarrow> (string, go_any) gomap \<Rightarrow> ('s, error option) plugin_method" where
  "AlterHypervisor_Trigger hs wanted p w = RetryOnConflict hs (alter_once hs wanted (n_Name (w_node w))) w"

definition AlterHypervisor :: "'s hypervisors \<Rightarrow> (string, go_any) gomap \<Rightarrow> 's trigger" where
  "AlterHypervisor hs wanted = \<lparr>Trigger = AlterHypervisor_Trigger hs wanted, t_ID = ''alterHypervisor''\<rparr>"

definition AlterHypervisor_New ::
    "'s hypervisors \<Rightarrow> ('c, (string, go_any) gomap) unpacker \<Rightarrow> ('c, 's trigger) constructor" where
  "AlterHypervisor_New hs unpack config addr = construct unpack
     (\<lambda>conf. case mapToStructFields conf (sty_Spec hs) of
        Inl e \<Rightarrow> Inl e | Inr mappedFields \<Rightarrow> Inr (AlterHypervisor hs mappedFields)) config"

section \<open>What validation gives\<close>

text \<open>A struct value of a type has its fields, each with a value of the kind of the field.\<close>

fun has_type :: "go_value \<Rightarrow> go_type \<Rightarrow> bool" where
  "has_type v (NamedT n t) = has_type v t"
| "has_type v BoolT = (case v of BoolGV b \<Rightarrow> True | _ \<Rightarrow> False)"
| "has_type v StringT = (case v of StringGV s \<Rightarrow> True | _ \<Rightarrow> False)"
| "has_type v IntT = (case v of IntGV i \<Rightarrow> True | _ \<Rightarrow> False)"
| "has_type v (SliceT t) = (t = StringT \<longrightarrow> (case v of StringsGV ss \<Rightarrow> True | _ \<Rightarrow> False))"
| "has_type v (OtherT n) = True"

definition conforms :: "struct_type \<Rightarrow> struct_value \<Rightarrow> bool" where
  "conforms t sv \<longleftrightarrow>
     (\<forall>f \<in> set (sty_Fields t). case map_of sv (sf_Name f) of
        None \<Rightarrow> False | Some (u, v) \<Rightarrow> map_option sf_Type (FieldByName t (sf_Name f)) = Some u \<and> has_type v u)"

definition all_exported :: "struct_type \<Rightarrow> bool" where
  "all_exported t \<longleftrightarrow> (\<forall>f \<in> set (sty_Fields t). exported (sf_Name f))"

fun as_value :: "go_any \<Rightarrow> go_value" where
  "as_value (BoolA b) = BoolGV b"
| "as_value (StringA s) = StringGV s"
| "as_value (StringsA ss) = StringsGV ss"
| "as_value (IntA i) = IntGV i"
| "as_value (OtherA t) = OtherGV"

definition comparable :: "go_any \<Rightarrow> bool" where
  "comparable v \<longleftrightarrow> (case v of OtherA t \<Rightarrow> False | _ \<Rightarrow> True)"

definition settable :: "go_any \<Rightarrow> bool" where
  "settable v \<longleftrightarrow> (case v of IntA i \<Rightarrow> False | OtherA t \<Rightarrow> False | _ \<Rightarrow> True)"

definition validated :: "struct_type \<Rightarrow> string \<times> go_any \<Rightarrow> bool" where
  "validated t = (\<lambda>(name, val). \<exists>f \<in> set (sty_Fields t). sf_Name f = name
     \<and> TypeOf val = map_option sf_Type (FieldByName t name))"

lemma FieldByName_mem: "f \<in> set (sty_Fields t) \<Longrightarrow> \<exists>g. FieldByName t (sf_Name f) = Some g"
  by (cases "FieldByName t (sf_Name f)") (auto simp: FieldByName_def find_None_iff)

lemma jsonToStructField_mem:
  assumes "map_of (jsonToStructField t) key = Some name"
  shows "\<exists>f \<in> set (sty_Fields t). sf_Name f = name \<and> json_name (sf_Tag f) = key"
proof -
  have "map_of (fold (\<lambda>f. AList.update (json_name (sf_Tag f)) (sf_Name f)) fs acc) key = Some name \<Longrightarrow>
      map_of acc key = Some name \<or> (\<exists>f \<in> set fs. sf_Name f = name \<and> json_name (sf_Tag f) = key)" for fs :: "struct_field list" and acc
  proof (induction fs arbitrary: acc)
    case (Cons f fs)
    from Cons.prems Cons.IH [of "AList.update (json_name (sf_Tag f)) (sf_Name f) acc"]
    show ?case by (auto simp: update_conv' fun_upd_apply split: if_splits)
  qed simp
  from this [of "sty_Fields t" "[]"] assms show ?thesis by (auto simp: jsonToStructField_def)
qed

lemma map_fields_validated:
  "map_fields items t acc = Inr out \<Longrightarrow> \<forall>kv \<in> set acc. validated t kv \<Longrightarrow> \<forall>kv \<in> set out. validated t kv"
proof (induction items t acc rule: map_fields.induct)
  case (2 key val rest t acc)
  obtain name where n: "map_of (jsonToStructField t) key = Some name"
    using "2.prems"(1) by (auto split: option.splits)
  have ty: "TypeOf val = map_option sf_Type (FieldByName t name)"
    using "2.prems"(1) n by (auto simp: Let_def split: if_splits)
  have "validated t (name, val)"
    using jsonToStructField_mem [OF n] ty by (auto simp: validated_def)
  moreover have "set (AList.update name val acc) \<subseteq> insert (name, val) (set acc)"
    by (induction acc) auto
  ultimately have "\<forall>kv \<in> set (AList.update name val acc). validated t kv"
    using "2.prems"(2) by blast
  with "2.IH" [OF n refl] "2.prems"(1) n ty show ?case by simp
qed simp

lemma map_fields_values:
  "map_fields items t acc = Inr out \<Longrightarrow> \<forall>kv \<in> set acc. P (snd kv) \<Longrightarrow> \<forall>kv \<in> set items. P (snd kv) \<Longrightarrow>
   \<forall>kv \<in> set out. P (snd kv)"
proof (induction items t acc rule: map_fields.induct)
  case (2 key val rest t acc)
  obtain name where n: "map_of (jsonToStructField t) key = Some name"
    using "2.prems"(1) by (auto split: option.splits)
  have ty: "TypeOf val = map_option sf_Type (FieldByName t name)"
    using "2.prems"(1) n by (auto simp: Let_def split: if_splits)
  have "set (AList.update name val acc) \<subseteq> insert (name, val) (set acc)"
    by (induction acc) auto
  then have "\<forall>kv \<in> set (AList.update name val acc). P (snd kv)"
    using "2.prems"(2,3) by fastforce
  with "2.IH" [OF n refl] "2.prems" n ty show ?case by simp
qed simp

lemma set_gm_items: "set (gm_items (Some al)) \<subseteq> set al"
  by (auto simp: gm_items_get gm_get_def dest: map_of_SomeD)

lemma mapToStructFields_validated:
  assumes "mapToStructFields wanted t = Inr out" and "\<forall>kv \<in> set (gm_items wanted). P (snd kv)"
    and "kv \<in> set (gm_items out)"
  shows "validated t kv \<and> P (snd kv)"
proof -
  obtain al where al: "map_fields (gm_items wanted) t [] = Inr al" "out = Some al"
    using assms(1) by (auto simp: mapToStructFields_def split: sum.splits)
  with assms(3) set_gm_items have "kv \<in> set al" by blast
  with map_fields_validated [OF al(1)] map_fields_values [OF al(1), of P] assms(2) show ?thesis by simp
qed

lemma validated_field:
  assumes "validated t (name, val)" "conforms t sv"
  obtains u v where "map_of sv name = Some (u, v)" "TypeOf val = Some u" "has_type v u" "name \<in> sf_Name ` set (sty_Fields t)"
  using assms by (fastforce simp: validated_def conforms_def split: option.splits)

lemma check_field_validated:
  assumes "validated t (name, val)" "conforms t sv" "all_exported t" "comparable val"
  shows "check_field sv name val = Some (Inr (map_option snd (map_of sv name) = Some (as_value val)))"
proof -
  from assms(1,2) obtain u v where f: "map_of sv name = Some (u, v)" "TypeOf val = Some u" "has_type v u"
    "name \<in> sf_Name ` set (sty_Fields t)" by (rule validated_field)
  have "exported name" using f(4) assms(3) by (auto simp: all_exported_def)
  with f assms(4) show ?thesis
    by (cases val; cases v) (auto simp: check_field_def comparable_def Value_Bool_def Value_String_def
        assert_strings_def assert_int_def)
qed

lemma check_fields_validated:
  assumes "conforms t sv" "all_exported t"
  shows "\<forall>kv \<in> set items. validated t kv \<and> comparable (snd kv) \<Longrightarrow>
    \<exists>r. check_fields items sv = Some (r, None) \<and>
      (cr_Passed r \<longleftrightarrow> (\<forall>(name, val) \<in> set items. map_option snd (map_of sv name) = Some (as_value val)))"
proof (induction items)
  case (Cons kv items)
  obtain name val where kv: "kv = (name, val)" by (cases kv)
  with Cons.prems assms have "check_field sv name val = Some (Inr (map_option snd (map_of sv name) = Some (as_value val)))"
    by (intro check_field_validated) auto
  with Cons kv show ?case by auto
qed simp

lemma set_field_validated:
  assumes "validated t (name, val)" "conforms t sv" "all_exported t" "settable val"
  shows "\<exists>u. TypeOf val = Some u \<and> set_field sv name val = Some (Inr (AList.update name (u, as_value val) sv))"
proof -
  from assms(1,2) obtain u v where f: "map_of sv name = Some (u, v)" "TypeOf val = Some u" "has_type v u"
    "name \<in> sf_Name ` set (sty_Fields t)" by (rule validated_field)
  have "exported name" using f(4) assms(3) by (auto simp: all_exported_def)
  with f assms(4) show ?thesis
    by (cases val) (auto simp: set_field_def settable_def)
qed

lemma map_option_Some_eq: "Some u = map_option f x \<longleftrightarrow> (\<exists>z. x = Some z \<and> f z = u)"
  by (cases x) auto

lemma has_type_TypeOf: "TypeOf val = Some u \<Longrightarrow> settable val \<Longrightarrow> has_type (as_value val) u"
  by (cases val) (auto simp: settable_def)

lemma conforms_update:
  assumes "conforms t sv" "validated t (name, val)" "TypeOf val = Some u" "settable val"
  shows "conforms t (AList.update name (u, as_value val) sv)"
  using assms has_type_TypeOf [OF assms(3,4)]
  by (auto simp: conforms_def validated_def update_conv' map_option_Some_eq split: option.splits)

lemma set_fields_validated:
  assumes "all_exported t"
  shows "conforms t sv \<Longrightarrow> distinct (map fst items) \<Longrightarrow> \<forall>kv \<in> set items. validated t kv \<and> settable (snd kv) \<Longrightarrow>
    \<exists>sv'. set_fields items sv = Some (Inr sv') \<and> conforms t sv' \<and>
      (\<forall>name. map_option snd (map_of sv' name) =
        (case map_of items name of None \<Rightarrow> map_option snd (map_of sv name) | Some val \<Rightarrow> Some (as_value val)))"
proof (induction items arbitrary: sv)
  case (Cons kv items)
  obtain name val where kv: "kv = (name, val)" by (cases kv)
  with Cons.prems have v: "validated t (name, val)" "settable val" by auto
  from set_field_validated [OF v(1) Cons.prems(1) assms v(2)] obtain u where
    u: "TypeOf val = Some u" "set_field sv name val = Some (Inr (AList.update name (u, as_value val) sv))" by blast
  have c: "conforms t (AList.update name (u, as_value val) sv)"
    by (rule conforms_update [OF Cons.prems(1) v(1) u(1) v(2)])
  have absent: "map_of items name = None"
    using Cons.prems(2) kv by (auto simp: map_of_eq_None_iff)
  from Cons.IH [OF c] Cons.prems obtain sv' where
    "set_fields items (AList.update name (u, as_value val) sv) = Some (Inr sv')" "conforms t sv'"
    "\<forall>n. map_option snd (map_of sv' n) =
        (case map_of items n of None \<Rightarrow> map_option snd (map_of (AList.update name (u, as_value val) sv) n)
         | Some val \<Rightarrow> Some (as_value val))"
    by auto
  with kv u(2) absent show ?case
    by (intro exI [of _ sv']) (auto simp: update_conv' split: option.splits)
qed simp

lemma distinct_gm_items: "distinct (map fst (gm_items m))"
  by (cases m) (simp_all add: gm_items_def distinct_clearjunk)

lemma map_of_gm_items: "map_of (gm_items m) k = gm_get m k"
  by (cases m) (simp_all add: gm_items_def gm_get_def map_of_clearjunk)

section \<open>The checks keep the node\<close>

lemma CheckHypervisor_node: "CheckHypervisor_Check hs wanted p w = Some (r, w') \<Longrightarrow> w_node w' = w_node w"
  by (auto simp: CheckHypervisor_Check_def dest!: api_node split: prod.splits sum.splits)

lemma HypervisorCondition_node: "HypervisorCondition_Check hs c p w = Some (r, w') \<Longrightarrow> w_node w' = w_node w"
  by (auto simp: HypervisorCondition_Check_def dest!: api_node split: prod.splits sum.splits option.splits)

lemma PrometheusInstant_node:
  assumes "PrometheusInstant_Check pm pq p w = Some (r, w')"
  shows "w_node w' = w_node w"
proof (cases "prom_NewClient pm (pi_URL pq)")
  case (Inr c)
  obtain got w1 where q: "api (prom_Query pm c (pi_Query pq) (fst (time_Now w))) (snd (time_Now w)) = (got, w1)"
    by fastforce
  have "w' = w1"
    using assms Inr q
    by (auto simp: PrometheusInstant_Check_def Let_def
        split: prod.splits sum.splits list.splits prom_value.splits if_splits)
  with api_node [OF q] show ?thesis by (simp add: time_Now_def)
qed (use assms in \<open>auto simp: PrometheusInstant_Check_def Let_def\<close>)

interpretation prometheusInstant: checker_keeps_node "PrometheusInstant pm pq" for pm pq
  by unfold_locales (auto simp: PrometheusInstant_def no_hook_def dest: PrometheusInstant_node)

interpretation checkHypervisor: checker_keeps_node "CheckHypervisor hs wanted" for hs wanted
  by unfold_locales (auto simp: CheckHypervisor_def no_hook_def dest: CheckHypervisor_node)

interpretation hypervisorCondition: checker_keeps_node "HypervisorCondition hs c" for hs c
  by unfold_locales (auto simp: HypervisorCondition_def no_hook_def dest: HypervisorCondition_node)

end
