(* ===== verification/ApiServer.thy ===== *)
theory ApiServer
  imports Cache
begin

text \<open>
  The handler of \<open>/api/v1/info\<close> in \<open>api/server.go\<close>: the leader answers from its
  cache, every other instance forwards the request to the leader, which it finds through the
  lease of the leader election. The listener, the metrics handler and the shutdown are wiring of
  net/http. The body written is a string; a failure of the connection itself is only logged.
\<close>

section \<open>Parameters\<close>

text \<open>What receiving from the channel \<open>Elected\<close> without blocking can give.\<close>

datatype elected_channel = ChanEmpty | ChanValue | ChanClosed

record api_server =
  as_Namespace :: string
  as_Elected :: elected_channel
  as_NodeInfoCache :: node_info_cache

text \<open>\<open>'q\<close>: HTTP requests. A response is the body that could be read and the error that ended it.\<close>

record ('s, 'q) web =
  web_ReadFile :: "string \<Rightarrow> ('s, string) request"
  web_NewGet :: "string \<Rightarrow> error + 'q"
  web_Do :: "'q \<Rightarrow> ('s, string \<times> error option) request"
  web_Marshal :: "node_info list \<Rightarrow> error + string"

section \<open>Operations\<close>

definition writeError :: "error \<Rightarrow> string" where
  "writeError err = [CHR ''{'', CHR 34] @ ''error'' @ [CHR 34, CHR '':'', CHR 34] @ Error err @ [CHR 34, CHR ''}'']"

definition serveInfo :: "('s, 'q) web \<Rightarrow> api_server \<Rightarrow> string" where
  "serveInfo web srv =
     (case cache_JSON (web_Marshal web) (as_NodeInfoCache srv) of
        Inl e \<Rightarrow> writeError e
      | Inr jsonBytes \<Rightarrow> jsonBytes)"

definition getNamespace :: "('s, 'q) web \<Rightarrow> api_server \<Rightarrow> 's world \<Rightarrow> (error + string) \<times> 's world" where
  "getNamespace web srv w =
     (if as_Namespace srv \<noteq> [] then (Inr (as_Namespace srv), w)
      else case api (web_ReadFile web ''/var/run/secrets/kubernetes.io/serviceaccount/namespace'') w of
        (Inl e, w) \<Rightarrow> (Inl (WrapError ''error reading namespace file: '' e), w)
      | (Inr namespace, w) \<Rightarrow> (Inr namespace, w))"

definition JoinHostPort :: "string \<Rightarrow> string \<Rightarrow> string" where
  "JoinHostPort host port =
     (if CHR '':'' \<in> set host then ''['' @ host @ '']:'' @ port else host @ '':'' @ port)"

definition info_url :: "pod \<Rightarrow> string" where
  "info_url leader = ''http://'' @ JoinHostPort (p_PodIP leader) ''8080'' @ ''/api/v1/info''"

definition leader_name :: "string \<Rightarrow> string" where
  "leader_name holder = hd (strings_Split holder ''_'')"

definition fetchInfo :: "('s, 'q) web \<Rightarrow> 's client \<Rightarrow> api_server \<Rightarrow> 's world \<Rightarrow> string \<times> 's world" where
  "fetchInfo web cl srv w =
     (case getNamespace web srv w of
        (Inl e, w) \<Rightarrow> (writeError e, w)
      | (Inr namespace, w) \<Rightarrow>
     (case api (c_GetLease cl (namespace, LeaderElectionID)) w of
        (Inl e, w) \<Rightarrow> (writeError e, w)
      | (Inr lease, w) \<Rightarrow>
     (case l_HolderIdentity lease of
        None \<Rightarrow> (writeError (ErrorString ''no maintenance-controller is leading''), w)
      | Some holder \<Rightarrow>
     (case api (c_GetPod cl (namespace, leader_name holder)) w of
        (Inl e, w) \<Rightarrow> (writeError e, w)
      | (Inr pod, w) \<Rightarrow>
     (case web_NewGet web (info_url pod) of
        Inl e \<Rightarrow> (writeError e, w)
      | Inr req \<Rightarrow>
     (case api (web_Do web req) w of
        (Inl e, w) \<Rightarrow> (writeError e, w)
      | (Inr (body, None), w) \<Rightarrow> (body, w)
      | (Inr (body, Some e), w) \<Rightarrow> (body @ writeError e, w)))))))"

definition handle_info :: "('s, 'q) web \<Rightarrow> 's client \<Rightarrow> api_server \<Rightarrow> 's world \<Rightarrow> string \<times> 's world" where
  "handle_info web cl srv w =
     (let elected = (case as_Elected srv of ChanEmpty \<Rightarrow> False | ChanValue \<Rightarrow> False | ChanClosed \<Rightarrow> True)
      in if elected then (serveInfo web srv, w) else fetchInfo web cl srv w)"

section \<open>Finding the leader\<close>

text \<open>The election writes the host name, an underscore and a unique suffix as the holder.\<close>

lemma clean_for_char: "CHR ''_'' \<notin> set p \<Longrightarrow> clean_for ''_'' p"
  by (induction p) (simp_all add: clean_for_Cons, simp_all add: clean_for_def)

lemma leader_name_holder: "CHR ''_'' \<notin> set pod \<Longrightarrow> leader_name (pod @ CHR ''_'' # uid) = pod"
  using split_acc_clean [OF _ clean_for_char, of pod "[]" uid] by (simp add: leader_name_def strings_Split_def)

text \<open>
  With \<open>answer\<close> the body the leader's pod gives to a request of its address, every instance
  answers the same: the leader itself and, as long as the lease names its pod, the others.
\<close>

lemma fetchInfo_forwards:
  assumes ns: "as_Namespace srv = ns" "ns \<noteq> []"
    and lease: "c_GetLease cl (ns, LeaderElectionID) (w_api w) = (Inr l, s1)" "l_HolderIdentity l = Some (name @ ''_'' @ uid)"
    and name: "CHR ''_'' \<notin> set name" and pod: "c_GetPod cl (ns, name) s1 = (Inr p, s2)"
    and req: "web_NewGet web (info_url p) = Inr q" and http: "web_Do web q s2 = (Inr (answer, None), s3)"
  shows "fetchInfo web cl srv w = (answer, w\<lparr>w_api := s3\<rparr>)"
  using assms by (simp add: fetchInfo_def getNamespace_def api_def leader_name_holder)

end
