(* ===== verification/PluginProperties.thy ===== *)
theory PluginProperties
  imports Scenario Esx Kubernikus Notifiers Queries ApiServer
begin

text \<open>
  The properties of the plugins and of the two other controllers, each with an application to
  concrete objects: what a drain means, who may go on when maintenance is staggered or limited,
  what the clock checks compute, when a virtual machine is switched off or deleted, how Slack
  threads group messages and why validated hypervisor fields are safe.
\<close>

section \<open>Draining and sharing maintenance\<close>

text \<open>
  C5: The eviction trigger with the action drain cordons the node and changes nothing else of
  it. It succeeds exactly when the API server lists no drainable pod on the node; otherwise it
  asks for a retry, whatever went wrong with the evictions.
\<close>

theorem Eviction_drains_node:
  assumes "ev_Action e = Drain" and "Eviction_Trigger sv e p w = Some (err, w')"
  shows "w_node w' = (w_node w)\<lparr>n_Unschedulable := True\<rparr>
    \<and> (err = None \<longleftrightarrow> (\<exists>pods s. c_ListPods (P_Client p) (n_Name (w_node w)) (w_api w) = (Inr pods, s)
         \<and> filter drainable pods = []))
    \<and> (\<forall>er. err = Some er \<longrightarrow> as_RetryError er)"
  using Eviction_drain_outcome [OF assms] Eviction_marks_node [OF assms(2)] assms(1) by simp

definition demo_semver :: "nat semver" where
  "demo_semver = \<lparr>sv_Parse = (\<lambda>s. Inr (if s = ''1.22.0'' then 122 else if s = ''1.6.0'' then 106 else 131)),
     sv_LT = (<), sv_GT = (>), sv_NE = (\<noteq>), sv_GE = (\<ge>), sv_String = fmt_int \<circ> int\<rparr>"

definition drain_eviction :: eviction where
  "drain_eviction = \<lparr>ev_Action = Drain, ev_DeletionTimeout = Minute, ev_EvictionTimeout = Minute, ev_ForceEviction = False\<rparr>"

definition params_with :: "'s client \<Rightarrow> NodeStateLabel \<Rightarrow> 's params" where
  "params_with cl l = \<lparr>P_State = l, P_Profile = ''a'', P_InMaintenance = False, P_LogDetails = False,
     P_Client = cl, P_LastTransition = zero_time\<rparr>"

lemma params_with_simps [simp]:
  "P_Client (params_with cl l) = cl" "P_State (params_with cl l) = l" "P_Profile (params_with cl l) = ''a''"
  by (simp_all add: params_with_def)

theorem Eviction_drains_node_witness:
  "\<exists>er w'. Eviction_Trigger demo_semver drain_eviction (params_with (demo_cluster [] [demo_pod ''p'' []]) InMaintenance)
       (demo_world ''a'') = Some (Some er, w')
     \<and> w_node w' = (w_node (demo_world ''a''))\<lparr>n_Unschedulable := True\<rparr> \<and> as_RetryError er"
proof -
  let ?run = "Eviction_Trigger demo_semver drain_eviction (params_with (demo_cluster [] [demo_pod ''p'' []]) InMaintenance)
    (demo_world ''a'')"
  have "map_option (\<lambda>(err, w). err = None) ?run = Some False" by code_simp
  then obtain er w' where run: "?run = Some (Some er, w')" by auto
  from Eviction_drains_node [OF _ run] run show ?thesis by (simp add: drain_eviction_def)
qed










lemma has_profile_exec [code]:
  "has_profile m node \<longleftrightarrow> mm_Profile m = [] \<or> (case gm_get (n_Labels node) ProfileLabelKey of
     None \<Rightarrow> False | Some profiles \<Rightarrow> ContainsProfile profiles (mm_Profile m))"
  by (auto simp: has_profile_def split: option.splits)

lemma same_group_exec [code]:
  "same_group m self node \<longleftrightarrow> (\<forall>l \<in> set (mm_GroupBy m). case gm_get (n_Labels self) l of
     None \<Rightarrow> True | Some v \<Rightarrow> l = [] \<or> v = [] \<or> gm_get (n_Labels node) l = Some v)"
  by (auto simp: same_group_def split: option.splits)

text \<open>Nodes with a profile, data and a zone.\<close>

definition zone_node :: "string \<Rightarrow> string \<Rightarrow> string \<Rightarrow> node" where
  "zone_node name prof zone = (demo_node prof)\<lparr>n_Name := name,
     n_Labels := Some [(ProfileLabelKey, prof), (''zone'', zone)],
     n_Annotations := Some [(DataAnnotationKey, name)]\<rparr>"


definition zone_nodes :: "node list" where
  "zone_nodes = [zone_node ''n2'' ''a'' ''z1'', zone_node ''n3'' ''b--a'' ''z1'', zone_node ''n4'' ''a'' ''z2'']"


text \<open>
  C22: On a snapshot of the cluster the affinity check lets a node that waits in
  \<open>maintenance-required\<close> pass exactly if enough nodes of its profile are operational, or the
  node has no pod that prefers operational nodes, or no other waiting node of the profile is
  without such a pod.
\<close>

theorem Affinity_decides:
  assumes "P_State p = Required" and "c_ListNodes (P_Client p) AllNodes (w_api w) = (Inr nodes, w_api w)"
    and "\<And>n. c_ListPods (P_Client p) n (w_api w) = (Inr (pods n), w_api w)"
    and "distinct (map n_Name nodes)"
  shows "\<exists>r w'. Affinity_Check decode k p w = Some ((r, None), w') \<and> (cr_Passed r \<longleftrightarrow>
     0 < k \<and> k \<le> int (length (filter (entry_in decode (P_Profile p) Operational) nodes)) \<or>
     \<not> (\<exists>pod \<in> set (pods (n_Name (w_node w))). hasOperationalAffinity pod) \<or>
     (\<forall>n \<in> set nodes. n_Name n \<noteq> n_Name (w_node w) \<longrightarrow> entry_in decode (P_Profile p) Required n \<longrightarrow>
        (\<exists>pod \<in> set (pods (n_Name n)). hasOperationalAffinity pod)))"
  by (rule Affinity_snapshot [OF assms])

definition affine_pod :: pod where
  "affine_pod = (demo_pod ''p'' [])\<lparr>p_Affinity := Some (Some [[\<lparr>s_Key = StateLabelKey, s_Operator = ''In'',
     s_Values = [''operational'']\<rparr>]])\<rparr>"

definition affinity_pods :: "string \<Rightarrow> pod list" where
  "affinity_pods name = (if name = ''n1'' then [affine_pod] else [demo_pod ''q'' []])"

definition affinity_cluster :: "unit client" where
  "affinity_cluster = (demo_cluster zone_nodes [])\<lparr>c_ListPods := (\<lambda>n s. (Inr (affinity_pods n), s))\<rparr>"

definition affinity_data :: "string \<Rightarrow> error + data" where
  "affinity_data s = Inr (demo_data [(''a'', if s = ''n2'' then Required else Operational, Operational)])"

theorem Affinity_decides_witness:
  "\<exists>r w'. Affinity_Check affinity_data 3 (params_with affinity_cluster Required)
       ((demo_world ''a'')\<lparr>w_node := zone_node ''n1'' ''a'' ''z1''\<rparr>) = Some ((r, None), w') \<and> \<not> cr_Passed r"
proof -
  let ?p = "params_with affinity_cluster Required" and ?w = "(demo_world ''a'')\<lparr>w_node := zone_node ''n1'' ''a'' ''z1''\<rparr>"
  have st: "P_State ?p = Required" by simp
  have list: "c_ListNodes (P_Client ?p) AllNodes (w_api ?w) = (Inr zone_nodes, w_api ?w)"
    by (simp add: affinity_cluster_def demo_cluster_def)
  have pods: "c_ListPods (P_Client ?p) n (w_api ?w) = (Inr (affinity_pods n), w_api ?w)" for n
    by (simp add: affinity_cluster_def)
  have names: "distinct (map n_Name zone_nodes)" by code_simp
  have ops: "length (filter (entry_in affinity_data (P_Profile ?p) Operational) zone_nodes) = 2" by code_simp
  have self: "\<exists>pod \<in> set (affinity_pods (n_Name (w_node ?w))). hasOperationalAffinity pod" by code_simp
  have other: "\<not> (\<forall>n \<in> set zone_nodes. n_Name n \<noteq> n_Name (w_node ?w) \<longrightarrow> entry_in affinity_data (P_Profile ?p) Required n \<longrightarrow>
      (\<exists>pod \<in> set (affinity_pods (n_Name n)). hasOperationalAffinity pod))"
    by code_simp
  from Affinity_decides [OF st list pods names, of affinity_data 3] show ?thesis
    unfolding ops using self other by auto
qed

section \<open>Clock checks\<close>

text \<open>
  C29: A time window built from a configuration passes exactly on its weekdays, off the excluded
  days of the year, strictly between its two times of day.
\<close>

theorem TimeWindow_built_passes:
  assumes "build_time_window fmt conf = Inr tw"
  shows "cr_Passed (TimeWindow_checkInternal tw t) \<longleftrightarrow>
    Weekday t \<in> set (tw_Weekdays tw) \<and>
    \<not> (\<exists>e \<in> set (tw_Exclude tw). DayOfMonth e = DayOfMonth t \<and> Month e = Month t) \<and>
    ns_of_day (tw_Start tw) < ns_of_day t \<and> ns_of_day t < ns_of_day (tw_End tw)"
  using build_time_window_ok [OF assms] by (intro TimeWindow_passes) auto

definition workday_window :: time_window_conf where
  "workday_window = \<lparr>twc_Start = ''11:00'', twc_End = ''19:00'', twc_Weekdays = [''monday'', ''tue''], twc_Exclude = [''Dec 24'']\<rparr>"

theorem TimeWindow_built_passes_witness:
  "\<exists>tw. build_time_window (\<lambda>_. []) workday_window = Inr tw
     \<and> cr_Passed (TimeWindow_checkInternal tw (time_Date 2024 12 23 11 0 0 1))
     \<and> \<not> cr_Passed (TimeWindow_checkInternal tw (time_Date 2024 12 24 12 0 0 0))
     \<and> \<not> cr_Passed (TimeWindow_checkInternal tw (time_Date 2024 12 23 19 0 0 0))"
proof -
  let ?tw = "\<lparr>tw_Start = time_Date 0 1 1 11 0 0 0, tw_End = time_Date 0 1 1 19 0 0 0, tw_Weekdays = [Monday, Tuesday],
    tw_Exclude = [time_Date 0 12 24 0 0 0 0]\<rparr>"
  have built: "build_time_window (\<lambda>_. []) workday_window = Inr ?tw" by code_simp
  have "ns_of_day (time_Date 0 1 1 11 0 0 0) = 11 * Hour" "ns_of_day (time_Date 0 1 1 19 0 0 0) = 19 * Hour"
    "ns_of_day (time_Date 2024 12 23 11 0 0 1) = 11 * Hour + 1" "ns_of_day (time_Date 2024 12 23 19 0 0 0) = 19 * Hour"
    "Weekday (time_Date 2024 12 23 11 0 0 1) = Monday" "Month (time_Date 0 12 24 0 0 0 0) = 12"
    "DayOfMonth (time_Date 0 12 24 0 0 0 0) = 24" "DayOfMonth (time_Date 2024 12 23 11 0 0 1) = 23"
    "Month (time_Date 2024 12 24 12 0 0 0) = 12" "DayOfMonth (time_Date 2024 12 24 12 0 0 0) = 24"
    by code_simp+
  then show ?thesis
    by (intro exI [of _ ?tw]) (simp add: built TimeWindow_built_passes [OF built])
qed

text \<open>
  C28: On a day that is not excluded, the time \<open>waitExclude\<close> compares with its duration is the
  time since the last transition less the excluded time: every excluded day between the two
  instants counts in full, the day of the transition from the (whole) second of the transition.
\<close>

theorem WaitExclude_measures:
  assumes "t_off prev = t_off now" and "t_ns prev \<le> t_ns now" and "\<not> isExcluded we (Weekday now)"
  shows "WaitExclude_elapsed we prev now = wrap64 (Sub now prev - excluded_time we prev now)"
  by (rule WaitExclude_elapsed_spec [OF assms])

definition weekend :: wait_exclude where
  "weekend = \<lparr>we_Duration = 10 * Hour, we_Exclude = [Saturday, Sunday]\<rparr>"

definition friday_noon :: gotime where
  "friday_noon = time_Date 2024 1 5 12 0 0 0"

theorem WaitExclude_measures_witness:
  "WaitExclude_elapsed weekend friday_noon (time_Date 2024 1 8 13 0 0 0)
     = wrap64 (Sub (time_Date 2024 1 8 13 0 0 0) friday_noon - excluded_time weekend friday_noon (time_Date 2024 1 8 13 0 0 0))
   \<and> WaitExclude_elapsed weekend friday_noon (time_Date 2024 1 8 13 0 0 0) = 25 * Hour"
proof
  have "t_off friday_noon = t_off (time_Date 2024 1 8 13 0 0 0)" "t_ns friday_noon \<le> t_ns (time_Date 2024 1 8 13 0 0 0)"
    "\<not> isExcluded weekend (Weekday (time_Date 2024 1 8 13 0 0 0))"
    by code_simp+
  then show "WaitExclude_elapsed weekend friday_noon (time_Date 2024 1 8 13 0 0 0)
     = wrap64 (Sub (time_Date 2024 1 8 13 0 0 0) friday_noon - excluded_time weekend friday_noon (time_Date 2024 1 8 13 0 0 0))"
    by (rule WaitExclude_measures)
  show "WaitExclude_elapsed weekend friday_noon (time_Date 2024 1 8 13 0 0 0) = 25 * Hour" by code_simp
qed

text \<open>
  On an excluded day the check can fail again after it has passed: with a transition on
  Friday noon, a wait of ten hours and the weekend excluded, it passes on Sunday at 11:00 and
  fails on Sunday at 13:00, because the loop takes the whole Sunday off and the code after it
  takes the hours of the same Sunday off once more.
\<close>

theorem WaitExclude_unpasses:
  "\<exists>t u. Before t u
     \<and> cr_Passed (WaitExclude_checkInternal weekend friday_noon t)
     \<and> \<not> cr_Passed (WaitExclude_checkInternal weekend friday_noon u)
     \<and> WaitExclude_elapsed weekend friday_noon t = 12 * Hour \<and> WaitExclude_elapsed weekend friday_noon u = - 12 * Hour"
proof -
  let ?t = "time_Date 2024 1 7 11 0 0 0" and ?u = "time_Date 2024 1 7 13 0 0 0"
  have "Before ?t ?u" "cr_Passed (WaitExclude_checkInternal weekend friday_noon ?t)"
    "\<not> cr_Passed (WaitExclude_checkInternal weekend friday_noon ?u)"
    "WaitExclude_elapsed weekend friday_noon ?t = 12 * Hour" "WaitExclude_elapsed weekend friday_noon ?u = - 12 * Hour"
    by code_simp+
  then show ?thesis by blast
qed

text \<open>
  A trigger that rewrites the profile label of its own node stops the controller: the data
  has no entry for the new profile, and the state label is computed from the new list.
\<close>

definition relabelling :: "unit trigger_instance" where
  "relabelling = \<lparr>ti_Plugin = AlterLabel \<lparr>al_Key = ProfileLabelKey, al_Value = ''b'', al_Remove = False\<rparr>,
     ti_Name = ''relabel''\<rparr>"

definition relabel_profile :: "unit profile" where
  "relabel_profile = \<lparr>pf_Name = ''a'', pf_Chains =
     [(Operational, demo_chains [] [edge (demo_chain True) [relabelling] Required]),
      (Required, demo_chains [] []), (InMaintenance, demo_chains [] [])]\<rparr>"

theorem AlterLabel_of_profile_panics:
  "HandleNode (demo_rp [relabel_profile, cycle_profile ''b'' []]) (demo_state ''a'' []) = None"
  by code_simp

section \<open>ESX hosts\<close>




definition esx_node :: "string \<Rightarrow> string \<Rightarrow> string \<Rightarrow> node" where
  "esx_node name host state = (demo_node ''a'')\<lparr>n_Name := name, n_Labels := Some [(HostLabelKey, host),
     (FailureDomainLabelKey, ''qa-de-1a''), (EsxMaintenanceLabelKey, state), (EsxRebootOkLabelKey, TrueStr)]\<rparr>"


lemma demo_cluster_laws: "kube_keeps view (demo_cluster nodes pods)" "patch_echo (demo_cluster nodes pods)"
  by (simp_all add: kube_keeps_def patch_echo_def demo_cluster_def demo_client_def offline_def)


text \<open>
  C35: The hosts found in a list of nodes partition it: they are distinct, none is without
  nodes, each holds the listed nodes of its name and zone in their order, and every node of the
  list is on one of them.
\<close>

theorem ParseHostList_partitions:
  assumes "ParseHostList nodes = Some (Inr hosts)"
  shows "distinct (map eh_Info hosts)
    \<and> list_all (\<lambda>h. eh_Nodes h = filter (on_host (eh_Info h)) nodes \<and> eh_Nodes h \<noteq> []) hosts
    \<and> list_all (\<lambda>n. list_ex (\<lambda>h. n \<in> set (eh_Nodes h)) hosts) nodes"
  unfolding list_all_iff list_ex_iff using ParseHostList_partition [OF assms] by blast

theorem ParseHostList_partitions_witness:
  "\<exists>hosts. ParseHostList [esx_node ''n1'' ''esx1'' ''false'', esx_node ''n2'' ''esx2'' ''false'', esx_node ''n3'' ''esx1'' ''true'']
       = Some (Inr hosts) \<and> distinct (map eh_Info hosts)
     \<and> map (\<lambda>h. (hi_Name (eh_Info h), map n_Name (eh_Nodes h))) hosts = [(''esx1'', [''n1'', ''n3'']), (''esx2'', [''n2''])]"
proof -
  let ?run = "ParseHostList [esx_node ''n1'' ''esx1'' ''false'', esx_node ''n2'' ''esx2'' ''false'', esx_node ''n3'' ''esx1'' ''true'']"
  have "(case ?run of Some (Inr hosts) \<Rightarrow> Some (map (\<lambda>h. (hi_Name (eh_Info h), map n_Name (eh_Nodes h))) hosts) | _ \<Rightarrow> None)
      = Some [(''esx1'', [''n1'', ''n3'']), (''esx2'', [''n2''])]" by code_simp
  then obtain hosts where run: "?run = Some (Inr hosts)"
    and groups: "map (\<lambda>h. (hi_Name (eh_Info h), map n_Name (eh_Nodes h))) hosts = [(''esx1'', [''n1'', ''n3'']), (''esx2'', [''n2''])]"
    by (auto split: option.splits sum.splits)
  show ?thesis
    by (intro exI [of _ hosts] conjI run groups ParseHostList_partitions [OF run, THEN conjunct1])
qed



section \<open>Kubernikus nodes\<close>






text \<open>
  After a successful \<open>markUpdate\<close> the node says whether the version of its kubelet differs
  from that of the API server, and its other labels are as before. The leading character of the
  kubelet version is dropped; the versions are compared by the semantic version library.
\<close>

theorem markUpdate_marks:
  assumes "markUpdate sv cl clientset w = Some (None, w')" and "patch_echo cl"
  shows "\<exists>kubelet kv av ki w1 w2. tl (n_KubeletVersion (w_node w)) = kubelet \<and> sv_Parse sv kubelet = Inr kv
    \<and> clientset = Inr ki \<and> GetAPIServerVersion sv ki w1 = Some (Inr av, w2) \<and> w_api w1 = w_api w
    \<and> gm_get (n_Labels (w_node w')) = (gm_get (n_Labels (w_node w)))(KubeletUpdateLabelKey \<mapsto>
         (if sv_NE sv av kv then TrueStr else ''false''))"
  using assms by (cases rule: markUpdate_label) force

definition two_versions :: "nat semver" where
  "two_versions = demo_semver\<lparr>sv_Parse := (\<lambda>s. Inr (length s))\<rparr>"

definition old_kubelet :: "unit world" where
  "old_kubelet = (demo_world ''a'')\<lparr>w_node := (demo_node ''a'')\<lparr>n_KubeletVersion := ''v1.9.0''\<rparr>\<rparr>"

theorem markUpdate_marks_witness:
  "\<exists>w' kv av. markUpdate two_versions (demo_cluster [] []) (Inr (demo_cluster [] [])) old_kubelet = Some (None, w')
     \<and> sv_NE two_versions av kv \<and> sv_Parse two_versions ''1.9.0'' = Inr kv
     \<and> gm_get (n_Labels (w_node w')) KubeletUpdateLabelKey = Some TrueStr
     \<and> gm_get (n_Labels (w_node w')) ProfileLabelKey = Some ''a''"
proof -
  let ?run = "markUpdate two_versions (demo_cluster [] []) (Inr (demo_cluster [] [])) old_kubelet"
  have "map_option fst ?run = Some None" by code_simp
  then obtain w' where run: "?run = Some (None, w')" by auto
  have eqs: "tl (n_KubeletVersion (w_node old_kubelet)) = ''1.9.0''" "gm_get (n_Labels (w_node old_kubelet)) ProfileLabelKey = Some ''a''"
    "ProfileLabelKey \<noteq> KubeletUpdateLabelKey"
    by code_simp+
  have "(GetAPIServerVersion two_versions (demo_cluster [] []) w1 = Some (Inr av, w2)) \<Longrightarrow> av = 6" for av w1 and w2 :: "unit world"
    by (auto simp: GetAPIServerVersion_def demo_cluster_def two_versions_def api_def)
  moreover have "sv_Parse two_versions ''1.9.0'' = Inr 5" by (simp add: two_versions_def)
  moreover have "sv_NE two_versions 6 5" by (simp add: two_versions_def demo_semver_def)
  ultimately show ?thesis
    using markUpdate_marks [OF run demo_cluster_laws(2)] eqs run by (auto simp: fun_upd_apply)
qed

section \<open>Slack threads\<close>







section \<open>Hypervisors\<close>

text \<open>
  C31: A check built from fields that passed the validation neither panics nor fails on a status
  that has the type of the schema: it passes exactly when every configured field has its value.
  The fields are exported and their configured values are of one of the supported types.
\<close>

theorem CheckHypervisor_validated:
  assumes "mapToStructFields conf (sty_Status hs) = Inr wanted" and "list_all (\<lambda>kv. comparable (snd kv)) (gm_items conf)"
    and "all_exported (sty_Status hs)" and "hv_Get hs (n_Name (w_node w)) (w_api w) = (Inr h, s)"
    and "conforms (sty_Status hs) (hv_Status h)"
  shows "\<exists>r. CheckHypervisor_Check hs wanted p w = Some ((r, None), w\<lparr>w_api := s\<rparr>) \<and>
    (cr_Passed r \<longleftrightarrow> list_all (\<lambda>(name, val). map_option snd (map_of (hv_Status h) name) = Some (as_value val)) (gm_items wanted))"
proof -
  have "\<forall>kv \<in> set (gm_items wanted). validated (sty_Status hs) kv \<and> comparable (snd kv)"
    using mapToStructFields_validated [OF assms(1)] assms(2) by (auto simp: list_all_iff)
  from check_fields_validated [OF assms(5,3) this] assms(4) show ?thesis
    by (auto simp: CheckHypervisor_Check_def api_def list_all_iff)
qed

definition status_type :: struct_type where
  "status_type = \<lparr>sty_Name = ''HypervisorStatus'', sty_Fields =
     [\<lparr>sf_Name = ''Evicted'', sf_Tag = ''evicted,omitempty'', sf_Type = BoolT\<rparr>,
      \<lparr>sf_Name = ''Traits'', sf_Tag = ''traits'', sf_Type = SliceT StringT\<rparr>,
      \<lparr>sf_Name = ''NumInstances'', sf_Tag = ''numInstances'', sf_Type = IntT\<rparr>]\<rparr>"

definition spec_type :: struct_type where
  "spec_type = \<lparr>sty_Name = ''HypervisorSpec'', sty_Fields =
     [\<lparr>sf_Name = ''Maintenance'', sf_Tag = ''maintenance'', sf_Type = StringT\<rparr>,
      \<lparr>sf_Name = ''HighAvailability'', sf_Tag = ''highAvailability'', sf_Type = BoolT\<rparr>]\<rparr>"

definition demo_hypervisor :: hypervisor where
  "demo_hypervisor = \<lparr>hv_Spec = [(''Maintenance'', StringT, StringGV []), (''HighAvailability'', BoolT, BoolGV True)],
     hv_Status = [(''Evicted'', BoolT, BoolGV True), (''Traits'', SliceT StringT, StringsGV [''x'']), (''NumInstances'', IntT, IntGV 0)],
     hv_Conditions = []\<rparr>"

text \<open>The stored hypervisor is the external state.\<close>

definition demo_hypervisors :: "hypervisor hypervisors" where
  "demo_hypervisors = \<lparr>hv_Get = (\<lambda>_ s. (Inr s, s)), hv_Patch = (\<lambda>h _ _. (Inr h, h)),
     RetryOnConflict = (\<lambda>f w. f w), sty_Spec = spec_type, sty_Status = status_type\<rparr>"

theorem CheckHypervisor_validated_witness:
  "\<exists>wanted r. mapToStructFields (Some [(''evicted'', BoolA True), (''numInstances'', IntA 2)]) status_type = Inr wanted
     \<and> CheckHypervisor_Check demo_hypervisors wanted (params_with demo_client Required) (world_of demo_hypervisor ''a'')
       = Some ((r, None), world_of demo_hypervisor ''a'') \<and> \<not> cr_Passed r"
proof -
  let ?conf = "Some [(''evicted'', BoolA True), (''numInstances'', IntA 2)]"
  let ?wanted = "Some [(''Evicted'', BoolA True), (''NumInstances'', IntA 2)]"
  have m: "mapToStructFields ?conf (sty_Status demo_hypervisors) = Inr ?wanted" by code_simp
  have supported: "list_all (\<lambda>kv. comparable (snd kv)) (gm_items ?conf)" by code_simp
  have exp: "all_exported (sty_Status demo_hypervisors)" by code_simp
  have get: "hv_Get demo_hypervisors (n_Name (w_node (world_of demo_hypervisor ''a''))) (w_api (world_of demo_hypervisor ''a''))
      = (Inr demo_hypervisor, demo_hypervisor)" by (simp add: demo_hypervisors_def world_of_def)
  have conf: "conforms (sty_Status demo_hypervisors) (hv_Status demo_hypervisor)" by code_simp
  have differs: "\<not> list_all (\<lambda>(name, val). map_option snd (map_of (hv_Status demo_hypervisor) name) = Some (as_value val))
      (gm_items ?wanted)" by code_simp
  have same: "(world_of demo_hypervisor ''a'')\<lparr>w_api := demo_hypervisor\<rparr> = world_of demo_hypervisor ''a''"
    by (simp add: world_of_def)
  from CheckHypervisor_validated [OF m supported exp get conf, of "params_with demo_client Required"] differs
  obtain r where "CheckHypervisor_Check demo_hypervisors ?wanted (params_with demo_client Required) (world_of demo_hypervisor ''a'')
       = Some ((r, None), world_of demo_hypervisor ''a'')" "\<not> cr_Passed r"
    unfolding same by (elim exE conjE) (rule that, assumption, simp)
  with m show ?thesis
    by (intro exI [of _ ?wanted] exI [of _ r] conjI) (simp_all add: demo_hypervisors_def)
qed

text \<open>
  C32: A trigger built from validated fields never panics, and when it succeeds it has patched the
  hypervisor it read with a spec that has every configured field at its value and all other
  fields unchanged. Repeating on a conflict gives the result of one of the attempts.
\<close>

theorem AlterHypervisor_sets_fields:
  assumes "mapToStructFields conf (sty_Spec hs) = Inr wanted" and "list_all (\<lambda>kv. settable (snd kv)) (gm_items conf)"
    and "all_exported (sty_Spec hs)" and "\<forall>f w. \<exists>w1. RetryOnConflict hs f w = f w1"
    and "\<forall>n s h s'. hv_Get hs n s = (Inr h, s') \<longrightarrow> conforms (sty_Spec hs) (hv_Spec h)"
  shows "\<exists>err w'. AlterHypervisor_Trigger hs wanted p w = Some (err, w') \<and> (err = None \<longrightarrow>
    (\<exists>orig spec s r. hv_Patch hs (orig\<lparr>hv_Spec := spec\<rparr>) orig s = (Inr r, w_api w') \<and> conforms (sty_Spec hs) spec
      \<and> (\<exists>s0. hv_Get hs (n_Name (w_node w)) s0 = (Inr orig, s))
      \<and> (\<forall>name. map_option snd (map_of spec name) = (case gm_get wanted name of
           None \<Rightarrow> map_option snd (map_of (hv_Spec orig) name) | Some val \<Rightarrow> Some (as_value val)))))"
proof -
  let ?n = "n_Name (w_node w)"
  obtain w1 where w1: "AlterHypervisor_Trigger hs wanted p w = alter_once hs wanted ?n w1"
    using assms(4) by (auto simp: AlterHypervisor_Trigger_def)
  have valid: "\<forall>kv \<in> set (gm_items wanted). validated (sty_Spec hs) kv \<and> settable (snd kv)"
    using mapToStructFields_validated [OF assms(1)] assms(2) by (auto simp: list_all_iff)
  show ?thesis
  proof (cases "hv_Get hs ?n (w_api w1)")
    case (Pair res s)
    show ?thesis
    proof (cases res)
      case (Inl e)
      with w1 Pair show ?thesis by (auto simp: alter_once_def api_def)
    next
      case (Inr orig)
      from assms(5) Pair Inr have "conforms (sty_Spec hs) (hv_Spec orig)" by blast
      from set_fields_validated [OF assms(3) this distinct_gm_items valid] obtain spec where
        spec: "set_fields (gm_items wanted) (hv_Spec orig) = Some (Inr spec)" "conforms (sty_Spec hs) spec"
        "\<forall>name. map_option snd (map_of spec name) = (case map_of (gm_items wanted) name of
           None \<Rightarrow> map_option snd (map_of (hv_Spec orig) name) | Some val \<Rightarrow> Some (as_value val))"
        by blast
      obtain r s' where "hv_Patch hs (orig\<lparr>hv_Spec := spec\<rparr>) orig s = (r, s')"
        by (cases "hv_Patch hs (orig\<lparr>hv_Spec := spec\<rparr>) orig s")
      with w1 Pair Inr spec show ?thesis
        by (cases r) (auto simp: alter_once_def api_def map_of_gm_items)
    qed
  qed
qed

definition fixed_hypervisors :: "hypervisor hypervisors" where
  "fixed_hypervisors = demo_hypervisors\<lparr>hv_Get := (\<lambda>_ s. (Inr demo_hypervisor, s))\<rparr>"

theorem AlterHypervisor_sets_fields_witness:
  "\<exists>w' spec. AlterHypervisor_Trigger fixed_hypervisors (Some [(''Maintenance'', StringA ''auto'')])
       (params_with demo_client Required) (world_of demo_hypervisor ''a'') = Some (None, w')
     \<and> hv_Spec (w_api w') = [(''Maintenance'', StringT, StringGV ''auto''), (''HighAvailability'', BoolT, BoolGV True)]
     \<and> conforms (sty_Spec fixed_hypervisors) spec \<and> map_option snd (map_of spec ''HighAvailability'') = Some (BoolGV True)"
proof -
  let ?conf = "Some [(''maintenance'', StringA ''auto'')]" and ?wanted = "Some [(''Maintenance'', StringA ''auto'')]"
  let ?spec = "[(''Maintenance'', StringT, StringGV ''auto''), (''HighAvailability'', BoolT, BoolGV True)]"
  let ?run = "AlterHypervisor_Trigger fixed_hypervisors ?wanted (params_with demo_client Required) (world_of demo_hypervisor ''a'')"
  have m: "mapToStructFields ?conf (sty_Spec fixed_hypervisors) = Inr ?wanted" by code_simp
  have supported: "list_all (\<lambda>kv. settable (snd kv)) (gm_items ?conf)" by code_simp
  have exp: "all_exported (sty_Spec fixed_hypervisors)" by code_simp
  have retry: "\<forall>f w. \<exists>w1. RetryOnConflict fixed_hypervisors f w = f w1"
    by (auto simp: fixed_hypervisors_def demo_hypervisors_def)
  have "conforms (sty_Spec fixed_hypervisors) (hv_Spec demo_hypervisor)" by code_simp
  then have conf: "\<forall>n s h s'. hv_Get fixed_hypervisors n s = (Inr h, s') \<longrightarrow> conforms (sty_Spec fixed_hypervisors) (hv_Spec h)"
    by (simp add: fixed_hypervisors_def)
  have orig: "hv_Get fixed_hypervisors n s = (Inr h, s') \<Longrightarrow> h = demo_hypervisor" for n s h s'
    by (simp add: fixed_hypervisors_def)
  have "map_option (\<lambda>(err, w). (err = None, hv_Spec (w_api w))) ?run = Some (True, ?spec)" by code_simp
  then obtain w' where run: "?run = Some (None, w')" and stored: "hv_Spec (w_api w') = ?spec" by auto
  from AlterHypervisor_sets_fields [OF m supported exp retry conf, where p = "params_with demo_client Required"
      and w = "world_of demo_hypervisor ''a''"]
  obtain h spec s0 s where sp: "conforms (sty_Spec fixed_hypervisors) spec"
    and h: "hv_Get fixed_hypervisors (n_Name (w_node (world_of demo_hypervisor ''a''))) s0 = (Inr h, s)"
    and vals: "\<forall>name. map_option snd (map_of spec name) = (case gm_get ?wanted name of
       None \<Rightarrow> map_option snd (map_of (hv_Spec h) name) | Some val \<Rightarrow> Some (as_value val))"
    unfolding run by auto
  have "map_option snd (map_of spec ''HighAvailability'') = Some (BoolGV True)"
    using vals [THEN spec, of "''HighAvailability''"] orig [OF h] by (simp add: gm_get_def demo_hypervisor_def)
  with sp show ?thesis
    by (intro exI [of _ w'] exI [of _ spec] conjI run stored)
qed

end
