(* ===== verification/Waiting.thy ===== *)
theory Waiting
  imports Drain "HOL-Library.Multiset"
begin

text \<open>
  The goroutines of \<open>common/schedule.go\<close>: \<open>waitParallel\<close> starts one goroutine per waiter and
  collects their results over an unbuffered channel, \<open>WaitForPodDeletions\<close> waits in this way for
  the deletion of pods. A step is the step of one goroutine, chosen by a schedule; between two
  requests of a goroutine any other goroutine may run. The lemmas hold for every schedule:
  executions are bounded, they get stuck only when the function has returned, nothing is sent on
  the closed channel, and the result is nil exactly when every waiter returned nil.
\<close>

section \<open>Goroutines and their channel\<close>

text \<open>
  A goroutine runs its waiter, then offers the result on the channel, then is done. The main
  goroutine starts the others and ranges over the channel.
\<close>

datatype 'g goroutine = Running 'g | Sending "error option" | Sent "error option"

datatype 'g main_goroutine = Spawning "'g list" | Ranging | Returned "error option" | Panicked

record ('g, 's) group =
  gr_main :: "'g main_goroutine"
  gr_routines :: "'g goroutine list"
  gr_errs :: "error list"
  gr_count :: nat
  gr_closed :: bool
  gr_api :: 's

text \<open>\<open>Main\<close>: the main goroutine goes on by itself; \<open>Routine i\<close>: goroutine \<open>i\<close> does its next
  step, which for a goroutine at its send is to hand over the result to the main goroutine.\<close>

datatype choice = Main | Routine nat

text \<open>The waiter is a machine: one request of it either goes on or returns.\<close>

type_synonym ('g, 's) waiter = "'g \<Rightarrow> 's \<Rightarrow> ('g + error option) \<times> 's"

definition waitParallel :: "'g list \<Rightarrow> 's \<Rightarrow> ('g, 's) group" where
  "waitParallel waiters s =
     \<lparr>gr_main = Spawning waiters, gr_routines = [], gr_errs = [], gr_count = 0, gr_closed = False, gr_api = s\<rparr>"

text \<open>The body of the loop over the channel, for a received \<open>err\<close> and \<open>n\<close> waiters.\<close>

definition range_body :: "nat \<Rightarrow> error option \<Rightarrow> ('g, 's) group \<Rightarrow> ('g, 's) group" where
  "range_body n err st =
     (let st = (case err of None \<Rightarrow> st | Some e \<Rightarrow> st\<lparr>gr_errs := gr_errs st @ [e]\<rparr>);
          st = st\<lparr>gr_count := gr_count st + 1\<rparr>
      in if gr_count st = n then st\<lparr>gr_closed := True\<rparr> else st)"

text \<open>
  \<open>joined\<close> is \<open>ErrorSet.JoinedError\<close> with the separator \<open>" + "\<close>. \<open>None\<close>: the step is not
  possible; sending on a closed channel is a step to \<open>Panicked\<close>.
\<close>

definition group_step ::
    "(error list \<Rightarrow> error) \<Rightarrow> ('g, 's) waiter \<Rightarrow> nat \<Rightarrow> choice \<Rightarrow> ('g, 's) group \<Rightarrow> ('g, 's) group option" where
  "group_step joined run n c st =
     (case c of
        Main \<Rightarrow>
          (case gr_main st of
             Spawning [] \<Rightarrow> Some (st\<lparr>gr_main := Ranging\<rparr>)
           | Spawning (waiter # waiters) \<Rightarrow>
               Some (st\<lparr>gr_main := Spawning waiters, gr_routines := gr_routines st @ [Running waiter]\<rparr>)
           | Ranging \<Rightarrow>
               if gr_closed st
               then Some (st\<lparr>gr_main := Returned (if gr_errs st = [] then None else Some (joined (gr_errs st)))\<rparr>)
               else None \<comment> \<open>blocks until a goroutine sends\<close>
           | Returned _ \<Rightarrow> None
           | Panicked \<Rightarrow> None)
      | Routine i \<Rightarrow>
          if \<not> i < length (gr_routines st) then None
          else (case gr_routines st ! i of
             Running g \<Rightarrow>
               (case run g (gr_api st) of
                  (Inl g', s) \<Rightarrow> Some (st\<lparr>gr_routines := (gr_routines st)[i := Running g'], gr_api := s\<rparr>)
                | (Inr err, s) \<Rightarrow> Some (st\<lparr>gr_routines := (gr_routines st)[i := Sending err], gr_api := s\<rparr>))
           | Sending err \<Rightarrow>
               if gr_closed st then Some (st\<lparr>gr_main := Panicked\<rparr>)
               else (case gr_main st of
                  Ranging \<Rightarrow> Some (range_body n err (st\<lparr>gr_routines := (gr_routines st)[i := Sent err]\<rparr>))
                | _ \<Rightarrow> None) \<comment> \<open>nobody receives\<close>
           | Sent _ \<Rightarrow> None))"

fun group_run ::
    "(error list \<Rightarrow> error) \<Rightarrow> ('g, 's) waiter \<Rightarrow> nat \<Rightarrow> choice list \<Rightarrow> ('g, 's) group \<Rightarrow> ('g, 's) group option" where
  "group_run joined run n [] st = Some st"
| "group_run joined run n (c # cs) st =
     do { st \<leftarrow> group_step joined run n c st; group_run joined run n cs st }"

lemma group_run_append:
  "group_run joined run n (cs @ cs') st =
   do { st \<leftarrow> group_run joined run n cs st; group_run joined run n cs' st }"
proof (induction cs arbitrary: st)
  case (Cons c cs)
  then show ?case by (cases "group_step joined run n c st") simp_all
qed simp

text \<open>The seven kinds of steps.\<close>

lemma group_step_cases:
  assumes "group_step joined run n c st = Some st'"
  obtains (ranging) "c = Main" "gr_main st = Spawning []" "st' = st\<lparr>gr_main := Ranging\<rparr>"
  | (spawn) g gs where "c = Main" "gr_main st = Spawning (g # gs)"
      "st' = st\<lparr>gr_main := Spawning gs, gr_routines := gr_routines st @ [Running g]\<rparr>"
  | (returned) "c = Main" "gr_main st = Ranging" "gr_closed st"
      "st' = st\<lparr>gr_main := Returned (if gr_errs st = [] then None else Some (joined (gr_errs st)))\<rparr>"
  | (work) i g g' s where "c = Routine i" "i < length (gr_routines st)" "gr_routines st ! i = Running g"
      "run g (gr_api st) = (Inl g', s)" "st' = st\<lparr>gr_routines := (gr_routines st)[i := Running g'], gr_api := s\<rparr>"
  | (finish) i g err s where "c = Routine i" "i < length (gr_routines st)" "gr_routines st ! i = Running g"
      "run g (gr_api st) = (Inr err, s)" "st' = st\<lparr>gr_routines := (gr_routines st)[i := Sending err], gr_api := s\<rparr>"
  | (receive) i err where "c = Routine i" "i < length (gr_routines st)" "gr_routines st ! i = Sending err"
      "gr_main st = Ranging" "\<not> gr_closed st"
      "st' = range_body n err (st\<lparr>gr_routines := (gr_routines st)[i := Sent err]\<rparr>)"
  | (panic) i err where "c = Routine i" "i < length (gr_routines st)" "gr_routines st ! i = Sending err"
      "gr_closed st" "st' = st\<lparr>gr_main := Panicked\<rparr>"
proof (cases c)
  case Main
  with assms that(1-3) show thesis
    by (cases "gr_main st") (auto simp: group_step_def split: list.splits if_splits)
next
  case (Routine i)
  with assms have i: "i < length (gr_routines st)" by (auto simp: group_step_def split: if_splits)
  show thesis
  proof (cases "gr_routines st ! i")
    case (Running g)
    obtain res s where r: "run g (gr_api st) = (res, s)" by fastforce
    with assms Routine i Running that(4,5) show thesis by (cases res) (simp_all add: group_step_def)
  next
    case (Sending err)
    with assms Routine i that(6,7) show thesis
      by (cases "gr_main st") (auto simp: group_step_def split: if_splits)
  qed (use assms Routine i in \<open>simp add: group_step_def\<close>)
qed

text \<open>The body of the loop does not touch the goroutines.\<close>

lemma range_body_frame [simp]:
  "gr_routines (range_body n err st) = gr_routines st" "gr_main (range_body n err st) = gr_main st"
  "gr_api (range_body n err st) = gr_api st" "gr_count (range_body n err st) = gr_count st + 1"
  "gr_closed (range_body n err st) \<longleftrightarrow> gr_closed st \<or> gr_count st + 1 = n"
  "gr_errs (range_body n err st) = gr_errs st @ (case err of None \<Rightarrow> [] | Some e \<Rightarrow> [e])"
  by (auto simp: range_body_def Let_def split: option.splits)

section \<open>Waiting for pods\<close>

text \<open>
  \<open>wait.PollImmediate\<close> evaluates its condition at once and then after every interval until the
  timeout. The waiter of a pod holds the number of further evaluations before its timeout.
\<close>

definition ErrWaitTimeout :: error where
  "ErrWaitTimeout = ErrorString ''timed out waiting for the condition''"

definition poll_pod :: "'s client \<Rightarrow> (pod \<times> nat, 's) waiter" where
  "poll_pod cl g s =
     (case pod_gone cl (fst g) s of
        (Inl e, s) \<Rightarrow> (Inr (Some e), s)
      | (Inr True, s) \<Rightarrow> (Inr None, s)
      | (Inr False, s) \<Rightarrow>
          (case snd g of
             0 \<Rightarrow> (Inr (Some ErrWaitTimeout), s)
           | Suc n \<Rightarrow> (Inl (fst g, n), s)))"

definition WaitForPodDeletions :: "(pod \<times> nat) list \<Rightarrow> 's \<Rightarrow> (pod \<times> nat, 's) group" where
  "WaitForPodDeletions pods s =
     (if pods = [] then (waitParallel [] s)\<lparr>gr_main := Returned None\<rparr> else waitParallel pods s)"

section \<open>Every schedule\<close>

lemma sum_list_map_update:
  fixes f :: "'a \<Rightarrow> 'b :: comm_monoid_add"
  shows "i < length xs \<Longrightarrow> sum_list (map f (xs[i := y])) + f (xs ! i) = sum_list (map f xs) + f y"
proof (induction xs arbitrary: i)
  case (Cons x xs)
  then show ?case by (cases i) (simp_all add: ac_simps)
qed simp

fun sent_count :: "'g goroutine \<Rightarrow> nat" where
  "sent_count (Sent err) = 1"
| "sent_count _ = 0"

fun sent_error :: "'g goroutine \<Rightarrow> error multiset" where
  "sent_error (Sent (Some e)) = {#e#}"
| "sent_error _ = {#}"

lemma sent_count_le: "sent_count r \<le> 1"
  by (cases r) simp_all

lemma sum_sent_le: "sum_list (map sent_count rs) \<le> length rs"
proof (induction rs)
  case (Cons r rs)
  with sent_count_le [of r] show ?case by simp
qed simp

lemma sum_sent_less:
  "i < length rs \<Longrightarrow> sent_count (rs ! i) = 0 \<Longrightarrow> sum_list (map sent_count rs) < length rs"
proof (induction rs arbitrary: i)
  case (Cons r rs)
  show ?case
  proof (cases i)
    case 0
    with Cons.prems sum_sent_le [of rs] show ?thesis by simp
  next
    case (Suc j)
    with Cons sent_count_le [of r] show ?thesis by fastforce
  qed
qed simp

lemma sum_sent_less_iff: "sum_list (map sent_count rs) < length rs \<Longrightarrow> \<exists>i < length rs. sent_count (rs ! i) = 0"
proof (induction rs)
  case (Cons r rs)
  show ?case
  proof (cases "sent_count r")
    case (Suc k)
    then have "sent_count r = 1" by (cases r) simp_all
    with Cons obtain i where "i < length rs" "sent_count (rs ! i) = 0" by auto
    then show ?thesis by (intro exI [of _ "Suc i"]) simp
  qed auto
qed simp

text \<open>The invariant of a group that was started for the waiters \<open>ws\<close>.\<close>

definition group_inv :: "(error list \<Rightarrow> error) \<Rightarrow> 'g list \<Rightarrow> ('g, 's) group \<Rightarrow> bool" where
  "group_inv joined ws st \<longleftrightarrow>
     (case gr_main st of
        Spawning gs \<Rightarrow> gs = drop (length (gr_routines st)) ws \<and> length (gr_routines st) \<le> length ws \<and> gr_count st = 0
      | Ranging \<Rightarrow> length (gr_routines st) = length ws
      | Returned r \<Rightarrow> length (gr_routines st) = length ws \<and> gr_closed st
          \<and> r = (if gr_errs st = [] then None else Some (joined (gr_errs st)))
      | Panicked \<Rightarrow> False)
     \<and> gr_count st = sum_list (map sent_count (gr_routines st))
     \<and> mset (gr_errs st) = sum_list (map sent_error (gr_routines st))
     \<and> (gr_closed st \<longleftrightarrow> gr_count st = length ws)"

lemma group_inv_start: "ws \<noteq> [] \<Longrightarrow> group_inv joined ws (waitParallel ws s)"
  by (simp add: group_inv_def waitParallel_def)

text \<open>A goroutine at its send finds the channel open.\<close>

lemma group_inv_open:
  assumes "group_inv joined ws st" and "i < length (gr_routines st)" and "sent_count (gr_routines st ! i) = 0"
  shows "\<not> gr_closed st" "gr_count st < length ws" "length (gr_routines st) \<le> length ws"
proof -
  show le: "length (gr_routines st) \<le> length ws"
    using assms(1) by (auto simp: group_inv_def split: main_goroutine.splits)
  with sum_sent_less [OF assms(2,3)] assms(1) show "gr_count st < length ws" by (simp add: group_inv_def)
  with assms(1) show "\<not> gr_closed st" by (simp add: group_inv_def)
qed

lemma group_step_inv:
  assumes inv: "group_inv joined ws st" and ws: "ws \<noteq> []"
    and step: "group_step joined run (length ws) c st = Some st'"
  shows "group_inv joined ws st'"
  using step
proof (cases rule: group_step_cases)
  case ranging
  with inv have "length (gr_routines st) = length ws" by (simp add: group_inv_def)
  with ranging inv show ?thesis by (auto simp: group_inv_def)
next
  case (spawn g gs)
  with inv have d: "drop (length (gr_routines st)) ws = g # gs" by (simp add: group_inv_def)
  then have "drop (Suc (length (gr_routines st))) ws = gs" "Suc (length (gr_routines st)) \<le> length ws"
    by (metis drop_Suc list.sel(3) tl_drop, metis Suc_leI drop_all list.distinct(1) not_le)
  with spawn inv show ?thesis by (auto simp: group_inv_def)
next
  case (work i g g' s)
  with inv sum_list_map_update [OF work(2), of sent_count] sum_list_map_update [OF work(2), of sent_error]
  show ?thesis by (auto simp: group_inv_def split: main_goroutine.splits)
next
  case (finish i g err s)
  with inv sum_list_map_update [OF finish(2), of sent_count] sum_list_map_update [OF finish(2), of sent_error]
  show ?thesis by (auto simp: group_inv_def split: main_goroutine.splits)
next
  case (receive i err)
  with inv sum_list_map_update [OF receive(2), of sent_count "Sent err"]
    sum_list_map_update [OF receive(2), of sent_error "Sent err"]
  show ?thesis by (cases err) (auto simp: group_inv_def)
next
  case (panic i err)
  with group_inv_open [OF inv panic(2)] show ?thesis by simp
qed (use inv in \<open>auto simp: group_inv_def\<close>)

lemma group_run_inv:
  "group_run joined run (length ws) cs st = Some st' \<Longrightarrow> group_inv joined ws st \<Longrightarrow> ws \<noteq> [] \<Longrightarrow> group_inv joined ws st'"
proof (induction cs arbitrary: st)
  case (Cons c cs)
  then obtain st1 where "group_step joined run (length ws) c st = Some st1" "group_run joined run (length ws) cs st1 = Some st'"
    by (auto simp: bind_eq_Some_conv)
  with Cons show ?case by (blast intro: group_step_inv)
qed simp

text \<open>As long as the function has not returned, some goroutine can go on.\<close>

lemma group_not_stuck:
  assumes inv: "group_inv joined ws st" and going: "\<And>r. gr_main st \<noteq> Returned r"
  shows "\<exists>c st'. group_step joined run (length ws) c st = Some st'"
proof (cases "gr_main st")
  case (Spawning gs)
  then have "group_step joined run (length ws) Main st \<noteq> None" by (cases gs) (simp_all add: group_step_def)
  then show ?thesis by blast
next
  case Ranging
  show ?thesis
  proof (cases "gr_closed st")
    case True
    with Ranging have "group_step joined run (length ws) Main st \<noteq> None" by (simp add: group_step_def)
    then show ?thesis by blast
  next
    case False
    with inv Ranging sum_sent_le [of "gr_routines st"] have "sum_list (map sent_count (gr_routines st)) < length (gr_routines st)"
      by (auto simp: group_inv_def)
    from sum_sent_less_iff [OF this] obtain i where i: "i < length (gr_routines st)" "sent_count (gr_routines st ! i) = 0"
      by blast
    then have "group_step joined run (length ws) (Routine i) st \<noteq> None"
      using Ranging False by (auto simp: group_step_def split: goroutine.splits prod.splits sum.splits)
    then show ?thesis by blast
  qed
qed (use assms in \<open>auto simp: group_inv_def\<close>)

section \<open>Termination and results\<close>

text \<open>What a goroutine has returned it returned from a step of its waiter in this very run.\<close>

definition returned_at ::
    "(error list \<Rightarrow> error) \<Rightarrow> ('g, 's) waiter \<Rightarrow> nat \<Rightarrow> ('g, 's) group \<Rightarrow> choice list \<Rightarrow> nat \<Rightarrow> error option \<Rightarrow> bool" where
  "returned_at joined run n st0 cs i err \<longleftrightarrow>
     (\<exists>cs1 cs2 st g. cs = cs1 @ cs2 \<and> group_run joined run n cs1 st0 = Some st
        \<and> i < length (gr_routines st) \<and> gr_routines st ! i = Running g \<and> fst (run g (gr_api st)) = Inr err)"

lemma returned_at_mono: "returned_at joined run n st0 cs i err \<Longrightarrow> returned_at joined run n st0 (cs @ cs') i err"
  by (force simp: returned_at_def)

lemma group_step_routines:
  assumes "group_step joined run n c st = Some st'" and "i < length (gr_routines st')"
    and "gr_routines st' ! i \<in> {Sending err, Sent err}"
  shows "i < length (gr_routines st) \<and> gr_routines st ! i \<in> {Sending err, Sent err} \<or>
    i < length (gr_routines st) \<and> (\<exists>g. gr_routines st ! i = Running g \<and> fst (run g (gr_api st)) = Inr err)"
  using assms(1)
  by (cases rule: group_step_cases) (use assms(2,3) in \<open>auto simp: nth_append nth_list_update split: if_splits\<close>)

lemma group_run_returned:
  "group_run joined run n cs st0 = Some st \<Longrightarrow> gr_routines st0 = [] \<Longrightarrow> i < length (gr_routines st) \<Longrightarrow>
   gr_routines st ! i \<in> {Sending err, Sent err} \<Longrightarrow> returned_at joined run n st0 cs i err"
proof (induction cs arbitrary: st rule: rev_induct)
  case (snoc c cs)
  then obtain st1 where run: "group_run joined run n cs st0 = Some st1" and step: "group_step joined run n c st1 = Some st"
    by (auto simp: group_run_append bind_eq_Some_conv)
  from group_step_routines [OF step snoc.prems(3,4)] show ?case
  proof
    assume "i < length (gr_routines st1) \<and> gr_routines st1 ! i \<in> {Sending err, Sent err}"
    with snoc.IH [OF run snoc.prems(2)] show ?thesis by (blast intro: returned_at_mono)
  next
    assume "i < length (gr_routines st1) \<and> (\<exists>g. gr_routines st1 ! i = Running g \<and> fst (run g (gr_api st1)) = Inr err)"
    with run show ?thesis by (auto simp: returned_at_def)
  qed
qed simp

text \<open>A property of the waiters that their steps keep holds of whatever is running.\<close>

lemma group_run_origin:
  assumes keeps: "\<And>i g s g' s'. P i g \<Longrightarrow> run g s = (Inl g', s') \<Longrightarrow> P i g'" and ws: "\<And>i. i < length ws \<Longrightarrow> P i (ws ! i)"
    and ne: "ws \<noteq> []"
  shows "group_run joined run (length ws) cs st = Some st' \<Longrightarrow> group_inv joined ws st \<Longrightarrow>
    \<forall>i < length (gr_routines st). \<forall>g. gr_routines st ! i = Running g \<longrightarrow> P i g \<Longrightarrow>
    \<forall>i < length (gr_routines st'). \<forall>g. gr_routines st' ! i = Running g \<longrightarrow> P i g"
proof (induction cs arbitrary: st)
  case (Cons c cs)
  then obtain st1 where step: "group_step joined run (length ws) c st = Some st1"
    and rest: "group_run joined run (length ws) cs st1 = Some st'"
    by (auto simp: bind_eq_Some_conv)
  have "\<forall>i < length (gr_routines st1). \<forall>g. gr_routines st1 ! i = Running g \<longrightarrow> P i g"
    using step
  proof (cases rule: group_step_cases)
    case (spawn g gs)
    then have d: "drop (length (gr_routines st)) ws = g # gs" using Cons.prems(2) by (simp add: group_inv_def)
    then have "length (gr_routines st) < length ws" by (metis drop_all list.distinct(1) not_le)
    with d ws have "P (length (gr_routines st)) g" by (metis hd_drop_conv_nth list.sel(1))
    with spawn Cons.prems(3) show ?thesis by (auto simp: nth_append less_Suc_eq)
  next
    case (work i g g' s)
    with Cons.prems(3) have "P i g'" using keeps by blast
    with work Cons.prems(3) show ?thesis by (auto simp: nth_list_update)
  qed (use Cons.prems(3) in \<open>auto simp: nth_list_update\<close>)
  with Cons.IH [OF rest group_step_inv [OF Cons.prems(2) ne step]] show ?case .
qed simp

text \<open>
  The waiters are machines that return after a bounded number of steps, whatever the other
  goroutines do to the API server in between.
\<close>

locale bounded_waiter =
  fixes run :: "('g, 's) waiter" and rank :: "'g \<Rightarrow> nat"
  assumes rank_decreases: "run g s = (Inl g', s') \<Longrightarrow> rank g' < rank g"
begin

definition weight :: "'g goroutine \<Rightarrow> nat" where
  "weight r = (case r of Running g \<Rightarrow> rank g + 2 | Sending _ \<Rightarrow> 1 | Sent _ \<Rightarrow> 0)"

definition remaining :: "('g, 's) group \<Rightarrow> nat" where
  "remaining st = sum_list (map weight (gr_routines st)) +
     (case gr_main st of Spawning gs \<Rightarrow> sum_list (map (\<lambda>g. rank g + 3) gs) + 2 | Ranging \<Rightarrow> 1 | _ \<Rightarrow> 0)"

lemma remaining_start: "remaining (waitParallel ws s) = sum_list (map (\<lambda>g. rank g + 3) ws) + 2"
  by (simp add: remaining_def waitParallel_def)

lemma step_decreases:
  assumes inv: "group_inv joined ws st" and step: "group_step joined run (length ws) c st = Some st'"
  shows "remaining st' < remaining st"
  using step
proof (cases rule: group_step_cases)
  case (work i g g' s)
  with sum_list_map_update [OF work(2), of weight "Running g'"] rank_decreases [OF work(4)]
  show ?thesis by (simp add: remaining_def weight_def)
next
  case (finish i g err s)
  with sum_list_map_update [OF finish(2), of weight "Sending err"] show ?thesis by (simp add: remaining_def weight_def)
next
  case (receive i err)
  with sum_list_map_update [OF receive(2), of weight "Sent err"] show ?thesis by (simp add: remaining_def weight_def)
next
  case (panic i err)
  with group_inv_open [OF inv panic(2)] show ?thesis by simp
qed (simp_all add: remaining_def weight_def)

lemma run_bounded:
  "group_run joined run (length ws) cs st = Some st' \<Longrightarrow> group_inv joined ws st \<Longrightarrow> ws \<noteq> [] \<Longrightarrow>
   length cs + remaining st' \<le> remaining st"
proof (induction cs arbitrary: st)
  case (Cons c cs)
  then obtain st1 where step: "group_step joined run (length ws) c st = Some st1"
    and rest: "group_run joined run (length ws) cs st1 = Some st'"
    by (auto simp: bind_eq_Some_conv)
  from Cons.IH [OF rest group_step_inv [OF Cons.prems(2,3) step] Cons.prems(3)] step_decreases [OF Cons.prems(2) step]
  show ?case by simp
qed simp

end

text \<open>The waiter of a pod is one.\<close>

interpretation pod_waiter: bounded_waiter "poll_pod cl" snd for cl
  by unfold_locales (auto simp: poll_pod_def split: prod.splits sum.splits bool.splits nat.splits)

lemma poll_pod_keeps: "poll_pod cl g s = (Inl g', s') \<Longrightarrow> fst g' = fst g"
  by (auto simp: poll_pod_def split: prod.splits sum.splits bool.splits nat.splits)

lemma poll_pod_nil: "fst (poll_pod cl g s) = Inr None \<longleftrightarrow> fst (pod_gone cl (fst g) s) = Inr True"
  by (auto simp: poll_pod_def split: prod.splits sum.splits bool.splits nat.splits)

text \<open>A returned group has collected every result.\<close>

lemma group_returned_all_sent:
  assumes inv: "group_inv joined ws st" and ret: "gr_main st = Returned r" and i: "i < length ws"
  shows "\<exists>err. gr_routines st ! i = Sent err"
proof -
  have len: "length (gr_routines st) = length ws" and sum: "sum_list (map sent_count (gr_routines st)) = length ws"
    using inv ret by (auto simp: group_inv_def)
  with sum_sent_less [of i "gr_routines st"] i have "sent_count (gr_routines st ! i) \<noteq> 0" by auto
  then show ?thesis by (cases "gr_routines st ! i") simp_all
qed

lemma sum_sent_error_empty: "sum_list (map sent_error rs) = {#} \<longleftrightarrow> (\<forall>r \<in> set rs. sent_error r = {#})"
  by (induction rs) auto

lemma group_returned_nil_iff:
  assumes inv: "group_inv joined ws st" and ret: "gr_main st = Returned r"
  shows "r = None \<longleftrightarrow> (\<forall>i < length ws. gr_routines st ! i = Sent None)"
proof -
  have len: "length (gr_routines st) = length ws" and r: "r = None \<longleftrightarrow> gr_errs st = []"
    and errs: "mset (gr_errs st) = sum_list (map sent_error (gr_routines st))"
    using inv ret by (auto simp: group_inv_def)
  have "r = None \<longleftrightarrow> mset (gr_errs st) = {#}" using r by simp
  also have "\<dots> \<longleftrightarrow> (\<forall>i < length ws. sent_error (gr_routines st ! i) = {#})"
    unfolding errs sum_sent_error_empty by (simp add: all_set_conv_all_nth len)
  also have "\<dots> \<longleftrightarrow> (\<forall>i < length ws. gr_routines st ! i = Sent None)"
  proof (intro all_cong)
    fix i assume "i < length ws"
    from group_returned_all_sent [OF inv ret this] show "sent_error (gr_routines st ! i) = {#} \<longleftrightarrow> gr_routines st ! i = Sent None"
      by (auto elim: sent_error.elims)
  qed
  finally show ?thesis .
qed

text \<open>
  With no waiter at all the channel is never closed: the loop over it blocks forever. The caller
  \<open>WaitForPodDeletions\<close> returns before for an empty list of pods.
\<close>

lemma waitParallel_empty_blocks:
  "group_run joined run 0 cs (waitParallel [] s) = Some st \<Longrightarrow> gr_main st \<in> {Spawning [], Ranging} \<and> length cs \<le> 1"
proof (cases cs)
  case (Cons c cs')
  assume run: "group_run joined run 0 cs (waitParallel [] s) = Some st"
  then obtain st1 where step: "group_step joined run 0 c (waitParallel [] s) = Some st1" and rest: "group_run joined run 0 cs' st1 = Some st"
    by (auto simp: Cons bind_eq_Some_conv)
  have st1: "st1 = (waitParallel [] s)\<lparr>gr_main := Ranging\<rparr>"
    using step by (cases rule: group_step_cases) (simp_all add: waitParallel_def)
  have "group_step joined run 0 c' st1 = None" for c' by (cases c') (simp_all add: st1 waitParallel_def group_step_def)
  with rest st1 show ?thesis by (cases cs') (auto simp: Cons waitParallel_def)
qed (auto simp: waitParallel_def)

end
