(* ===== verification/Server.thy ===== *)
theory Server
  imports ApiServer GoTime
begin

text \<open>
  The life of \<open>api/server.go\<close>: \<open>Start\<close> listens, routes requests, and after the end of its
  context waits for one more scrape of the metrics before it shuts the HTTP server down and
  closes its channel. The routing is that of the package \<open>net/http\<close> for the four patterns
  registered. What happens around the goroutine of \<open>Start\<close> (requests, the passing of time, the
  end of the context) is a sequence of events, so that the theorems hold for every interleaving.
\<close>

section \<open>Routing\<close>

datatype route = MetricsRoute | InfoRoute | StaticRoute string | RedirectRoute string | NotFoundRoute

text \<open>
  \<open>ServeMux\<close> takes the longest registered pattern: two exact paths, the tree \<open>/static/\<close> and the
  tree \<open>/\<close>; the root of a registered tree without its final slash is redirected to the tree. The
  static files lose the prefix \<open>/static\<close>, everything else is redirected there.
\<close>

definition mux_route :: "string \<Rightarrow> route" where
  "mux_route path =
     (if path = ''/metrics'' then MetricsRoute
      else if path = ''/api/v1/info'' then InfoRoute
      else if prefix ''/static/'' path then StaticRoute (drop (length ''/static'') path)
      else if path = ''/static'' then RedirectRoute ''/static/''
      else if prefix ''/'' path then RedirectRoute ''/static''
      else NotFoundRoute)"

text \<open>What a client that follows redirects is finally served.\<close>

fun follow :: "nat \<Rightarrow> string \<Rightarrow> route" where
  "follow 0 path = mux_route path"
| "follow (Suc n) path = (case mux_route path of RedirectRoute target \<Rightarrow> follow n target | r \<Rightarrow> r)"

section \<open>The server and its events\<close>

datatype shutdown_channel = NilChan | OpenChan | ClosedChan

record server = api_server +
  sv_Address :: string
  sv_WaitTimeout :: duration
  sv_StaticPath :: string
  sv_counter :: int
  sv_shutdown :: shutdown_channel

definition NeedLeaderElection :: bool where
  "NeedLeaderElection = False"

definition Server_Done :: "server \<Rightarrow> shutdown_channel" where
  "Server_Done srv = sv_shutdown srv"

definition static_dir :: "server \<Rightarrow> string" where
  "static_dir srv = (if sv_StaticPath srv = [] then ''static'' else sv_StaticPath srv)"

datatype response = MetricsPage | Body string | File string string \<comment> \<open>directory, name\<close>
  | Redirect string | NotFound

text \<open>Serving one request: the metrics handler counts the scrape first.\<close>

definition serve ::
    "('s, 'q) web \<Rightarrow> 's client \<Rightarrow> string \<Rightarrow> server \<Rightarrow> 's world \<Rightarrow> response \<times> server \<times> 's world" where
  "serve web cl path srv w =
     (case mux_route path of
        MetricsRoute \<Rightarrow> (MetricsPage, srv\<lparr>sv_counter := wrap64 (sv_counter srv + 1)\<rparr>, w)
      | InfoRoute \<Rightarrow> (let (body, w) = handle_info web cl (api_server.truncate srv) w in (Body body, srv, w))
      | StaticRoute name \<Rightarrow> (File (static_dir srv) name, srv, w)
      | RedirectRoute target \<Rightarrow> (Redirect target, srv, w)
      | NotFoundRoute \<Rightarrow> (NotFound, srv, w))"

text \<open>
  Where the goroutine of \<open>Start\<close> is: at \<open><-ctx.Done()\<close>, in \<open>PollImmediate\<close> with the counter it
  remembered and the number of evaluations so far, in \<open>Shutdown\<close>, or returned.
\<close>

datatype phase = Serving | Awaiting int nat | ShuttingDown | StartReturned "error option"

record 's server_state =
  ss_server :: server
  ss_phase :: phase
  ss_world :: "'s world"
  ss_responses :: "(string \<times> response) list"

datatype event =
    Request string
  | SetElected elected_channel \<comment> \<open>by the manager\<close>
  | SetCache node_info_cache \<comment> \<open>by the node controller\<close>
  | CtxDone
  | Evaluate \<comment> \<open>an evaluation of the condition, once a second\<close>
  | Timeout
  | ShutdownDone "error option" \<comment> \<open>the result of \<open>server.Shutdown\<close>\<close>

definition Server_Start :: "(string \<Rightarrow> error option) \<Rightarrow> server \<Rightarrow> 's world \<Rightarrow> 's server_state" where
  "Server_Start listen srv w =
     (let srv = srv\<lparr>sv_shutdown := OpenChan\<rparr>
      in \<lparr>ss_server = srv, ss_phase = (case listen (sv_Address srv) of Some e \<Rightarrow> StartReturned (Some e) | None \<Rightarrow> Serving),
          ss_world = w, ss_responses = []\<rparr>)"

text \<open>
  \<open>PollImmediate\<close> evaluates its condition at once, then after every second that is within the
  timeout. Requests are served until the shutdown. \<open>None\<close>: the event cannot happen now.
\<close>

definition accepting :: "phase \<Rightarrow> bool" where
  "accepting ph = (case ph of Serving \<Rightarrow> True | Awaiting _ _ \<Rightarrow> True | _ \<Rightarrow> False)"

definition server_step ::
    "('s, 'q) web \<Rightarrow> 's client \<Rightarrow> event \<Rightarrow> 's server_state \<Rightarrow> 's server_state option" where
  "server_step web cl ev st =
     (case ev of
        Request path \<Rightarrow>
          if accepting (ss_phase st)
          then (let (r, srv, w) = serve web cl path (ss_server st) (ss_world st)
                in Some (st\<lparr>ss_server := srv, ss_world := w, ss_responses := ss_responses st @ [(path, r)]\<rparr>))
          else None
      | SetElected c \<Rightarrow> Some (st\<lparr>ss_server := (ss_server st)\<lparr>as_Elected := c\<rparr>\<rparr>)
      | SetCache c \<Rightarrow> Some (st\<lparr>ss_server := (ss_server st)\<lparr>as_NodeInfoCache := c\<rparr>\<rparr>)
      | CtxDone \<Rightarrow>
          (case ss_phase st of
             Serving \<Rightarrow> Some (st\<lparr>ss_phase := Awaiting (sv_counter (ss_server st)) 0\<rparr>)
           | _ \<Rightarrow> None)
      | Evaluate \<Rightarrow>
          (case ss_phase st of
             Awaiting before k \<Rightarrow>
               if k = 0 \<or> int k * Second \<le> sv_WaitTimeout (ss_server st)
               then Some (st\<lparr>ss_phase :=
                      (if sv_counter (ss_server st) > before then ShuttingDown else Awaiting before (Suc k))\<rparr>)
               else None
           | _ \<Rightarrow> None)
      | Timeout \<Rightarrow>
          (case ss_phase st of
             Awaiting before k \<Rightarrow>
               if k \<noteq> 0 \<and> sv_WaitTimeout (ss_server st) \<le> int k * Second
               then Some (st\<lparr>ss_phase := ShuttingDown\<rparr>)
               else None
           | _ \<Rightarrow> None)
      | ShutdownDone err \<Rightarrow>
          (case ss_phase st of
             ShuttingDown \<Rightarrow>
               (case err of
                  Some e \<Rightarrow> Some (st\<lparr>ss_phase := StartReturned (Some e)\<rparr>)
                | None \<Rightarrow> Some (st\<lparr>ss_server := (ss_server st)\<lparr>sv_shutdown := ClosedChan\<rparr>,
                                    ss_phase := StartReturned None\<rparr>))
           | _ \<Rightarrow> None))"

fun server_run ::
    "('s, 'q) web \<Rightarrow> 's client \<Rightarrow> event list \<Rightarrow> 's server_state \<Rightarrow> 's server_state option" where
  "server_run web cl [] st = Some st"
| "server_run web cl (ev # evs) st = do { st \<leftarrow> server_step web cl ev st; server_run web cl evs st }"

lemma server_run_append:
  "server_run web cl (evs @ evs') st = do { st \<leftarrow> server_run web cl evs st; server_run web cl evs' st }"
proof (induction evs arbitrary: st)
  case (Cons ev evs)
  then show ?case by (cases "server_step web cl ev st") simp_all
qed simp

section \<open>Every path is served\<close>

lemma mux_route_static: "mux_route ''/static/'' = StaticRoute ''/''"
  by (simp add: mux_route_def)

lemma follow_serves:
  assumes "prefix ''/'' path"
  shows "follow 2 path \<in> {MetricsRoute, InfoRoute} \<union> range StaticRoute"
proof -
  have "mux_route ''/static'' = RedirectRoute ''/static/''" by (simp add: mux_route_def)
  with assms mux_route_static show ?thesis by (auto simp: numeral_2_eq_2 mux_route_def)
qed

section \<open>The steps of the server\<close>

lemma serve_frame:
  assumes "serve web cl path srv w = (r, srv', w')"
  shows "sv_WaitTimeout srv' = sv_WaitTimeout srv" "sv_shutdown srv' = sv_shutdown srv" "sv_Address srv' = sv_Address srv"
    "sv_counter srv' = (if path = ''/metrics'' then wrap64 (sv_counter srv + 1) else sv_counter srv)"
  using assms by (auto simp: serve_def mux_route_def Let_def split: prod.splits if_splits)

text \<open>The number of scrapes among some events, and whether the context is done.\<close>

definition scrapes :: "event list \<Rightarrow> nat" where
  "scrapes evs = length (filter (\<lambda>ev. ev = Request ''/metrics'') evs)"

lemma scrapes_simps [simp]:
  "scrapes [] = 0" "scrapes (evs @ evs') = scrapes evs + scrapes evs'"
  "scrapes (ev # evs) = (if ev = Request ''/metrics'' then Suc (scrapes evs) else scrapes evs)"
  by (simp_all add: scrapes_def)

text \<open>After the end of the context the events so far split there.\<close>

definition waited :: "duration \<Rightarrow> event list \<Rightarrow> event list \<Rightarrow> bool" where
  "waited timeout evs1 evs2 \<longleftrightarrow> CtxDone \<notin> set evs1 \<union> set evs2
     \<and> (count_list evs2 Evaluate \<le> 1 \<or> int (count_list evs2 Evaluate - 1) * Second \<le> timeout)"

lemma waited_snoc: "waited timeout evs1 evs2 \<Longrightarrow> ev \<noteq> CtxDone \<Longrightarrow> ev \<noteq> Evaluate \<Longrightarrow> waited timeout evs1 (evs2 @ [ev])"
  by (simp add: waited_def)

lemma waited_check:
  "waited timeout evs1 evs2 \<Longrightarrow> count_list evs2 Evaluate = 0 \<or> int (count_list evs2 Evaluate) * Second \<le> timeout \<Longrightarrow>
   waited timeout evs1 (evs2 @ [Evaluate])"
  by (auto simp: waited_def)

text \<open>
  The states reached from a started server, with the events that led there. The counter is exact
  as long as it does not wrap.
\<close>

definition server_inv :: "server \<Rightarrow> event list \<Rightarrow> 's server_state \<Rightarrow> bool" where
  "server_inv srv evs st \<longleftrightarrow>
     sv_WaitTimeout (ss_server st) = sv_WaitTimeout srv
     \<and> (sv_shutdown (ss_server st) = ClosedChan \<longleftrightarrow> ss_phase st = StartReturned None)
     \<and> sv_counter (ss_server st) = sv_counter srv + int (scrapes evs)
     \<and> (case ss_phase st of
          Serving \<Rightarrow> CtxDone \<notin> set evs
        | Awaiting before k \<Rightarrow> (\<exists>evs1 evs2. evs = evs1 @ CtxDone # evs2 \<and> waited (sv_WaitTimeout srv) evs1 evs2
            \<and> before = sv_counter srv + int (scrapes evs1) \<and> k = count_list evs2 Evaluate \<and> Timeout \<notin> set evs2)
        | _ \<Rightarrow> (\<exists>evs1 evs2. evs = evs1 @ CtxDone # evs2 \<and> waited (sv_WaitTimeout srv) evs1 evs2
            \<and> (scrapes evs2 > 0 \<or> Timeout \<in> set evs2)))"

lemma server_inv_start:
  assumes "listen (sv_Address srv) = None"
  shows "server_inv srv [] (Server_Start listen srv w)"
  using assms by (simp add: server_inv_def Server_Start_def Let_def)

lemma server_step_awaiting:
  assumes inv: "server_inv srv evs st" and ph: "ss_phase st = Awaiting before k"
  obtains evs1 evs2 where "evs = evs1 @ CtxDone # evs2" "waited (sv_WaitTimeout srv) evs1 evs2"
    "before = sv_counter srv + int (scrapes evs1)" "k = count_list evs2 Evaluate" "Timeout \<notin> set evs2"
  using inv ph by (auto simp: server_inv_def)

lemma snoc_ctx: "(evs1 @ CtxDone # evs2) @ [ev] = evs1 @ CtxDone # (evs2 @ [ev])"
  by simp

lemma server_step_inv:
  assumes inv: "server_inv srv evs st" and step: "server_step web cl ev st = Some st'"
    and small: "0 \<le> sv_counter srv" "sv_counter srv + int (scrapes (evs @ [ev])) \<le> maxDuration"
  shows "server_inv srv (evs @ [ev]) st'"
proof -
  consider (Serving) "ss_phase st = Serving" | (Awaiting) before k where "ss_phase st = Awaiting before k"
    | (late) "\<not> accepting (ss_phase st)" by (cases "ss_phase st") (auto simp: accepting_def)
  then show ?thesis
  proof cases
    case Serving
    show ?thesis
    proof (cases ev)
      case (Request path)
      with step Serving obtain r s w where "serve web cl path (ss_server st) (ss_world st) = (r, s, w)"
        "st' = st\<lparr>ss_server := s, ss_world := w, ss_responses := ss_responses st @ [(path, r)]\<rparr>"
        by (auto simp: server_step_def accepting_def split: prod.splits)
      with serve_frame [OF this(1)] Serving Request inv small show ?thesis
        by (auto simp: server_inv_def wrap64_id)
    next
      case CtxDone
      with step Serving have "st' = st\<lparr>ss_phase := Awaiting (sv_counter (ss_server st)) 0\<rparr>" by (simp add: server_step_def)
      with CtxDone Serving inv show ?thesis
        by (auto simp: server_inv_def waited_def intro!: exI [of _ evs, OF exI [of _ "[]"]])
    qed (use step Serving inv in \<open>auto simp: server_step_def server_inv_def\<close>)
  next
    case (Awaiting before k)
    from server_step_awaiting [OF inv Awaiting] obtain evs1 evs2 where e: "evs = evs1 @ CtxDone # evs2"
      "waited (sv_WaitTimeout srv) evs1 evs2" "before = sv_counter srv + int (scrapes evs1)"
      "k = count_list evs2 Evaluate" "Timeout \<notin> set evs2" .
    note split = exI [of _ evs1, OF exI [of _ "evs2 @ [ev]"]]
    have inv': "sv_WaitTimeout (ss_server st) = sv_WaitTimeout srv" "sv_shutdown (ss_server st) \<noteq> ClosedChan"
      "sv_counter (ss_server st) = sv_counter srv + int (scrapes evs)"
      using inv Awaiting by (auto simp: server_inv_def)
    show ?thesis
    proof (cases ev)
      case (Request path)
      with step Awaiting obtain r s w where "serve web cl path (ss_server st) (ss_world st) = (r, s, w)"
        "st' = st\<lparr>ss_server := s, ss_world := w, ss_responses := ss_responses st @ [(path, r)]\<rparr>"
        by (auto simp: server_step_def accepting_def split: prod.splits)
      with serve_frame [OF this(1)] Awaiting Request inv' small e waited_snoc [OF e(2), of ev] show ?thesis
        by (auto simp: server_inv_def wrap64_id intro!: split)
    next
      case Evaluate
      with step Awaiting inv' e have c: "count_list evs2 Evaluate = 0 \<or> int (count_list evs2 Evaluate) * Second \<le> sv_WaitTimeout srv"
        and st': "st' = st\<lparr>ss_phase := (if sv_counter (ss_server st) > before then ShuttingDown else Awaiting before (Suc k))\<rparr>"
        by (auto simp: server_step_def split: if_splits)
      from Evaluate Awaiting inv' e waited_check [OF e(2) c] show ?thesis
        unfolding st' by (auto simp: server_inv_def intro!: split)
    next
      case Timeout
      with step Awaiting have "st' = st\<lparr>ss_phase := ShuttingDown\<rparr>" by (auto simp: server_step_def split: if_splits)
      with Timeout Awaiting inv' e waited_snoc [OF e(2), of ev] show ?thesis
        by (auto simp: server_inv_def intro!: split)
    qed (use step Awaiting inv' e waited_snoc [OF e(2), of ev] in
        \<open>auto simp: server_step_def server_inv_def intro!: split\<close>)
  next
    case late
    then obtain evs1 evs2 where e: "evs = evs1 @ CtxDone # evs2" "waited (sv_WaitTimeout srv) evs1 evs2"
      "scrapes evs2 > 0 \<or> Timeout \<in> set evs2"
      using inv by (cases "ss_phase st") (auto simp: server_inv_def accepting_def)
    note split = exI [of _ evs1, OF exI [of _ "evs2 @ [ev]"]]
    show ?thesis
      using late inv e step waited_snoc [OF e(2), of ev]
      by (cases ev; cases "ss_phase st")
        (auto simp: server_step_def server_inv_def accepting_def split: option.splits intro!: split)
  qed
qed

lemma server_run_inv:
  "server_run web cl evs' st = Some st' \<Longrightarrow> server_inv srv evs st \<Longrightarrow> 0 \<le> sv_counter srv \<Longrightarrow>
   sv_counter srv + int (scrapes (evs @ evs')) \<le> maxDuration \<Longrightarrow> server_inv srv (evs @ evs') st'"
proof (induction evs' arbitrary: evs st)
  case (Cons ev evs')
  then obtain st1 where step: "server_step web cl ev st = Some st1" and rest: "server_run web cl evs' st1 = Some st'"
    by (auto simp: bind_eq_Some_conv)
  have "server_inv srv (evs @ [ev]) st1"
    by (rule server_step_inv [OF Cons.prems(2) step Cons.prems(3)]) (use Cons.prems(4) in \<open>auto split: if_splits\<close>)
  from Cons.IH [OF rest this Cons.prems(3)] Cons.prems(4) show ?case by simp
qed simp

text \<open>The wait cannot get stuck: the condition is evaluated or the timeout is over.\<close>

lemma awaiting_not_stuck:
  assumes "ss_phase st = Awaiting before k"
  shows "server_step web cl Evaluate st \<noteq> None \<or> server_step web cl Timeout st \<noteq> None"
  using assms by (auto simp: server_step_def)

end
