(* ===== verification/MainProgram.thy ===== *)
theory MainProgram
  imports Server Kubernikus
begin

text \<open>
  The program around the controllers: \<open>main.go\<close> (command line, Kubernetes context, the manager
  and what is registered with it), \<open>common/cache.go\<close> (what the cache of the manager keeps of a
  pod) and the loading of the configuration files of the ESX and Kubernikus controllers, with the
  loop of the ESX runnable. The package \<open>flag\<close> is modelled as far as the program uses it; the
  manager of controller-runtime is a parameter that accepts or refuses each registration.
\<close>

section \<open>The command line (flag.Parse)\<close>

record reconcilerConfig =
  metricsAddr :: string
  metricsTimeout :: duration
  enableESXMaintenance :: bool
  enableKubernikusMaintenance :: bool

text \<open>The variables of \<open>main\<close>; \<open>'z\<close> holds the flags that libraries register (zap, kubeconfig).\<close>

record 'z main_flags =
  mf_reconcilerCfg :: reconcilerConfig
  mf_kubecontext :: string
  mf_probeAddr :: string
  mf_pprofAddr :: string
  mf_enableLeaderElection :: bool
  mf_other :: 'z

definition flag_defaults :: "'z \<Rightarrow> 'z main_flags" where
  "flag_defaults z =
     \<lparr>mf_reconcilerCfg = \<lparr>metricsAddr = '':8080'', metricsTimeout = 65 * Second,
        enableESXMaintenance = False, enableKubernikusMaintenance = False\<rparr>,
      mf_kubecontext = [], mf_probeAddr = '':8081'', mf_pprofAddr = [], mf_enableLeaderElection = False,
      mf_other = z\<rparr>"

text \<open>Whether a flag is boolean, and setting it to a text; \<open>None\<close>: no such flag.\<close>

record 'z other_flags =
  of_IsBool :: "string \<Rightarrow> bool"
  of_Set :: "string \<Rightarrow> (string \<Rightarrow> 'z \<Rightarrow> error + 'z) option"

definition ParseBool :: "string \<Rightarrow> error + bool" where
  "ParseBool s =
     (if s \<in> {''1'', ''t'', ''T'', ''TRUE'', ''true'', ''True''} then Inr True
      else if s \<in> {''0'', ''f'', ''F'', ''FALSE'', ''false'', ''False''} then Inr False
      else Inl (ErrorString ''parse error''))"

definition bool_flags :: "string list" where
  "bool_flags = [''enable-leader-election'', ''enable-esx-maintenance'', ''enable-kubernikus-maintenance'']"

definition IsBoolFlag :: "'z other_flags \<Rightarrow> string \<Rightarrow> bool" where
  "IsBoolFlag other name \<longleftrightarrow> name \<in> set bool_flags \<or> of_IsBool other name"

definition set_bool :: "(bool \<Rightarrow> 'f) \<Rightarrow> string \<Rightarrow> error + 'f" where
  "set_bool upd value = (case ParseBool value of Inl e \<Rightarrow> Inl e | Inr b \<Rightarrow> Inr (upd b))"

definition set_flag ::
    "(string \<Rightarrow> error + duration) \<Rightarrow> 'z other_flags \<Rightarrow> string \<Rightarrow> string \<Rightarrow> 'z main_flags
      \<Rightarrow> (error + 'z main_flags) option" where
  "set_flag ParseDuration other name value f =
     (let cfg = mf_reconcilerCfg f
      in if name = ''metrics-addr'' then Some (Inr (f\<lparr>mf_reconcilerCfg := cfg\<lparr>metricsAddr := value\<rparr>\<rparr>))
      else if name = ''kubecontext'' then Some (Inr (f\<lparr>mf_kubecontext := value\<rparr>))
      else if name = ''health-addr'' then Some (Inr (f\<lparr>mf_probeAddr := value\<rparr>))
      else if name = ''pprof-addr'' then Some (Inr (f\<lparr>mf_pprofAddr := value\<rparr>))
      else if name = ''enable-leader-election'' then Some (set_bool (\<lambda>b. f\<lparr>mf_enableLeaderElection := b\<rparr>) value)
      else if name = ''enable-esx-maintenance''
      then Some (set_bool (\<lambda>b. f\<lparr>mf_reconcilerCfg := cfg\<lparr>enableESXMaintenance := b\<rparr>\<rparr>) value)
      else if name = ''enable-kubernikus-maintenance''
      then Some (set_bool (\<lambda>b. f\<lparr>mf_reconcilerCfg := cfg\<lparr>enableKubernikusMaintenance := b\<rparr>\<rparr>) value)
      else if name = ''metrics-timeout''
      then Some (case ParseDuration value of Inl e \<Rightarrow> Inl e
                 | Inr d \<Rightarrow> Inr (f\<lparr>mf_reconcilerCfg := cfg\<lparr>metricsTimeout := d\<rparr>\<rparr>))
      else map_option (\<lambda>set. case set value (mf_other f) of Inl e \<Rightarrow> Inl e | Inr z \<Rightarrow> Inr (f\<lparr>mf_other := z\<rparr>))
             (of_Set other name))"

text \<open>A flag with a value after its first \<open>=\<close>, which cannot be its first character.\<close>

definition cut_value :: "string \<Rightarrow> string \<times> string option" where
  "cut_value s =
     (let name = takeWhile (\<lambda>c. c \<noteq> CHR ''='') s
      in (name, if name = s then None else Some (drop (Suc (length name)) s)))"

text \<open>The messages of errors are shortened to the flag they name.\<close>

datatype 'f parsed = ParseOk 'f | ParseHelp | ParseFailed error

fun flag_Parse ::
    "(string \<Rightarrow> error + duration) \<Rightarrow> 'z other_flags \<Rightarrow> string list \<Rightarrow> 'z main_flags \<Rightarrow> 'z main_flags parsed" where
  "flag_Parse pd other [] f = ParseOk f"
| "flag_Parse pd other (s # args) f =
     (if length s < 2 \<or> hd s \<noteq> CHR ''-'' then ParseOk f
      else if s = ''--'' then ParseOk f
      else
        let text = (if s ! 1 = CHR ''-'' then drop 2 s else drop 1 s)
        in if text = [] \<or> hd text \<in> {CHR ''-'', CHR ''=''}
           then ParseFailed (ErrorString (''bad flag syntax: '' @ s))
           else
             let (name, given) = cut_value text
             in case set_flag pd other name ''true'' f of
                  None \<Rightarrow> if name = ''help'' \<or> name = ''h'' then ParseHelp
                    else ParseFailed (ErrorString (''flag provided but not defined: -'' @ name))
                | Some _ \<Rightarrow>
                    if IsBoolFlag other name
                    then (case the (set_flag pd other name (case given of None \<Rightarrow> ''true'' | Some v \<Rightarrow> v) f) of
                        Inl e \<Rightarrow> ParseFailed (ErrorString (''invalid boolean value for -'' @ name))
                      | Inr f \<Rightarrow> flag_Parse pd other args f)
                    else (case given of
                        Some v \<Rightarrow>
                          (case the (set_flag pd other name v f) of
                             Inl e \<Rightarrow> ParseFailed (ErrorString (''invalid value for flag -'' @ name))
                           | Inr f \<Rightarrow> flag_Parse pd other args f)
                      | None \<Rightarrow>
                          (case args of
                             [] \<Rightarrow> ParseFailed (ErrorString (''flag needs an argument: -'' @ name))
                           | v # args \<Rightarrow>
                               (case the (set_flag pd other name v f) of
                                  Inl e \<Rightarrow> ParseFailed (ErrorString (''invalid value for flag -'' @ name))
                                | Inr f \<Rightarrow> flag_Parse pd other args f))))"

section \<open>What the cache keeps (common/cache.go)\<close>

text \<open>
  A pod as the API server sends it: the fields the program reads, and those that the transform
  removes to save memory (their content is opaque here), with the name of its node.
\<close>

record full_pod = pod +
  fp_ManagedFields :: "string list"
  fp_Containers :: "string list"
  fp_Volumes :: "string list"
  fp_NodeName :: string

datatype api_object = PodObject full_pod | OtherObject string

definition pod_transform :: "api_object \<Rightarrow> error + api_object" where
  "pod_transform obj =
     (case obj of
        PodObject p \<Rightarrow> Inr (PodObject (p\<lparr>fp_ManagedFields := [], fp_Containers := [], fp_Volumes := []\<rparr>))
      | OtherObject _ \<Rightarrow> Inl (ErrorString ''received no pod object to pod transform func''))"

text \<open>The default transform is \<open>TransformStripManagedFields\<close> of the library; pods have their own.\<close>

record cache_options =
  co_DefaultTransform :: "api_object \<Rightarrow> error + api_object"
  co_PodTransform :: "api_object \<Rightarrow> error + api_object"

definition DefaultKubernetesCacheOpts :: "(api_object \<Rightarrow> error + api_object) \<Rightarrow> cache_options" where
  "DefaultKubernetesCacheOpts strip = \<lparr>co_DefaultTransform = strip, co_PodTransform = pod_transform\<rparr>"

text \<open>The program sees of a cached pod what it would see of the pod itself.\<close>

lemma pod_transform_visible:
  assumes "pod_transform (PodObject p) = Inr obj"
  shows "\<exists>q. obj = PodObject q \<and> pod.truncate q = pod.truncate p \<and> fp_NodeName q = fp_NodeName p"
  using assms by (auto simp: pod_transform_def pod.defs)

lemma pod_transform_idem: "pod_transform obj = Inr obj' \<Longrightarrow> pod_transform obj' = Inr obj'"
  by (auto simp: pod_transform_def split: api_object.splits)

section \<open>Setting the manager up (main.go)\<close>

record manager_options =
  mo_MetricsBindAddress :: string
  mo_WebhookPort :: int
  mo_HealthProbeBindAddress :: string
  mo_LeaderElectionResourceLock :: string
  mo_LeaderElection :: bool
  mo_LeaderElectionID :: string
  mo_RetryPeriod :: duration
  mo_GracefulShutdownTimeout :: duration
  mo_PprofBindAddress :: string
  mo_Cache :: cache_options
  mo_CacheDisableFor :: "string list"

text \<open>What is handed to the manager. A controller is built for nodes by controller-runtime.\<close>

datatype registration =
    Healthz
  | Readyz
  | NodeController node_info_cache \<comment> \<open>controllers/node_controller.go\<close>
  | FieldIndex string
  | ApiServerRunnable server
  | KubernikusController nat \<comment> \<open>kubernikus/node_controller.go, with its number of workers\<close>
  | EsxRunnable

record manager =
  mgr_Options :: manager_options
  mgr_Registered :: "registration list"

text \<open>
  The libraries: reading the environment and the kubeconfig, the metrics registry, and the
  manager, which refuses a registration with an error or accepts it. \<open>lib_Run\<close> is \<open>Start\<close> until
  the process is told to stop.
\<close>

record 'r runtime_lib =
  os_Getenv :: "string \<Rightarrow> string"
  lib_GetConfigWithContext :: "string \<Rightarrow> error + 'r"
  lib_MustRegister :: "string list \<Rightarrow> unit option"
  lib_NewManager :: "'r \<Rightarrow> manager_options \<Rightarrow> error option"
  lib_NewForConfig :: "'r \<Rightarrow> unit option" \<comment> \<open>\<open>NewForConfigOrDie\<close>\<close>
  lib_Refuses :: "manager \<Rightarrow> registration \<Rightarrow> error option"
  lib_Elected :: "manager_options \<Rightarrow> elected_channel"
  lib_Strip :: "api_object \<Rightarrow> error + api_object"
  lib_Run :: "manager \<Rightarrow> error option"

definition mgr_with :: "manager \<Rightarrow> registration list \<Rightarrow> manager" where
  "mgr_with m rs = m\<lparr>mgr_Registered := mgr_Registered m @ rs\<rparr>"

lemma mgr_with_simps [simp]:
  "mgr_with (mgr_with m rs) rs' = mgr_with m (rs @ rs')" "mgr_Options (mgr_with m rs) = mgr_Options m"
  "mgr_Registered (mgr_with m rs) = mgr_Registered m @ rs" "mgr_with m [] = m"
  by (simp_all add: mgr_with_def)

definition mgr_add :: "'r runtime_lib \<Rightarrow> registration \<Rightarrow> manager \<Rightarrow> error option \<times> manager" where
  "mgr_add lib r m =
     (case lib_Refuses lib m r of
        Some e \<Rightarrow> (Some e, m)
      | None \<Rightarrow> (None, mgr_with m [r]))"

definition RegisterMaintenanceMetrics :: "'r runtime_lib \<Rightarrow> unit option" where
  "RegisterMaintenanceMetrics lib = lib_MustRegister lib
     [''maintenance_controller_pod_shuffle_count'', ''maintenance_controller_pod_shuffles_per_replica'',
      ''maintenance_controller_transition_failure_count'']"

definition NodeReconciler_SetupWithManager ::
    "'r runtime_lib \<Rightarrow> node_info_cache \<Rightarrow> manager \<Rightarrow> error option \<times> manager" where
  "NodeReconciler_SetupWithManager lib nodes m = mgr_add lib (NodeController nodes) m"

definition ConcurrentReconciles :: nat where "ConcurrentReconciles = 5"

definition Kubernikus_SetupWithManager :: "'r runtime_lib \<Rightarrow> manager \<Rightarrow> error option \<times> manager" where
  "Kubernikus_SetupWithManager lib m = mgr_add lib (KubernikusController ConcurrentReconciles) m"

text \<open>The index of pods by their node; \<open>c_ListPods\<close> of the client selects by it.\<close>

definition index_node_name :: "api_object \<Rightarrow> string list" where
  "index_node_name obj = (case obj of PodObject p \<Rightarrow> [fp_NodeName p] | OtherObject _ \<Rightarrow> [])"

text \<open>\<open>os.Exit(1)\<close> ends the program at once; \<^const>\<open>None\<close> is a panic.\<close>

datatype 'a flow = Exit nat manager | Goes 'a

definition setupChecks :: "'r runtime_lib \<Rightarrow> manager \<Rightarrow> manager flow" where
  "setupChecks lib m =
     (case mgr_add lib Healthz m of
        (Some e, m) \<Rightarrow> Exit 1 m
      | (None, m) \<Rightarrow>
          (case mgr_add lib Readyz m of
             (Some e, m) \<Rightarrow> Exit 1 m
           | (None, m) \<Rightarrow> Goes m))"

definition api_server_for :: "'r runtime_lib \<Rightarrow> reconcilerConfig \<Rightarrow> node_info_cache \<Rightarrow> manager \<Rightarrow> server" where
  "api_server_for lib cfg nodeInfoCache m =
     \<lparr>as_Namespace = [], as_Elected = lib_Elected lib (mgr_Options m), as_NodeInfoCache = nodeInfoCache,
      sv_Address = metricsAddr cfg, sv_WaitTimeout = metricsTimeout cfg, sv_StaticPath = [],
      sv_counter = 0, sv_shutdown = NilChan\<rparr>"

definition setupReconcilers ::
    "'r runtime_lib \<Rightarrow> 'r \<Rightarrow> reconcilerConfig \<Rightarrow> manager \<Rightarrow> (error option \<times> manager) option" where
  "setupReconcilers lib conf cfg m =
     do { let nodeInfoCache = NewNodeInfoCache;
          lib_NewForConfig lib conf;
          case NodeReconciler_SetupWithManager lib nodeInfoCache m of
            (Some e, m) \<Rightarrow> Some (Some (WrapError ''failed to setup maintenance controller node reconciler: '' e), m)
          | (None, m) \<Rightarrow>
         (case mgr_add lib (FieldIndex ''spec.nodeName'') m of
            (Some e, m) \<Rightarrow> Some (Some (WrapError ''unable to create index spec.nodeName on pod resource: '' e), m)
          | (None, m) \<Rightarrow>
         (case mgr_add lib (ApiServerRunnable (api_server_for lib cfg nodeInfoCache m)) m of
            (Some e, m) \<Rightarrow> Some (Some (WrapError ''failed to attach prometheus metrics server: '' e), m)
          | (None, m) \<Rightarrow>
         (case (if enableKubernikusMaintenance cfg then Kubernikus_SetupWithManager lib m else (None, m)) of
            (Some e, m) \<Rightarrow> Some (Some (WrapError ''failed to setup kubernikus node reconciler: '' e), m)
          | (None, m) \<Rightarrow>
         (case (if enableESXMaintenance cfg then mgr_add lib EsxRunnable m else (None, m)) of
            (Some e, m) \<Rightarrow> Some (Some (WrapError ''failed to create ESX reconciler: '' e), m)
          | (None, m) \<Rightarrow> Some (None, m))))) }"

definition getKubeconfig :: "'r runtime_lib \<Rightarrow> string \<Rightarrow> error + 'r" where
  "getKubeconfig lib kubecontext =
     (let kubecontext = (if kubecontext = [] then os_Getenv lib ''KUBECONTEXT'' else kubecontext)
      in lib_GetConfigWithContext lib kubecontext)"

definition options_for :: "'r runtime_lib \<Rightarrow> 'z main_flags \<Rightarrow> manager_options" where
  "options_for lib f =
     \<lparr>mo_MetricsBindAddress = ''0'', mo_WebhookPort = 9443, mo_HealthProbeBindAddress = mf_probeAddr f,
      mo_LeaderElectionResourceLock = ''leases'', mo_LeaderElection = mf_enableLeaderElection f,
      mo_LeaderElectionID = LeaderElectionID, mo_RetryPeriod = 5 * Second, mo_GracefulShutdownTimeout = 70 * Second,
      mo_PprofBindAddress = mf_pprofAddr f, mo_Cache = DefaultKubernetesCacheOpts (lib_Strip lib),
      mo_CacheDisableFor = [''Secret'']\<rparr>"

text \<open>The end of the program: its exit code, and the manager if it was started.\<close>

record ending =
  end_Code :: nat
  end_Started :: "manager option"

definition run_main :: "'r runtime_lib \<Rightarrow> 'z main_flags \<Rightarrow> ending option" where
  "run_main lib f =
     (case getKubeconfig lib (mf_kubecontext f) of
        Inl e \<Rightarrow> Some \<lparr>end_Code = 1, end_Started = None\<rparr>
      | Inr restConfig \<Rightarrow>
     (case lib_NewManager lib restConfig (options_for lib f) of
        Some e \<Rightarrow> Some \<lparr>end_Code = 1, end_Started = None\<rparr>
      | None \<Rightarrow>
          let mgr = \<lparr>mgr_Options = options_for lib f, mgr_Registered = []\<rparr> in do {
            RegisterMaintenanceMetrics lib;
            case setupChecks lib mgr of
              Exit code _ \<Rightarrow> Some \<lparr>end_Code = code, end_Started = None\<rparr>
            | Goes mgr \<Rightarrow> do {
                (err, mgr) \<leftarrow> setupReconcilers lib restConfig (mf_reconcilerCfg f) mgr;
                if err \<noteq> None then Some \<lparr>end_Code = 1, end_Started = None\<rparr>
                else (case lib_Run lib mgr of
                   Some e \<Rightarrow> Some \<lparr>end_Code = 1, end_Started = Some mgr\<rparr>
                 | None \<Rightarrow> Some \<lparr>end_Code = 0, end_Started = Some mgr\<rparr>) } }))"

definition main_program ::
    "(string \<Rightarrow> error + duration) \<Rightarrow> 'z other_flags \<Rightarrow> 'z \<Rightarrow> 'r runtime_lib \<Rightarrow> string list \<Rightarrow> ending option" where
  "main_program ParseDuration other z lib args =
     (case flag_Parse ParseDuration other args (flag_defaults z) of
        ParseHelp \<Rightarrow> Some \<lparr>end_Code = 0, end_Started = None\<rparr>
      | ParseFailed e \<Rightarrow> Some \<lparr>end_Code = 2, end_Started = None\<rparr>
      | ParseOk f \<Rightarrow> run_main lib f)"

section \<open>What a started manager runs\<close>

text \<open>The registrations the configuration asks for, in their order.\<close>

definition wanted :: "'r runtime_lib \<Rightarrow> reconcilerConfig \<Rightarrow> manager \<Rightarrow> registration list" where
  "wanted lib cfg m =
     [NodeController gm_make, FieldIndex ''spec.nodeName'', ApiServerRunnable (api_server_for lib cfg gm_make m)]
     @ (if enableKubernikusMaintenance cfg then [KubernikusController 5] else [])
     @ (if enableESXMaintenance cfg then [EsxRunnable] else [])"

lemma mgr_add_then:
  "(case mgr_add lib r m of (Some e, m) \<Rightarrow> Some (Some (wrap e), m) | (None, m) \<Rightarrow> k m) = Some (None, m') \<longleftrightarrow>
   lib_Refuses lib m r = None \<and> k (mgr_with m [r]) = Some (None, m')"
  by (simp add: mgr_add_def split: option.splits)

lemma setupChecks_goes: "setupChecks lib m = Goes m' \<Longrightarrow> m' = mgr_with m [Healthz, Readyz]"
  by (auto simp: setupChecks_def mgr_add_def split: option.splits)

lemma setupChecks_exit: "setupChecks lib m = Exit code m' \<Longrightarrow> code = 1"
  by (auto simp: setupChecks_def split: prod.splits option.splits)

text \<open>A setup that reports no error has registered exactly what was wanted.\<close>

lemma setupReconcilers_ok:
  assumes "setupReconcilers lib conf cfg m = Some (None, m')"
  shows "m' = mgr_with m (wanted lib cfg m)"
  using assms
  by (cases "enableKubernikusMaintenance cfg"; cases "enableESXMaintenance cfg")
    (auto simp: setupReconcilers_def NodeReconciler_SetupWithManager_def Kubernikus_SetupWithManager_def mgr_add_then
      NewNodeInfoCache_def ConcurrentReconciles_def wanted_def api_server_for_def bind_eq_Some_conv Let_def)

lemma run_main_started:
  assumes "run_main lib f = Some r" and "end_Started r = Some m"
  shows "mgr_Options m = options_for lib f \<and>
    mgr_Registered m = [Healthz, Readyz] @ wanted lib (mf_reconcilerCfg f) m \<and> (end_Code r = 0 \<longleftrightarrow> lib_Run lib m = None)"
proof -
  let ?mgr = "\<lparr>mgr_Options = options_for lib f, mgr_Registered = []\<rparr>"
  from assms obtain conf mgr where c: "setupChecks lib ?mgr = Goes mgr"
    and s: "setupReconcilers lib conf (mf_reconcilerCfg f) mgr = Some (None, m)"
    and r: "end_Code r = 0 \<longleftrightarrow> lib_Run lib m = None"
    by (auto simp: run_main_def Let_def bind_eq_Some_conv split: sum.splits option.splits flow.splits if_splits)
  from setupReconcilers_ok [OF s] setupChecks_goes [OF c] r show ?thesis
    by (simp add: wanted_def api_server_for_def)
qed

lemma run_main_code:
  assumes "run_main lib f = Some r"
  shows "end_Code r = 0 \<or> end_Code r = 1" and "end_Code r = 0 \<Longrightarrow> end_Started r \<noteq> None"
  using assms
  by (auto simp: run_main_def Let_def bind_eq_Some_conv
      split: sum.splits option.splits flow.splits if_splits dest: setupChecks_exit)

section \<open>Flags are read as they are written\<close>

lemma cut_value_eq: "CHR ''='' \<notin> set name \<Longrightarrow> cut_value (name @ CHR ''='' # v) = (name, Some v)"
proof -
  assume "CHR ''='' \<notin> set name"
  then have "takeWhile (\<lambda>c. c \<noteq> CHR ''='') (name @ CHR ''='' # v) = name"
    by (simp add: takeWhile_append)
  then show ?thesis by (simp add: cut_value_def)
qed

lemma set_flag_defined: "set_flag pd other name v f = Some r \<Longrightarrow> set_flag pd other name v' f \<noteq> None"
  by (auto simp: set_flag_def Let_def split: if_splits)

lemma flag_Parse_given:
  assumes "set_flag pd other name v f = Some (Inr f')"
    and "CHR ''='' \<notin> set name" and "name \<noteq> []" and "hd name \<noteq> CHR ''-''"
  shows "flag_Parse pd other ((''--'' @ name @ ''='' @ v) # args) f = flag_Parse pd other args f'"
proof -
  obtain c cs where name: "name = c # cs" using assms(3) by (cases name) auto
  with assms have c: "c \<noteq> CHR ''-''" "c \<noteq> CHR ''=''" by auto
  obtain r where r: "set_flag pd other name ''true'' f = Some r"
    using set_flag_defined [OF assms(1)] by blast
  have cut: "cut_value (c # cs @ CHR ''='' # v) = (name, Some v)"
    using cut_value_eq [OF assms(2)] by (simp add: name)
  show ?thesis
    using r assms(1) c by (simp add: name cut [unfolded name])
qed

text \<open>The arguments that spell out all flags of the program; \<open>dur\<close> prints a duration.\<close>

definition print_bool :: "bool \<Rightarrow> string" where
  "print_bool b = (if b then ''true'' else ''false'')"

definition print_flags :: "(duration \<Rightarrow> string) \<Rightarrow> 'z main_flags \<Rightarrow> string list" where
  "print_flags dur f =
     [''--'' @ ''metrics-addr'' @ ''='' @ metricsAddr (mf_reconcilerCfg f),
      ''--'' @ ''kubecontext'' @ ''='' @ mf_kubecontext f,
      ''--'' @ ''health-addr'' @ ''='' @ mf_probeAddr f,
      ''--'' @ ''pprof-addr'' @ ''='' @ mf_pprofAddr f,
      ''--'' @ ''enable-leader-election'' @ ''='' @ print_bool (mf_enableLeaderElection f),
      ''--'' @ ''enable-esx-maintenance'' @ ''='' @ print_bool (enableESXMaintenance (mf_reconcilerCfg f)),
      ''--'' @ ''enable-kubernikus-maintenance'' @ ''='' @ print_bool (enableKubernikusMaintenance (mf_reconcilerCfg f)),
      ''--'' @ ''metrics-timeout'' @ ''='' @ dur (metricsTimeout (mf_reconcilerCfg f))]"

lemma set_bool_print: "set_bool upd (print_bool b) = Inr (upd b)"
  by (simp add: set_bool_def print_bool_def ParseBool_def)

lemma flag_Parse_print:
  assumes "pd (dur (metricsTimeout (mf_reconcilerCfg f))) = Inr (metricsTimeout (mf_reconcilerCfg f))"
  shows "flag_Parse pd other (print_flags dur f) (g\<lparr>mf_other := mf_other f\<rparr>) = ParseOk f"
proof -
  note given = flag_Parse_given [where pd = pd and other = other]
  show ?thesis
    using assms unfolding print_flags_def
    by (subst given, simp add: set_flag_def Let_def set_bool_print, simp, simp, simp)+ (cases f; simp)
qed

section \<open>Configuration files and the loop of the ESX runnable\<close>

definition EsxConfigFilePath :: string where "EsxConfigFilePath = ''config/esx.yaml''"
definition KubernikusConfigFilePath :: string where "KubernikusConfigFilePath = ''./config/kubernikus.yaml''"

text \<open>The intervals that only \<open>Start\<close> reads; the jitter is the bits of a float64.\<close>

record 'k esx_file = "'k esx_config" +
  ec_CheckPeriod :: duration
  ec_CheckJitter :: int

text \<open>\<open>from_yaml\<close> is \<open>ucfgwrap.FromYAMLFile\<close>, which reads the file; \<open>unpack\<close> decodes and validates.\<close>

definition esx_loadConfig ::
    "(string \<Rightarrow> ('s, 'y) request) \<Rightarrow> ('y \<Rightarrow> error + 'k esx_file) \<Rightarrow> 's world \<Rightarrow> (error + 'k esx_file) \<times> 's world" where
  "esx_loadConfig from_yaml unpack w =
     (case api (from_yaml EsxConfigFilePath) w of
        (Inl e, w) \<Rightarrow> (Inl e, w)
      | (Inr yamlConf, w) \<Rightarrow> (unpack yamlConf, w))"

definition kubernikus_loadConfig ::
    "(string \<Rightarrow> ('s, 'y) request) \<Rightarrow> ('y \<Rightarrow> error + kubernikus_config) \<Rightarrow> 's world
      \<Rightarrow> (error + kubernikus_config) \<times> 's world" where
  "kubernikus_loadConfig from_yaml unpack w =
     (case api (from_yaml KubernikusConfigFilePath) w of
        (Inl e, w) \<Rightarrow> (Inl e, w)
      | (Inr yamlConf, w) \<Rightarrow> (unpack yamlConf, w))"

text \<open>One round loads the configuration anew.\<close>

definition esx_round ::
    "'w semver \<Rightarrow> ('s, 'k, 'v) govmomi \<Rightarrow> 's client \<Rightarrow> bool \<Rightarrow> (string \<Rightarrow> ('s, 'y) request)
      \<Rightarrow> ('y \<Rightarrow> error + 'k esx_file) \<Rightarrow> 's world \<Rightarrow> 's world option" where
  "esx_round sv gv cl recorder from_yaml unpack w =
     (let (loaded, w) = esx_loadConfig from_yaml unpack w
      in Runnable_Reconcile sv gv cl recorder (map_sum id esx_config.truncate loaded) w)"

text \<open>
  \<open>wait.JitterUntilWithContext\<close> runs its function until the context is done; the number of rounds
  until then is given.
\<close>

fun JitterUntil :: "nat \<Rightarrow> ('w \<Rightarrow> 'w option) \<Rightarrow> 'w \<Rightarrow> 'w option" where
  "JitterUntil 0 f w = Some w"
| "JitterUntil (Suc n) f w = do { w \<leftarrow> f w; JitterUntil n f w }"

definition esx_NeedLeaderElection :: bool where
  "esx_NeedLeaderElection = True"

definition Runnable_Start ::
    "'w semver \<Rightarrow> ('s, 'k, 'v) govmomi \<Rightarrow> 's client \<Rightarrow> bool \<Rightarrow> (string \<Rightarrow> ('s, 'y) request)
      \<Rightarrow> ('y \<Rightarrow> error + 'k esx_file) \<Rightarrow> (duration \<Rightarrow> int \<Rightarrow> nat) \<Rightarrow> 's world \<Rightarrow> (error option \<times> 's world) option" where
  "Runnable_Start sv gv cl recorder from_yaml unpack rounds w =
     (case esx_loadConfig from_yaml unpack w of
        (Inl e, w) \<Rightarrow> Some (Some e, w)
      | (Inr conf, w) \<Rightarrow> do {
          w \<leftarrow> JitterUntil (rounds (ec_CheckPeriod conf) (ec_CheckJitter conf)) (esx_round sv gv cl recorder from_yaml unpack) w;
          Some (None, w) })"

text \<open>What every round keeps, the runnable keeps.\<close>

lemma JitterUntil_keeps:
  "JitterUntil n f w = Some w' \<Longrightarrow> P w \<Longrightarrow> (\<And>w w'. P w \<Longrightarrow> f w = Some w' \<Longrightarrow> P w') \<Longrightarrow> P w'"
  by (induction n arbitrary: w) (auto simp: bind_eq_Some_conv)

end
