(* ===== verification/ServiceProperties.thy ===== *)
theory ServiceProperties
  imports Scenario Waiting MainProgram
begin

text \<open>
  The properties of what runs beside the reconciliations, each with an application to concrete
  objects: the goroutines that wait for pods, the server and its shutdown, the command line and
  the start of the program.
\<close>

section \<open>Waiting for pods\<close>

lemma WaitForPodDeletions_inv:
  assumes "group_run joined (poll_pod cl) (length pods) cs (WaitForPodDeletions pods s) = Some st" and "pods \<noteq> []"
  shows "group_inv joined pods st"
  using group_run_inv [OF assms(1)] assms(2) by (simp add: WaitForPodDeletions_def group_inv_start)

lemma WaitForPodDeletions_start:
  assumes "pods \<noteq> []"
  shows "group_inv joined pods (WaitForPodDeletions pods s)" "gr_routines (WaitForPodDeletions pods s) = []"
    "pod_waiter.remaining (WaitForPodDeletions pods s) = sum_list (map (\<lambda>g. snd g + 3) pods) + 2"
  using assms by (simp_all add: WaitForPodDeletions_def group_inv_start pod_waiter.remaining_start)
    (simp add: waitParallel_def)

lemma WaitForPodDeletions_empty:
  assumes "group_run joined run 0 cs (WaitForPodDeletions [] s) = Some st"
  shows "cs = [] \<and> gr_main st = Returned None"
proof -
  have "group_step joined run 0 c (WaitForPodDeletions [] s) = None" for c
    by (cases c) (simp_all add: WaitForPodDeletions_def waitParallel_def group_step_def)
  with assms show ?thesis by (cases cs) (auto simp: WaitForPodDeletions_def)
qed

text \<open>
  C15: Waiting for pods returns under every schedule of its goroutines, whatever the API server
  answers: there is a bound on the number of steps, no step is a send on the closed channel, and
  as long as the function has not returned some goroutine can take a step.
\<close>

theorem WaitForPodDeletions_terminates:
  assumes "group_run joined (poll_pod cl) (length pods) cs (WaitForPodDeletions pods s) = Some st"
  shows "length cs \<le> sum_list (map (\<lambda>g. snd g + 3) pods) + 2 \<and> gr_main st \<noteq> Panicked
    \<and> ((\<exists>r. gr_main st = Returned r) \<or> (\<exists>c st'. group_step joined (poll_pod cl) (length pods) c st = Some st'))"
proof (cases "pods = []")
  case True
  with WaitForPodDeletions_empty [of joined "poll_pod cl" cs s st] assms show ?thesis by auto
next
  case False
  note inv = WaitForPodDeletions_inv [OF assms False]
  have "length cs + pod_waiter.remaining st \<le> sum_list (map (\<lambda>g. snd g + 3) pods) + 2"
    using pod_waiter.run_bounded [OF assms WaitForPodDeletions_start(1) [OF False] False]
    unfolding WaitForPodDeletions_start(3) [OF False] .
  then have "length cs \<le> sum_list (map (\<lambda>g. snd g + 3) pods) + 2" by (rule add_leD1)
  moreover have "gr_main st \<noteq> Panicked" using inv by (auto simp: group_inv_def)
  moreover have "(\<exists>r. gr_main st = Returned r) \<or> (\<exists>c st'. group_step joined (poll_pod cl) (length pods) c st = Some st')"
    using group_not_stuck [OF inv, of "poll_pod cl"] by blast
  ultimately show ?thesis by (intro conjI)
qed

text \<open>A goroutine that has sent nil saw its pod gone.\<close>

lemma WaitForPodDeletions_gone:
  assumes run: "group_run joined (poll_pod cl) (length pods) cs (WaitForPodDeletions pods s) = Some st"
    and i: "i < length (gr_routines st)" and sent: "gr_routines st ! i = Sent None"
  shows "\<exists>cs1 cs2 st1. cs = cs1 @ cs2
    \<and> group_run joined (poll_pod cl) (length pods) cs1 (WaitForPodDeletions pods s) = Some st1
    \<and> fst (pod_gone cl (fst (pods ! i)) (gr_api st1)) = Inr True"
proof (cases "pods = []")
  case True
  with run WaitForPodDeletions_empty [of joined "poll_pod cl" cs s st] i show ?thesis
    by (auto simp: WaitForPodDeletions_def waitParallel_def)
next
  case False
  note start = WaitForPodDeletions_start [OF False]
  have "returned_at joined (poll_pod cl) (length pods) (WaitForPodDeletions pods s) cs i None"
    by (rule group_run_returned [OF run start(2) i]) (simp add: sent)
  then obtain cs1 cs2 st1 g where cs: "cs = cs1 @ cs2"
    and run1: "group_run joined (poll_pod cl) (length pods) cs1 (WaitForPodDeletions pods s) = Some st1"
    and g: "i < length (gr_routines st1)" "gr_routines st1 ! i = Running g" "fst (poll_pod cl g (gr_api st1)) = Inr None"
    unfolding returned_at_def by blast
  have "\<forall>i < length (gr_routines st1). \<forall>g. gr_routines st1 ! i = Running g \<longrightarrow> fst g = fst (pods ! i)"
    by (rule group_run_origin [OF _ _ False run1 start(1)]) (simp_all add: poll_pod_keeps start(2))
  with g have "fst (pod_gone cl (fst (pods ! i)) (gr_api st1)) = Inr True" by (simp add: poll_pod_nil)
  with cs run1 show ?thesis by blast
qed

definition count_down :: "nat client" where
  "count_down = \<lparr>c_ListNodes = (\<lambda>_. offline), c_ListPods = (\<lambda>_. offline), c_GetNode = (\<lambda>_. offline),
     c_PatchNode = (\<lambda>_ _. offline), c_GetLease = (\<lambda>_. offline), c_CreateLease = (\<lambda>_. offline),
     c_PatchLease = (\<lambda>_ _. offline),
     c_GetPod = (\<lambda>(ns, name) s. case s of 0 \<Rightarrow> (Inl (NotFoundError name), 0) | Suc s \<Rightarrow> (Inr (demo_pod name []), s)),
     c_DeletePod = (\<lambda>_ _. offline), c_GetDaemonSet = (\<lambda>_. offline), c_GetReplicaSet = (\<lambda>_. offline),
     c_GetDeployment = (\<lambda>_. offline), c_GetStatefulSet = (\<lambda>_. offline), cs_ServerVersion = offline,
     cs_EvictV1 = (\<lambda>_ _. offline), cs_EvictV1beta1 = (\<lambda>_ _. offline)\<rparr>"

definition two_pods :: "(pod \<times> nat) list" where
  "two_pods = [(demo_pod ''p'' [], 5), (demo_pod ''q'' [], 5)]"

text \<open>A schedule in which the second pod is gone first.\<close>

definition demo_schedule :: "choice list" where
  "demo_schedule = [Main, Routine 0, Main, Routine 1, Routine 1, Main, Routine 1, Routine 0, Routine 0, Main]"

definition demo_group :: "((pod \<times> nat), nat) group option" where
  "demo_group = group_run JoinError (poll_pod count_down) (length two_pods) demo_schedule (WaitForPodDeletions two_pods 2)"

lemma demo_group_returns: "map_option gr_main demo_group = Some (Returned None)"
  by code_simp

theorem WaitForPodDeletions_terminates_witness:
  "\<exists>st. demo_group = Some st \<and> length demo_schedule \<le> 18 \<and> gr_main st \<noteq> Panicked"
proof -
  obtain st where st: "demo_group = Some st" using demo_group_returns by blast
  from WaitForPodDeletions_terminates [OF st [unfolded demo_group_def]]
  have "length demo_schedule \<le> 18 \<and> gr_main st \<noteq> Panicked" by (simp add: two_pods_def)
  with st show ?thesis by blast
qed

text \<open>
  C16: Waiting for pods returns nil only if, for every pod, some request during the wait found
  the pod gone (which the code takes any failed request for); it returns an error only if the
  waiter of some pod returned one. Both hold for every interleaving of the requests.
\<close>

theorem WaitForPodDeletions_result:
  assumes "group_run joined (poll_pod cl) (length pods) cs (WaitForPodDeletions pods s) = Some st"
    and "gr_main st = Returned r"
  shows "(r = None \<longrightarrow> (\<forall>i < length pods. \<exists>cs1 cs2 st1. cs = cs1 @ cs2
      \<and> group_run joined (poll_pod cl) (length pods) cs1 (WaitForPodDeletions pods s) = Some st1
      \<and> fst (pod_gone cl (fst (pods ! i)) (gr_api st1)) = Inr True))
    \<and> (r \<noteq> None \<longrightarrow> (\<exists>i < length pods. \<exists>e.
      returned_at joined (poll_pod cl) (length pods) (WaitForPodDeletions pods s) cs i (Some e)))"
proof (cases "pods = []")
  case True
  with WaitForPodDeletions_empty [of joined "poll_pod cl" cs s st] assms show ?thesis by auto
next
  case False
  note inv = WaitForPodDeletions_inv [OF assms(1) False]
  have len: "length (gr_routines st) = length pods" using inv assms(2) by (simp add: group_inv_def)
  show ?thesis
  proof (intro conjI impI)
    assume "r = None"
    then have "\<forall>i < length pods. gr_routines st ! i = Sent None"
      using group_returned_nil_iff [OF inv assms(2)] by simp
    then show "\<forall>i < length pods. \<exists>cs1 cs2 st1. cs = cs1 @ cs2
        \<and> group_run joined (poll_pod cl) (length pods) cs1 (WaitForPodDeletions pods s) = Some st1
        \<and> fst (pod_gone cl (fst (pods ! i)) (gr_api st1)) = Inr True"
      using WaitForPodDeletions_gone [OF assms(1)] unfolding len by blast
  next
    assume "r \<noteq> None"
    then obtain i where i: "i < length pods" "gr_routines st ! i \<noteq> Sent None"
      using group_returned_nil_iff [OF inv assms(2)] by blast
    with group_returned_all_sent [OF inv assms(2) i(1)] obtain e where e: "gr_routines st ! i = Sent (Some e)"
      by (metis option.exhaust)
    have "returned_at joined (poll_pod cl) (length pods) (WaitForPodDeletions pods s) cs i (Some e)"
      by (rule group_run_returned [OF assms(1) WaitForPodDeletions_start(2) [OF False]]) (simp_all add: len i e)
    with i(1) show "\<exists>i < length pods. \<exists>e.
        returned_at joined (poll_pod cl) (length pods) (WaitForPodDeletions pods s) cs i (Some e)" by blast
  qed
qed

theorem WaitForPodDeletions_result_witness:
  "\<exists>cs1 cs2 st1. demo_schedule = cs1 @ cs2
     \<and> group_run JoinError (poll_pod count_down) 2 cs1 (WaitForPodDeletions two_pods 2) = Some st1
     \<and> fst (pod_gone count_down (demo_pod ''p'' []) (gr_api st1)) = Inr True"
proof -
  obtain st where st: "demo_group = Some st" and ret: "gr_main st = Returned None" using demo_group_returns by auto
  have "0 < length two_pods" by (simp add: two_pods_def)
  with WaitForPodDeletions_result [OF st [unfolded demo_group_def] ret, THEN conjunct1] have
    "\<exists>cs1 cs2 st1. demo_schedule = cs1 @ cs2
      \<and> group_run JoinError (poll_pod count_down) (length two_pods) cs1 (WaitForPodDeletions two_pods 2) = Some st1
      \<and> fst (pod_gone count_down (fst (two_pods ! 0)) (gr_api st1)) = Inr True"
    by blast
  moreover have "length two_pods = 2" "fst (two_pods ! 0) = demo_pod ''p'' []" by (simp_all add: two_pods_def)
  ultimately show ?thesis by simp
qed

section \<open>The server\<close>

text \<open>
  C17: A graceful shutdown: \<open>Start\<close> returns only after its context is done, and only once the
  metrics were scraped after that or the timeout of the wait was over, which it exceeds by at
  most the check that was due; the channel of \<open>Done\<close> is closed exactly when it returned without
  an error. While it waits, the next check or the timeout is possible. This holds for every
  order of requests, checks and the end of the context.
\<close>

theorem Server_graceful_shutdown:
  assumes "listen (sv_Address srv) = None" and "sv_counter srv = 0" and "int (length evs) \<le> maxDuration"
    and "server_run web cl evs (Server_Start listen srv w) = Some st"
  shows "(Server_Done (ss_server st) = ClosedChan \<longleftrightarrow> ss_phase st = StartReturned None)
    \<and> (\<forall>err. ss_phase st = StartReturned err \<longrightarrow> (\<exists>evs1 evs2. evs = evs1 @ CtxDone # evs2
         \<and> (Request ''/metrics'' \<in> set evs2 \<or> Timeout \<in> set evs2)
         \<and> (count_list evs2 Evaluate \<le> 1 \<or> int (count_list evs2 Evaluate - 1) * Second \<le> sv_WaitTimeout srv)))
    \<and> (\<forall>before k. ss_phase st = Awaiting before k \<longrightarrow>
         server_step web cl Evaluate st \<noteq> None \<or> server_step web cl Timeout st \<noteq> None)"
proof -
  have "scrapes evs \<le> length evs" by (simp add: scrapes_def)
  then have "server_inv srv ([] @ evs) st"
    using server_run_inv [OF assms(4) server_inv_start [where listen = listen]] assms(1-3) by simp
  then have inv: "server_inv srv evs st" by simp
  have "\<exists>evs1 evs2. evs = evs1 @ CtxDone # evs2 \<and> (Request ''/metrics'' \<in> set evs2 \<or> Timeout \<in> set evs2)
         \<and> (count_list evs2 Evaluate \<le> 1 \<or> int (count_list evs2 Evaluate - 1) * Second \<le> sv_WaitTimeout srv)"
    if "ss_phase st = StartReturned err" for err
  proof -
    from inv that obtain evs1 evs2 where e: "evs = evs1 @ CtxDone # evs2" "waited (sv_WaitTimeout srv) evs1 evs2"
      and late: "scrapes evs2 > 0 \<or> Timeout \<in> set evs2"
      by (auto simp: server_inv_def)
    have "scrapes evs2 > 0 \<Longrightarrow> Request ''/metrics'' \<in> set evs2"
      by (auto simp: scrapes_def filter_empty_conv)
    with late e show ?thesis unfolding waited_def by blast
  qed
  moreover have "Server_Done (ss_server st) = ClosedChan \<longleftrightarrow> ss_phase st = StartReturned None"
    using inv by (simp add: server_inv_def Server_Done_def)
  ultimately show ?thesis using awaiting_not_stuck by (intro conjI allI impI)
qed

definition no_web :: "(unit, unit) web" where
  "no_web = \<lparr>web_ReadFile = (\<lambda>_. offline), web_NewGet = (\<lambda>_. Inl (ErrorString ''offline'')),
     web_Do = (\<lambda>_. offline), web_Marshal = (\<lambda>_. Inr ''[]'')\<rparr>"

definition demo_server :: "server" where
  "demo_server = \<lparr>as_Namespace = [], as_Elected = ChanEmpty, as_NodeInfoCache = gm_make, sv_Address = '':8080'',
     sv_WaitTimeout = 65 * Second, sv_StaticPath = [], sv_counter = 0, sv_shutdown = NilChan\<rparr>"

definition demo_events :: "event list" where
  "demo_events = [Request ''/metrics'', CtxDone, Evaluate, Evaluate, Request ''/metrics'', Evaluate, ShutdownDone None]"

theorem Server_graceful_shutdown_witness:
  "\<exists>st. server_run no_web demo_client demo_events (Server_Start (\<lambda>_. None) demo_server (demo_world ''a'')) = Some st
     \<and> Server_Done (ss_server st) = ClosedChan
     \<and> (\<exists>evs1 evs2. demo_events = evs1 @ CtxDone # evs2 \<and> (Request ''/metrics'' \<in> set evs2 \<or> Timeout \<in> set evs2))"
proof -
  let ?run = "server_run no_web demo_client demo_events (Server_Start (\<lambda>_. None) demo_server (demo_world ''a''))"
  have "map_option ss_phase ?run = Some (StartReturned None)" by code_simp
  then obtain st where st: "?run = Some st" and ret: "ss_phase st = StartReturned None" by auto
  have "(\<lambda>_. None) (sv_Address demo_server) = (None :: error option)" "sv_counter demo_server = 0"
    "int (length demo_events) \<le> maxDuration"
    by (simp_all add: demo_server_def demo_events_def)
  from Server_graceful_shutdown [OF this st] st ret show ?thesis by blast
qed

section \<open>The main program\<close>


definition no_durations :: "string \<Rightarrow> error + duration" where
  "no_durations s = (if s = ''1m5s'' then Inr (65 * Second) else Inl (ErrorString ''invalid duration''))"

definition no_other_flags :: "unit other_flags" where
  "no_other_flags = \<lparr>of_IsBool = (\<lambda>_. False), of_Set = (\<lambda>_. None)\<rparr>"




text \<open>
  C19: Reading the command line that spells out all flags of the program gives these flags, for a
  syntax of durations that reads what it prints; neither empty values nor values with an equals
  sign or a dash are misread.
\<close>

theorem flags_roundtrip:
  assumes "ParseDuration (dur (metricsTimeout (mf_reconcilerCfg f))) = Inr (metricsTimeout (mf_reconcilerCfg f))"
  shows "flag_Parse ParseDuration other (print_flags dur f) (flag_defaults (mf_other f)) = ParseOk f"
proof -
  have "flag_defaults (mf_other f) = (flag_defaults (mf_other f))\<lparr>mf_other := mf_other f\<rparr>" by (simp add: flag_defaults_def)
  with flag_Parse_print [where pd = ParseDuration and dur = dur and f = f, OF assms] show ?thesis by metis
qed

theorem flags_roundtrip_witness:
  "flag_Parse no_durations no_other_flags (print_flags (\<lambda>_. ''1m5s'') ((flag_defaults ())\<lparr>mf_kubecontext := ''--x=y''\<rparr>))
     (flag_defaults ()) = ParseOk ((flag_defaults ())\<lparr>mf_kubecontext := ''--x=y''\<rparr>)"
  using flags_roundtrip [of no_durations "\<lambda>_. ''1m5s''" "(flag_defaults ())\<lparr>mf_kubecontext := ''--x=y''\<rparr>" no_other_flags]
  by (simp add: flag_defaults_def no_durations_def)

end
