(* ===== verification/Fleet.thy ===== *)
theory Fleet
  imports Safety ClusterPlugins Drain
begin

text \<open>
  The controller on a whole cluster: reconciliations of the nodes one after the other, as the
  single worker of the controller runs them, and changes by others in between. The first part
  shows that a predicate on worlds that the plugins, the metrics and the handlers keep holds
  wherever a check runs, so that what a check passed on is true of the cluster; the second part
  uses it for the limit that the check \<open>maxMaintenance\<close> puts on the nodes in maintenance.
\<close>

section \<open>Predicates on worlds that a reconciliation keeps\<close>

definition keeps :: "'s client \<Rightarrow> ('s world \<Rightarrow> bool) \<Rightarrow> ('s, 'a) plugin_method \<Rightarrow> bool" where
  "keeps cl P m \<longleftrightarrow> (\<forall>p w r w'. P_Client p = cl \<longrightarrow> P w \<longrightarrow> m p w = Some (r, w') \<longrightarrow> P w')"

definition chains_keep :: "'s client \<Rightarrow> ('s world \<Rightarrow> bool) \<Rightarrow> 's plugin_chains \<Rightarrow> bool" where
  "chains_keep cl P c \<longleftrightarrow> (\<forall>i \<in> set (pc_Enter c). keeps cl P (Trigger (ti_Plugin i)))
     \<and> (\<forall>n \<in> set (pc_Notification c). keeps cl P (Notify (ni_Plugin n)))
     \<and> (\<forall>t \<in> set (pc_Transitions c). (\<forall>i \<in> set (tr_Trigger t). keeps cl P (Trigger (ti_Plugin i)))
          \<and> (\<forall>i \<in> set (cc_Plugins (tr_Check t)). keeps cl P (Check (ci_Plugin i)) \<and> keeps cl P (OnTransition (ci_Plugin i))))"

text \<open>The checks of the transitions into maintenance pass only if \<open>G\<close>.\<close>

definition chains_guard :: "'s client \<Rightarrow> ('s world \<Rightarrow> bool) \<Rightarrow> bool \<Rightarrow> 's plugin_chains \<Rightarrow> bool" where
  "chains_guard cl P G c \<longleftrightarrow> (\<forall>t \<in> set (pc_Transitions c). tr_Next t = InMaintenance \<longrightarrow>
     (\<forall>p w r err w'. P_Client p = cl \<longrightarrow> P w \<longrightarrow> CheckChain_Execute (tr_Check t) p w = Some ((r, err), w') \<longrightarrow>
        ccr_Passed r \<longrightarrow> G))"

definition all_chains :: "('s plugin_chains \<Rightarrow> bool) \<Rightarrow> ('s, 'c) config \<Rightarrow> bool" where
  "all_chains Q cfg \<longleftrightarrow> gm_all (\<lambda>k pf. \<forall>c \<in> snd ` set (pf_Chains pf). Q c) (Profiles cfg)"

lemma chains_keep_empty: "chains_keep cl P empty_chains"
  by (simp add: chains_keep_def empty_chains_def)

lemma chains_guard_empty: "chains_guard cl P G empty_chains"
  by (simp add: chains_guard_def empty_chains_def)

lemma keepsD: "keeps cl P m \<Longrightarrow> P_Client p = cl \<Longrightarrow> P w \<Longrightarrow> pred_option (\<lambda>(r, w'). P w') (m p w)"
  by (auto simp: keeps_def pred_option_def)

lemma pred_option_bind:
  assumes "pred_option Q m" and "\<And>x. m = Some x \<Longrightarrow> Q x \<Longrightarrow> pred_option R (f x)"
  shows "pred_option R (m \<bind> f)"
  using assms by (cases m) auto

lemma all_chains_of:
  assumes "all_chains Q cfg" and "gm_get (Profiles cfg) (pf_Name (ps_Profile ps)) = Some (ps_Profile ps)" and "Q empty_chains"
  shows "Q (chains_of ps)"
proof (cases "map_of (pf_Chains (ps_Profile ps)) (ps_State ps)")
  case (Some c)
  then have "c \<in> snd ` set (pf_Chains (ps_Profile ps))" by (force dest: map_of_SomeD)
  with Some assms show ?thesis by (auto simp: chains_of_def all_chains_def gm_all_def)
qed (use assms in \<open>simp add: chains_of_def\<close>)

locale world_invariant =
  fixes cl :: "'s client" and P :: "'s world \<Rightarrow> bool"
  assumes P_now: "P w \<Longrightarrow> P (snd (time_Now w))"
    and P_event: "P w \<Longrightarrow> P (emit_event obj reason note w)"
    and P_failure: "P w \<Longrightarrow> P (RecordTransitionFailure prof w)"
    and P_touch: "P w \<Longrightarrow> P (snd (TouchShuffles cl n prof w))"
    and P_record: "P w \<Longrightarrow> P (snd (RecordShuffles (Some cl) n prof w))"
    and P_ensure: "P w \<Longrightarrow> P (w\<lparr>w_node := (w_node w)\<lparr>n_Labels := gm_ensure (n_Labels (w_node w))\<rparr>\<rparr>)"
    and P_label: "P w \<Longrightarrow> set_state_label l w = Some w' \<Longrightarrow> P w'"
begin

lemma TriggerChain_P:
  "\<forall>i \<in> set ts. keeps cl P (Trigger (ti_Plugin i)) \<Longrightarrow> P_Client p = cl \<Longrightarrow> P w \<Longrightarrow>
   pred_option (\<lambda>(err, w'). P w') (TriggerChain_Execute ts p w)"
proof (induction ts arbitrary: w)
  case (Cons t ts)
  have "pred_option (\<lambda>(err, w'). P w') (Trigger (ti_Plugin t) p w)" using Cons.prems by (intro keepsD) auto
  with Cons show ?case by (auto intro!: pred_option_bind split: option.splits)
qed simp

lemma check_loop_P:
  "\<forall>i \<in> set cs. keeps cl P (Check (ci_Plugin i)) \<Longrightarrow> P_Client p = cl \<Longrightarrow> P w \<Longrightarrow>
   pred_option (\<lambda>(acc, w'). P w') (check_loop cs p acc w)"
proof (induction cs arbitrary: acc w)
  case (Cons c cs)
  obtain ev infos failed where acc: "acc = (ev, infos, failed)" by (cases acc) auto
  have "pred_option (\<lambda>(r, w'). P w') (Check (ci_Plugin c) p w)" using Cons.prems by (intro keepsD) auto
  with Cons show ?case unfolding acc by (auto simp: Let_def intro!: pred_option_bind split: option.splits)
qed simp

lemma CheckChain_P:
  assumes "\<forall>i \<in> set (cc_Plugins c). keeps cl P (Check (ci_Plugin i))" and "P_Client p = cl" and "P w"
  shows "pred_option (\<lambda>(r, w'). P w') (CheckChain_Execute c p w)"
  using check_loop_P [OF assms] assms(3)
  by (auto simp: CheckChain_Execute_def Let_def intro!: pred_option_bind split: option.splits sum.splits)

lemma run_hooks_P:
  "\<forall>i \<in> set cs. keeps cl P (OnTransition (ci_Plugin i)) \<Longrightarrow> P_Client p = cl \<Longrightarrow> P w \<Longrightarrow>
   pred_option (\<lambda>(err, w'). P w') (run_hooks cs p w)"
proof (induction cs arbitrary: w)
  case (Cons c cs)
  have "pred_option (\<lambda>(err, w'). P w') (OnTransition (ci_Plugin c) p w)" using Cons.prems by (intro keepsD) auto
  with Cons show ?case by (auto intro!: pred_option_bind split: option.splits)
qed simp

lemma notify_instance_P:
  assumes "keeps cl P (Notify (ni_Plugin n))" and "P_Client p = cl" and "P w"
  shows "pred_option (\<lambda>(r, w'). P w') (notify_instance p d n w)"
proof -
  obtain now w1 where now: "time_Now w = (now, w1)" by fastforce
  with P_now [OF assms(3)] have w1: "P w1" by simp
  have sn: "P (snd (ShouldNotify s sp w1))" for s sp
    using w1 P_now by (cases s) (auto simp: NotifyOneshot_ShouldNotify_def time_Since_unfold)
  have nt: "P w3" if "Notify (ni_Plugin n) p w2 = Some (e, w3)" "P w2" for w2 e w3
    using that assms(1,2) unfolding keeps_def by blast
  show ?thesis
  proof (cases "ni_Schedule n")
    case (Some s)
    then show ?thesis
      using now w1 sn
      by (auto simp: notify_instance_def Let_def case_prod_beta pred_option_def bind_eq_Some_conv
          dest!: nt split: option.splits if_splits)
  qed (use assms(3) in \<open>simp add: notify_instance_def\<close>)
qed

lemma notifyDefault_P:
  "\<forall>n \<in> set ns. keeps cl P (Notify (ni_Plugin n)) \<Longrightarrow> P_Client p = cl \<Longrightarrow> P w \<Longrightarrow>
   pred_option (\<lambda>(r, w'). P w') (notifyDefault p d ns w)"
proof (induction ns arbitrary: d w)
  case (Cons n ns)
  have "pred_option (\<lambda>(r, w'). P w') (notify_instance p d n w)" using Cons.prems by (intro notify_instance_P) auto
  with Cons show ?case by (auto intro!: pred_option_bind split: option.splits)
qed simp

text \<open>Evaluating the transitions: what has passed into maintenance passed on \<open>G\<close>.\<close>

definition granted :: "bool \<Rightarrow> transition_result list \<Rightarrow> bool" where
  "granted G rs \<longleftrightarrow> (\<forall>r \<in> set rs. trr_Passed r \<longrightarrow> trr_Target r = InMaintenance \<longrightarrow> G)"

lemma Transition_P:
  assumes t: "\<forall>i \<in> set (cc_Plugins (tr_Check t)). keeps cl P (Check (ci_Plugin i))" and p: "P_Client p = cl" "P w"
    and g: "\<And>r err w'. tr_Next t = InMaintenance \<Longrightarrow> CheckChain_Execute (tr_Check t) p w = Some ((r, err), w') \<Longrightarrow> ccr_Passed r \<Longrightarrow> G"
  shows "pred_option (\<lambda>((r, err), w'). P w' \<and> granted G [r]) (Transition_Execute t p w)"
  unfolding Transition_Execute_def
  using CheckChain_P [OF t p] g by (auto simp: granted_def intro!: pred_option_bind split: option.splits)

lemma exec_transitions_P:
  "\<forall>t \<in> set ts. \<forall>i \<in> set (cc_Plugins (tr_Check t)). keeps cl P (Check (ci_Plugin i)) \<Longrightarrow>
   \<forall>t \<in> set ts. tr_Next t = InMaintenance \<longrightarrow> (\<forall>w r err w'. P w \<longrightarrow>
     CheckChain_Execute (tr_Check t) p w = Some ((r, err), w') \<longrightarrow> ccr_Passed r \<longrightarrow> G) \<Longrightarrow>
   P_Client p = cl \<Longrightarrow> P w \<Longrightarrow> granted G rs \<Longrightarrow>
   pred_option (\<lambda>((rs', es), w'). P w' \<and> granted G rs') (exec_transitions ts p (rs, es) w)"
proof (induction ts arbitrary: rs es w)
  case (Cons t ts)
  have "pred_option (\<lambda>((r, err), w'). P w' \<and> granted G [r]) (Transition_Execute t p w)"
    using Cons.prems by (intro Transition_P) auto
  moreover have "granted G (rs @ [r])" if "granted G [r]" for r
    using that Cons.prems(5) by (auto simp: granted_def)
  ultimately show ?case
    using Cons.IH Cons.prems(1-3) by (fastforce intro!: pred_option_bind)
qed simp

lemma pick_transition_P:
  "\<forall>(t, r) \<in> set trs. \<forall>i \<in> set (cc_Plugins (tr_Check t)). keeps cl P (OnTransition (ci_Plugin i)) \<Longrightarrow>
   granted G (map snd trs) \<Longrightarrow> P_Client p = cl \<Longrightarrow> P w \<Longrightarrow>
   pred_option (\<lambda>((res, err), w'). P w' \<and> (ts_Next res = InMaintenance \<longrightarrow> ts_Next final = InMaintenance \<or> G))
     (pick_transition trs final p w)"
proof (induction trs)
  case (Cons tr trs)
  obtain t r where tr: "tr = (t, r)" by (cases tr)
  have "pred_option (\<lambda>(err, w'). P w') (run_hooks (cc_Plugins (tr_Check t)) p w)"
    using Cons.prems tr by (intro run_hooks_P) auto
  with Cons tr show ?case by (auto simp: granted_def intro!: pred_option_bind split: option.splits)
qed simp

lemma NodeState_Transition_P:
  assumes "chains_keep cl P (NodeState_chains st)" and "chains_guard cl P G (NodeState_chains st)"
    and "P_Client p = cl" and "P w"
  shows "pred_option (\<lambda>((res, err), w'). P w' \<and> (ts_Next res = InMaintenance \<longrightarrow> NodeState_Label st = InMaintenance \<or> G))
    (NodeState_Transition st p w)"
proof -
  let ?ts = "pc_Transitions (NodeState_chains st)"
  have ex: "pred_option (\<lambda>((rs', es), w'). P w' \<and> granted G rs') (exec_transitions ?ts p ([], []) w)"
  proof (rule exec_transitions_P [OF _ _ assms(3,4)])
    show "\<forall>t \<in> set ?ts. tr_Next t = InMaintenance \<longrightarrow> (\<forall>w r err w'. P w \<longrightarrow>
       CheckChain_Execute (tr_Check t) p w = Some ((r, err), w') \<longrightarrow> ccr_Passed r \<longrightarrow> G)"
      using assms(2,3) unfolding chains_guard_def by blast
  qed (use assms(1) in \<open>simp_all add: chains_keep_def granted_def\<close>)
  have hooks: "\<forall>(t, r) \<in> set (zip ?ts rs). \<forall>i \<in> set (cc_Plugins (tr_Check t)). keeps cl P (OnTransition (ci_Plugin i))"
    for rs :: "transition_result list"
    using assms(1) by (auto simp: chains_keep_def dest: set_zip_leftD)
  have pick: "pred_option (\<lambda>((res, err), w'). P w' \<and> (ts_Next res = InMaintenance \<longrightarrow> NodeState_Label st = InMaintenance \<or> G))
      (pick_transition (zip ?ts rs) \<lparr>ts_Next = NodeState_Label st, ts_Infos = rs\<rparr> p w1)"
    if "granted G rs" "P w1" for rs w1
  proof -
    have "granted G (map snd (zip ?ts rs))" using that(1) by (auto simp: granted_def dest: set_zip_rightD)
    from pick_transition_P [OF hooks this assms(3) that(2), of "\<lparr>ts_Next = NodeState_Label st, ts_Infos = rs\<rparr>"]
    show ?thesis by simp
  qed
  show ?thesis
    unfolding NodeState_Transition_def transitionDefault_def
    using ex pick by (auto simp: Let_def intro!: pred_option_bind split: option.splits)
qed

text \<open>\<open>Apply\<close>.\<close>

lemma Enter_P:
  assumes "chains_keep cl P (NodeState_chains st)" and "P_Client p = cl" and "P w"
  shows "pred_option (\<lambda>(err, w'). P w') (NodeState_Enter st p w)"
proof -
  have t: "pred_option (\<lambda>(err, w'). P w') (TriggerChain_Execute (pc_Enter (NodeState_chains st)) p w)"
    using assms by (intro TriggerChain_P) (simp_all add: chains_keep_def)
  then show ?thesis
  proof (cases st)
    case (inMaintenance c l)
    with t P_record assms(2) show ?thesis
      by (auto simp: case_prod_beta intro!: pred_option_bind split: option.splits)
  qed simp_all
qed

lemma Trigger_P:
  assumes "chains_keep cl P (NodeState_chains st)" and "P_Client p = cl" and "P w"
  shows "pred_option (\<lambda>(err, w'). P w') (NodeState_Trigger st next p w)"
proof (cases "find_trigger (pc_Transitions (NodeState_chains st)) next")
  case (Some t)
  have "t \<in> set ts" if "find_trigger ts next = Some t" for ts
    using that by (induction ts) (auto split: if_splits)
  with Some have "t \<in> set (pc_Transitions (NodeState_chains st))" by blast
  then have "pred_option (\<lambda>(err, w'). P w') (TriggerChain_Execute (tr_Trigger t) p w)"
    using assms by (intro TriggerChain_P) (auto simp: chains_keep_def)
  with Some show ?thesis by (simp add: NodeState_Trigger_def)
qed (use assms in \<open>simp add: NodeState_Trigger_def\<close>)

text \<open>What holds of the outcome of \<open>Apply\<close> and of its parts.\<close>

definition outcome_P :: "bool \<Rightarrow> 's node_state \<Rightarrow> (apply_result \<times> error option) \<times> data \<times> 's world \<Rightarrow> bool" where
  "outcome_P G st = (\<lambda>((r, err), d, w). P w \<and> (ar_Next r = InMaintenance \<longrightarrow> NodeState_Label st = InMaintenance \<or> G))"

lemma outcome_error:
  "P w \<Longrightarrow> ar_Next r = NodeState_Label st \<Longrightarrow> outcome_P G st (handleTransitionError p r d e m w)"
  by (auto simp: handleTransitionError_def outcome_P_def Let_def intro: P_event P_failure)

lemma outcome_same: "P w \<Longrightarrow> ar_Next r = NodeState_Label st \<Longrightarrow> outcome_P G st ((r, err), d, w)"
  by (simp add: outcome_P_def)

lemma Apply_trigger_P:
  assumes "chains_keep cl P (NodeState_chains st)" and "P_Client p = cl" and "P w"
    and "ar_Next r = NodeState_Label st" and "next = InMaintenance \<longrightarrow> NodeState_Label st = InMaintenance \<or> G"
  shows "pred_option (outcome_P G st) (Apply_trigger st d p r next w)"
proof (cases "next = NodeState_Label st")
  case False
  have "outcome_P G st ((r\<lparr>ar_Next := next\<rparr>, None), d, emit_event obj reason msg w1)" if "P w1" for obj reason msg w1
    using assms(5) that by (simp add: outcome_P_def P_event)
  with False show ?thesis
    using assms(4) by (auto simp: Apply_trigger_def outcome_error intro!: pred_option_bind [OF Trigger_P [OF assms(1-3)]]
        split: option.splits)
qed (use assms(3,4) in \<open>simp add: Apply_trigger_def outcome_same\<close>)

lemma Apply_evaluate_P:
  assumes "chains_keep cl P (NodeState_chains st)" and "chains_guard cl P G (NodeState_chains st)"
    and "P_Client p = cl" and "P w" and "ar_Next r = NodeState_Label st"
  shows "pred_option (outcome_P G st) (Apply_evaluate st d p r w)"
proof -
  have nt: "pred_option (\<lambda>(r, w'). P w') (NodeState_Notify st p d w)"
    unfolding NodeState_Notify_def using assms(1,3,4) by (intro notifyDefault_P) (simp_all add: chains_keep_def)
  show ?thesis
    unfolding Apply_evaluate_def
    by (rule pred_option_bind [OF nt])
      (auto simp: Let_def assms(5) outcome_error Apply_trigger_P [OF assms(1,3)]
        intro!: pred_option_bind [OF NodeState_Transition_P [OF assms(1-3)]] split: option.splits)
qed

lemma Apply_P:
  assumes "chains_keep cl P (NodeState_chains st)" and "chains_guard cl P G (NodeState_chains st)"
    and "P_Client p = cl" and "P w"
  shows "pred_option (outcome_P G st) (Apply st d p w)"
  unfolding Apply_def Let_def
  using assms(4) by (auto simp: outcome_error outcome_same Apply_evaluate_P [OF assms(1-3)]
      intro!: pred_option_bind [OF Enter_P [OF assms(1,3,4)]] split: option.splits)

text \<open>The loops of \<open>ApplyProfiles\<close>.\<close>

definition results_ok :: "bool \<Rightarrow> profile_result list \<Rightarrow> bool" where
  "results_ok G rs \<longleftrightarrow> (\<forall>r \<in> set rs. ar_Next (pr_Applied r) = InMaintenance \<longrightarrow> pr_State r = InMaintenance \<or> G)"

lemma apply_loop_P:
  assumes cl: "rp_client rp = cl"
  shows "\<forall>ps \<in> set pss. chains_keep cl P (chains_of ps) \<and> chains_guard cl P G (chains_of ps) \<Longrightarrow> P w \<Longrightarrow>
    results_ok G (aa_results acc) \<Longrightarrow>
    pred_option (\<lambda>(acc', d', w'). P w' \<and> results_ok G (aa_results acc')) (apply_loop rp all pss acc d w)"
proof (induction pss arbitrary: acc d w)
  case (Cons ps pss)
  obtain t w1 where t: "TouchShuffles (rp_client rp) (n_Name (w_node w)) (pf_Name (ps_Profile ps)) w = (t, w1)" by fastforce
  with P_touch [OF Cons.prems(2), of "n_Name (w_node w)" "pf_Name (ps_Profile ps)"] cl have w1: "P w1" by simp
  note IH = Cons.IH [OF ballI]
  show ?case
  proof (cases "FromLabel (ps_State ps) (chains_of ps)")
    case (Inl e)
    with t w1 Cons.prems show ?thesis by (auto simp: simp del: Option.pred_option_def intro!: IH)
  next
    case (Inr st)
    from FromLabel_Inr [OF this] have st: "NodeState_chains st = chains_of ps" by simp
    have ap: "pred_option (outcome_P G st) (Apply st d (plugin_params rp all ps pd w1) w1)" for pd
      using Cons.prems(1) w1 cl by (intro Apply_P) (simp_all add: st plugin_params_def)
    have ok: "results_ok G (aa_results acc @ [\<lparr>pr_Applied = r, pr_Name = n, pr_State = NodeState_Label st\<rparr>])"
      if "outcome_P G st ((r, err), d', w')" for r err d' w' n
      using that Cons.prems(3) by (auto simp: results_ok_def outcome_P_def)
    have "P w'" if "outcome_P G st ((r, err), d', w')" for r err d' w' using that by (simp add: outcome_P_def)
    with t Inr ok Cons.prems(1) show ?thesis
      by (auto simp: Let_def intro!: pred_option_bind [OF ap] IH split: option.splits)
  qed
qed simp

lemma record_result_P: "record_result ps r d w = Some (d', w') \<Longrightarrow> P w \<Longrightarrow> P w'"
  by (auto simp: record_result_def Let_def case_prod_beta bind_eq_Some_conv intro: P_now
      split: option.splits if_splits)

lemma record_loop_P:
  "length pss = length rs \<Longrightarrow> record_loop retry pss rs d w = Some (d', w') \<Longrightarrow> P w \<Longrightarrow> P w'"
proof (induction pss rs arbitrary: d w rule: list_induct2)
  case (Cons ps pss r rs)
  from Cons.prems(1) show ?case
    by (cases rule: record_loop_ConsE) (use Cons record_result_P in blast)+
qed simp

lemma init_profiles_P: "init_profiles pfs d w = Some (d', w') \<Longrightarrow> P w \<Longrightarrow> P w'"
proof (induction pfs arbitrary: d w)
  case (Cons pf pfs)
  from Cons.prems Cons.IH P_now show ?case
    by (cases "gm_get (d_Profiles d) (pf_Name pf)") (auto simp: case_prod_beta Let_def bind_eq_Some_conv)
qed simp

lemma MaintainProfileStates_P: "MaintainProfileStates d s available w = Some (d', w') \<Longrightarrow> P w \<Longrightarrow> P w'"
  by (auto simp: MaintainProfileStates_def Let_def intro: init_profiles_P)

text \<open>After \<open>ApplyProfiles\<close> a profile is in maintenance only if one was before, or by \<open>G\<close>.\<close>

lemma ApplyProfiles_P:
  assumes run: "ApplyProfiles rp h = Some (err, h')" and cl: "rp_client rp = cl" and P: "P (hs_world h)"
    and keep: "all_chains (chains_keep cl P) (rp_config rp)" and guard: "all_chains (chains_guard cl P G) (rp_config rp)"
    and named: "named_by_key (Profiles (rp_config rp))"
  defines "l \<equiv> profiles_label (hs_world h)"
  shows "P (hs_world h') \<and> (err = None \<longrightarrow> in_maintenance (rp_config rp) l (hs_data h') \<longrightarrow>
    in_maintenance (rp_config rp) l (hs_data h) \<or> G)"
proof -
  let ?acc0 = "\<lparr>aa_results = [], aa_errs = [], aa_retry = []\<rparr>" and ?cfg = "rp_config rp"
  obtain pss acc d1 w1 where pss: "GetProfilesWithState (hs_data h) l (Profiles ?cfg) = Some pss"
    and loop: "apply_loop rp pss pss ?acc0 (hs_data h) (hs_world h) = Some (acc, d1, w1)"
    using run by (auto simp: ApplyProfiles_def l_def bind_eq_Some_conv)
  let ?rest = "\<lambda>nodes w. case errors_Join (aa_errs acc) of
        Some e \<Rightarrow> Some (Some (WrapError ''failed to apply current state: '' e), \<lparr>hs_data = d1, hs_cache = nodes, hs_world = w\<rparr>)
      | None \<Rightarrow> do { (d, w) \<leftarrow> record_loop (aa_retry acc) pss (aa_results acc) d1 w;
                   Some (None, \<lparr>hs_data = d, hs_cache = nodes, hs_world = w\<rparr>) }"
  obtain nodes w2 where w2: "w2 = snd (time_Now w1)" and rest: "?rest nodes w2 = Some (err, h')"
  proof -
    let ?info = "\<lparr>ninf_Node = n_Name (w_node w1), ninf_Profiles = aa_results acc,
      ninf_Labels = filterNodeLabels (n_Labels (w_node w1)) (DashboardLabelFilter ?cfg), ninf_Updated = zero_time\<rparr>"
    have "(cache_Update ?info (hs_cache h) w1 \<bind> (\<lambda>(nodes, w). ?rest nodes w)) = Some (err, h')"
      using run pss loop unfolding l_def by (simp add: ApplyProfiles_def)
    then obtain nodes w2 where "cache_Update ?info (hs_cache h) w1 = Some (nodes, w2)" "?rest nodes w2 = Some (err, h')"
      by (auto simp: bind_eq_Some_conv)
    moreover from this(1) have "w2 = snd (time_Now w1)" by (auto simp: cache_Update_def case_prod_beta bind_eq_Some_conv)
    ultimately show thesis using that by blast
  qed
  have chains: "\<forall>ps \<in> set pss. chains_keep cl P (chains_of ps) \<and> chains_guard cl P G (chains_of ps)"
    using all_chains_of [OF keep _ chains_keep_empty] all_chains_of [OF guard _ chains_guard_empty]
      profile_state_of(1) [OF pss named] by blast
  have ok: "P w1" "results_ok G (aa_results acc)"
    using apply_loop_P [OF cl chains P, of ?acc0 pss "hs_data h"] loop by (simp_all add: results_ok_def)
  show ?thesis
  proof (cases "aa_errs acc = []")
    case False
    with rest w2 P_now [OF ok(1)] show ?thesis by (auto simp: errors_Join_def)
  next
    case True
    from apply_loop_outcomes [OF loop this] have out: "list_all2 (profile_outcome pss) pss (aa_results acc)" by simp
    then have len: "length pss = length (aa_results acc)" by (rule list_all2_lengthD)
    from rest True have e: "err = None" and
      rec: "record_loop (aa_retry acc) pss (aa_results acc) d1 w2 = Some (hs_data h', hs_world h')"
      by (auto simp: errors_Join_def bind_eq_Some_conv)
    let ?in = "in_maintenance ?cfg l (hs_data h)"
    let ?Q = "\<lambda>n x. (\<exists>pd. x = Some pd \<and> pd_Current pd = InMaintenance) \<longrightarrow>
      (\<exists>pd. gm_get (d_Profiles (hs_data h)) n = Some (Some pd) \<and> pd_Current pd = InMaintenance) \<or> ?in \<or> G"
    have "gm_all ?Q (d_Profiles (hs_data h'))"
    proof (rule record_loop_all [OF _ len rec])
      show "gm_all ?Q (d_Profiles d1)" using apply_loop_profiles [OF loop] by (auto simp: gm_all_def)
    next
      fix ps r w pd pd'
      assume z: "(ps, r) \<in> set (zip pss (aa_results acc))" and old: "?Q (pf_Name (ps_Profile ps)) (Some pd)"
        and rec: "recorded ps r w pd pd'"
      from z out have "pr_State r = ps_State ps" by (auto simp: list_all2_iff profile_outcome_def)
      moreover have "?in" if "ps_State ps = InMaintenance"
        using that set_zip_leftD [OF z] anyInMaintenance_iff [OF pss named] by (auto simp: anyInMaintenance_def)
      moreover have "ar_Next (pr_Applied r) = InMaintenance \<longrightarrow> pr_State r = InMaintenance \<or> G"
        using ok(2) set_zip_rightD [OF z] by (auto simp: results_ok_def)
      ultimately show "?Q (pf_Name (ps_Profile ps)) (Some pd')"
        using old rec by (auto simp: recorded_def split: if_splits)
    qed
    then have "?in \<or> G" if "in_maintenance ?cfg l (hs_data h')"
    proof -
      from that obtain n pd where n: "n \<in> label_names l" "gm_get (Profiles ?cfg) n \<noteq> None"
        "gm_get (d_Profiles (hs_data h')) n = Some (Some pd)" "pd_Current pd = InMaintenance"
        by (auto simp: in_maintenance_def)
      with \<open>gm_all ?Q (d_Profiles (hs_data h'))\<close> have
        "(\<exists>pd. gm_get (d_Profiles (hs_data h)) n = Some (Some pd) \<and> pd_Current pd = InMaintenance) \<or> ?in \<or> G"
        unfolding gm_all_def by blast
      with n(1,2) show ?thesis unfolding in_maintenance_def by blast
    qed
    with e record_loop_P [OF len rec] P_now [OF ok(1)] w2 show ?thesis by simp
  qed
qed

end

text \<open>When the predicate fixes the profiles of the node, the whole of \<open>HandleNode\<close> keeps it.\<close>

locale node_invariant = world_invariant +
  fixes prof :: string
  assumes P_profiles: "P w \<Longrightarrow> profiles_label w = prof"
begin

lemma HandleNode_P:
  assumes run: "HandleNode rp h = Some (err, h')" and cl: "rp_client rp = cl" and P: "P (hs_world h)"
    and keep: "all_chains (chains_keep cl P) (rp_config rp)" and guard: "all_chains (chains_guard cl P G) (rp_config rp)"
    and named: "named_by_key (Profiles (rp_config rp))"
  shows "P (hs_world h') \<and> (err = None \<longrightarrow>
    (gm_get (n_Labels (w_node (hs_world h'))) StateLabelKey = Some InMaintenance
       \<longleftrightarrow> in_maintenance (rp_config rp) prof (hs_data h'))
    \<and> (in_maintenance (rp_config rp) prof (hs_data h') \<longrightarrow> in_maintenance (rp_config rp) prof (hs_data h) \<or> G))"
  using run
proof (cases rule: HandleNode_stages)
  case (1 d1 w0 w1 err2 h2)
  let ?cfg = "rp_config rp"
  have l: "profiles_label (hs_world h) = prof" by (rule P_profiles [OF P])
  have w1: "P w1" using MaintainProfileStates_P [OF 1(3)] P_ensure [OF P] 1(1) by simp
  have h2: "P (hs_world h2) \<and> (err2 = None \<longrightarrow> in_maintenance ?cfg prof (hs_data h2) \<longrightarrow> in_maintenance ?cfg prof d1 \<or> G)"
    using ApplyProfiles_P [OF 1(5) cl _ keep guard named] w1 P_profiles [OF w1] by simp
  have d1: "in_maintenance ?cfg prof d1 \<longleftrightarrow> in_maintenance ?cfg prof (hs_data h)"
    using in_maintenance_maintain [OF 1(3) named] l by simp
  show ?thesis
  proof (cases "err2 = None")
    case True
    with 1(6) have up: "UpdateMaintenanceStateLabel rp h2 = Some (None, h')" by auto
    then obtain pss where pss: "GetProfilesWithState (hs_data h2) (profiles_label (hs_world h2)) (Profiles ?cfg) = Some pss"
      and d: "hs_data h' = hs_data h2"
      and lab: "gm_get (n_Labels (w_node (hs_world h'))) =
        (gm_get (n_Labels (w_node (hs_world h2))))(StateLabelKey \<mapsto> most_critical pss)"
      by (rule UpdateMaintenanceStateLabel_Some)
    have "P (hs_world h')"
      using up P_label [OF P_ensure] h2 by (auto simp: UpdateMaintenanceStateLabel_def bind_eq_Some_conv Let_def)
    moreover have "most_critical pss = InMaintenance \<longleftrightarrow> anyInMaintenance pss"
      by (auto simp: most_critical_def anyInMaintenance_def)
    moreover have "anyInMaintenance pss \<longleftrightarrow> in_maintenance ?cfg prof (hs_data h2)"
      using anyInMaintenance_iff [OF pss named] P_profiles [of "hs_world h2"] h2 by simp
    ultimately show ?thesis using h2 d1 lab d True by auto
  qed (use 1(6) h2 in auto)
qed

end

section \<open>The nodes of the cluster\<close>

text \<open>
  What the development needs to know of a node on the API server: its name, the state label, the
  label with its profiles, the data annotation and the labels \<open>gs\<close> that nodes are grouped by.
\<close>

record fleet_node =
  fn_Name :: string
  fn_State :: "string option"
  fn_Profiles :: string
  fn_Data :: string
  fn_Group :: "string option list"

definition summary :: "string list \<Rightarrow> node \<Rightarrow> fleet_node" where
  "summary gs n = \<lparr>fn_Name = n_Name n, fn_State = gm_get (n_Labels n) StateLabelKey,
     fn_Profiles = gm_str (n_Labels n) ProfileLabelKey, fn_Data = gm_str (n_Annotations n) DataAnnotationKey,
     fn_Group = map (gm_get (n_Labels n)) gs\<rparr>"

definition maintained :: "fleet_node \<Rightarrow> bool" where
  "maintained m \<longleftrightarrow> fn_State m = Some InMaintenance"

text \<open>A merge patch changes what differs between the object and its base.\<close>

definition merge :: "fleet_node \<Rightarrow> fleet_node \<Rightarrow> fleet_node \<Rightarrow> fleet_node" where
  "merge base obj m =
     (if fn_Name m \<noteq> fn_Name base then m
      else m\<lparr>fn_State := (if fn_State obj = fn_State base then fn_State m else fn_State obj),
             fn_Profiles := (if fn_Profiles obj = fn_Profiles base then fn_Profiles m else fn_Profiles obj),
             fn_Data := (if fn_Data obj = fn_Data base then fn_Data m else fn_Data obj),
             fn_Group := (if fn_Group obj = fn_Group base then fn_Group m else fn_Group obj)\<rparr>)"

text \<open>
  A client whose cache is up to date: reading does not change the nodes, a list by the state label
  is the nodes with that label, a node read is one of them, and a patch is done or not, whatever
  it returns.
\<close>

definition quiet :: "('s \<Rightarrow> fleet_node list) \<Rightarrow> ('s \<Rightarrow> 'a \<times> 's) \<Rightarrow> bool" where
  "quiet view f \<longleftrightarrow> (\<forall>s. view (snd (f s)) = view s)"

definition serves :: "('s \<Rightarrow> fleet_node list) \<Rightarrow> string list \<Rightarrow> 's client \<Rightarrow> bool" where
  "serves view gs cl \<longleftrightarrow>
     quiet view (c_ListNodes cl (MatchingLabels [(StateLabelKey, InMaintenance)]))
     \<and> (\<forall>s ns. fst (c_ListNodes cl (MatchingLabels [(StateLabelKey, InMaintenance)]) s) = Inr ns \<longrightarrow>
          map (summary gs) ns = filter maintained (view s))
     \<and> (\<forall>n. quiet view (c_GetNode cl n))
     \<and> (\<forall>name s n. fst (c_GetNode cl name s) = Inr n \<longrightarrow> summary gs n \<in> set (view s))
     \<and> (\<forall>n base s. view (snd (c_PatchNode cl n base s)) \<in> {view s, map (merge (summary gs base) (summary gs n)) (view s)})
     \<and> (\<forall>n. quiet view (c_ListPods cl n)) \<and> (\<forall>r. quiet view (c_GetDaemonSet cl r)) \<and> (\<forall>r. quiet view (c_GetReplicaSet cl r))
     \<and> (\<forall>r. quiet view (c_GetDeployment cl r)) \<and> (\<forall>r. quiet view (c_GetStatefulSet cl r))
     \<and> (\<forall>pod g. quiet view (c_DeletePod cl pod g)) \<and> (\<forall>pod g. quiet view (cs_EvictV1 cl pod g))
     \<and> (\<forall>pod g. quiet view (cs_EvictV1beta1 cl pod g)) \<and> quiet view (cs_ServerVersion cl)"

lemma serves_quiet:
  assumes "serves view gs cl"
  shows "quiet view (c_ListPods cl n)" "quiet view (c_GetDaemonSet cl r)" "quiet view (c_GetReplicaSet cl r)"
    "quiet view (c_GetDeployment cl r)" "quiet view (c_GetStatefulSet cl r)" "quiet view (c_DeletePod cl pod g)"
    "quiet view (cs_EvictV1 cl pod g)" "quiet view (cs_EvictV1beta1 cl pod g)" "quiet view (cs_ServerVersion cl)"
    "quiet view (c_GetNode cl name)" "quiet view (c_ListNodes cl (MatchingLabels [(StateLabelKey, InMaintenance)]))"
  using assms unfolding serves_def by (elim conjE, blast)+

lemma api_quiet: "quiet view f \<Longrightarrow> api f w = (r, w') \<Longrightarrow> view (w_api w') = view (w_api w)"
  by (auto simp: quiet_def api_def split: prod.splits) (metis snd_conv)

text \<open>The metrics only read.\<close>

lemma fetch_quiet:
  assumes "serves view gs c"
  shows "fetchShuffleDaemonSet c ref w = (r, w') \<Longrightarrow> view (w_api w') = view (w_api w)"
    and "fetchShuffleDeployment c ref w = (r, w') \<Longrightarrow> view (w_api w') = view (w_api w)"
    and "fetchShuffleStatefulSet c ref w = (r, w') \<Longrightarrow> view (w_api w') = view (w_api w)"
    and "fetchTouchReplicaSet c ref w = (t, w') \<Longrightarrow> view (w_api w') = view (w_api w)"
proof -
  have q: "api (c_GetDaemonSet c ref) w = (x1, w1) \<Longrightarrow> view (w_api w1) = view (w_api w)"
    "api (c_GetReplicaSet c ref) w = (x2, w1) \<Longrightarrow> view (w_api w1) = view (w_api w)"
    "api (c_GetDeployment c ref) w = (x3, w1) \<Longrightarrow> view (w_api w1) = view (w_api w)"
    "api (c_GetStatefulSet c ref) w = (x4, w1) \<Longrightarrow> view (w_api w1) = view (w_api w)" for ref w x1 x2 x3 x4 w1
    using api_quiet [OF serves_quiet(2) [OF assms]] api_quiet [OF serves_quiet(3) [OF assms]]
      api_quiet [OF serves_quiet(4) [OF assms]] api_quiet [OF serves_quiet(5) [OF assms]] by blast+
  show "fetchShuffleDaemonSet c ref w = (r, w') \<Longrightarrow> view (w_api w') = view (w_api w)"
    using q(1) by (auto simp: fetchShuffleDaemonSet_def split: prod.splits sum.splits)
  show "fetchShuffleDeployment c ref w = (r, w') \<Longrightarrow> view (w_api w') = view (w_api w)"
    using q(2) [of ref w] q(3) by (auto simp: fetchShuffleDeployment_def split: prod.splits sum.splits if_splits option.splits)
  show "fetchShuffleStatefulSet c ref w = (r, w') \<Longrightarrow> view (w_api w') = view (w_api w)"
    using q(4) by (auto simp: fetchShuffleStatefulSet_def split: prod.splits sum.splits)
  show "fetchTouchReplicaSet c ref w = (t, w') \<Longrightarrow> view (w_api w') = view (w_api w)"
    using q(2) [of ref w] by (auto simp: fetchTouchReplicaSet_def split: prod.splits sum.splits if_splits option.splits)
qed

lemma collect_records_quiet:
  assumes "serves view gs c"
  shows "collect_records c rs acc w = (r, w') \<Longrightarrow> view (w_api w') = view (w_api w)"
proof (induction rs arbitrary: acc w)
  case (Cons nr rs)
  obtain ns r where nr: "nr = (ns, r)" by (cases nr)
  note f = fetch_quiet [OF assms, of "(ns, o_Name r)" w]
  show ?case
    using Cons f unfolding nr by (auto simp: Let_def split: if_splits prod.splits sum.splits)
qed auto

lemma shuffle_api [simp]: "w_api (shuffle_inc l n w) = w_api w" "w_api (shuffle_touch l w) = w_api w"
  by (simp_all add: shuffle_inc_def shuffle_touch_def)

lemma fold_inc_api [simp]: "w_api (fold (\<lambda>r. shuffle_inc (f r) (g r)) rs w) = w_api w"
  by (induction rs arbitrary: w) simp_all

lemma touch_refs_quiet:
  assumes "serves view gs c"
  shows "touch_refs c p rs w = (r, w') \<Longrightarrow> view (w_api w') = view (w_api w)"
proof (induction rs arbitrary: w)
  case (Cons nr rs)
  obtain ns r where nr: "nr = (ns, r)" by (cases nr)
  note f = fetch_quiet [OF assms, of "(ns, o_Name r)" w]
  show ?case
    using Cons f unfolding nr by (auto split: if_splits prod.splits sum.splits)
qed auto

lemma metrics_quiet:
  assumes "serves view gs c"
  shows "view (w_api (snd (RecordShuffles (Some c) n p w))) = view (w_api w)"
    and "view (w_api (snd (TouchShuffles c n p w))) = view (w_api w)"
proof -
  have pods: "quiet view (c_ListPods c n)" using assms by (simp add: serves_def)
  have q: "view (w_api (snd (touch_refs c p rs w))) = view (w_api w)" for rs w
    by (rule touch_refs_quiet [OF assms prod.collapse [symmetric]])
  note q = q api_quiet [OF pods] collect_records_quiet [OF assms]
  show "view (w_api (snd (RecordShuffles (Some c) n p w))) = view (w_api w)"
    using q by (auto simp: RecordShuffles_def split: prod.splits sum.splits)
  show "view (w_api (snd (TouchShuffles c n p w))) = view (w_api w)"
    using q by (auto simp: TouchShuffles_def split: prod.splits sum.splits)
qed

text \<open>While the node \<open>b\<close> is reconciled the nodes on the server stay \<open>N\<close>.\<close>

definition of_cluster ::
    "('s \<Rightarrow> fleet_node list) \<Rightarrow> string list \<Rightarrow> 's client \<Rightarrow> fleet_node list \<Rightarrow> fleet_node \<Rightarrow> 's world \<Rightarrow> bool" where
  "of_cluster view gs cl N b w \<longleftrightarrow> serves view gs cl \<and> StateLabelKey \<notin> set gs
     \<and> view (w_api w) = N \<and> n_Name (w_node w) = fn_Name b
     \<and> profiles_label w = fn_Profiles b \<and> map (gm_get (n_Labels (w_node w))) gs = fn_Group b"

lemma of_cluster_cong:
  "view (w_api w') = view (w_api w) \<Longrightarrow> w_node w' = w_node w \<Longrightarrow> of_cluster view gs cl N b w \<Longrightarrow>
   of_cluster view gs cl N b w'"
  by (simp add: of_cluster_def profiles_label_def)

interpretation fleet: node_invariant cl "of_cluster view gs cl N b" "fn_Profiles b" for view gs cl N b
proof
  fix w n prof
  assume w: "of_cluster view gs cl N b w"
  then have cl: "serves view gs cl" by (simp add: of_cluster_def)
  show "of_cluster view gs cl N b (snd (TouchShuffles cl n prof w))"
    using w metrics_quiet(2) [OF cl] TouchShuffles_node by (auto elim!: of_cluster_cong [rotated 2])
  show "of_cluster view gs cl N b (snd (RecordShuffles (Some cl) n prof w))"
    using w metrics_quiet(1) [OF cl, of n prof w] RecordShuffles_frame [of "Some cl" n prof w]
    by (cases "RecordShuffles (Some cl) n prof w") (auto simp: metrics_frame_def elim!: of_cluster_cong [rotated 2])
next
  fix w w' l
  assume w: "of_cluster view gs cl N b w" and "set_state_label l w = Some w'"
  then obtain m where m: "gm_put StateLabelKey l (n_Labels (w_node w)) = Some m" "w' = w\<lparr>w_node := (w_node w)\<lparr>n_Labels := m\<rparr>\<rparr>"
    by (auto simp: set_state_label_def bind_eq_Some_conv)
  have "map (gm_get m) gs = map (gm_get (n_Labels (w_node w))) gs"
    using gm_get_put [OF m(1)] w by (auto simp: of_cluster_def)
  moreover have "gm_str m ProfileLabelKey = gm_str (n_Labels (w_node w)) ProfileLabelKey"
    using gm_get_put [OF m(1)] by (simp add: gm_str_def StateLabelKey_def ProfileLabelKey_def)
  ultimately show "of_cluster view gs cl N b w'"
    using w m(2) by (simp add: of_cluster_def profiles_label_def del: map_eq_conv)
qed (auto simp: of_cluster_def profiles_label_def gm_str_def emit_event_def RecordTransitionFailure_def)

text \<open>Plugins that keep it: the check itself, draining, and changes of other labels.\<close>

lemma filterRecentTransition_api: "filterRecentTransition decode m nodes acc w = Some (r, w') \<Longrightarrow> w_api w' = w_api w"
proof (induction nodes arbitrary: acc w)
  case (Cons node nodes)
  from Cons.prems show ?case
    by (auto simp: bind_eq_Some_conv time_Since_unfold dest!: Cons.IH split: sum.splits)
qed simp

lemma MaxMaintenance_checkInternal_api:
  assumes "MaxMaintenance_checkInternal decode m nodes w = Some (r, w')"
  shows "w_api w' = w_api w"
proof -
  obtain ns cs where g: "filter_groups (w_node w) (mm_GroupBy m)
      (if mm_Profile m \<noteq> [] then filterProfileName m nodes else nodes, []) = (ns, cs)" by fastforce
  with assms obtain filtered w1 where f: "(if mm_SkipAfter m \<noteq> 0 then filterRecentTransition decode m ns [] w
      else Some (Inr ns, w)) = Some (filtered, w1)"
    by (auto simp: MaxMaintenance_checkInternal_def Let_def bind_eq_Some_conv)
  then have "w_api w1 = w_api w" by (auto split: if_splits dest: filterRecentTransition_api)
  moreover have "w' = w1"
    using assms g f by (cases filtered) (auto simp: MaxMaintenance_checkInternal_def Let_def simp del: if_split split: if_split_asm)
  ultimately show ?thesis by simp
qed

lemma maxMaintenance_keeps_cluster: "keeps cl (of_cluster view gs cl N b) (MaxMaintenance_Check decode m)"
  unfolding keeps_def
proof (intro allI impI)
  fix p w r w'
  assume p: "P_Client p = cl" and w: "of_cluster view gs cl N b w" and run: "MaxMaintenance_Check decode m p w = Some (r, w')"
  let ?list = "c_ListNodes cl (MatchingLabels [(StateLabelKey, InMaintenance)])"
  obtain x w1 where x: "api ?list w = (x, w1)" by fastforce
  have "quiet view ?list" using w by (simp add: of_cluster_def serves_def)
  from api_quiet [OF this x] have "view (w_api w1) = view (w_api w)" .
  moreover have "w_api w' = w_api w1"
    using run x p by (cases x) (auto simp: MaxMaintenance_Check_def dest: MaxMaintenance_checkInternal_api)
  ultimately show "of_cluster view gs cl N b w'"
    using MaxMaintenance_node [OF run] w by (auto intro: of_cluster_cong)
qed

lemma of_cluster_api:
  assumes "api f w = (r, w')" and "serves view gs cl \<Longrightarrow> quiet view f"
  shows "of_cluster view gs cl N b w \<longrightarrow> of_cluster view gs cl N b w'"
proof
  assume w: "of_cluster view gs cl N b w"
  then have "quiet view f" using assms(2) by (simp add: of_cluster_def)
  moreover have "w_node w' = w_node w" using assms(1) by (auto simp: api_def split: prod.splits)
  ultimately show "of_cluster view gs cl N b w'" using w api_quiet [OF _ assms(1)] by (auto intro: of_cluster_cong)
qed

interpretation fleet_drain: drain_relation cl "\<lambda>w w'. of_cluster view gs cl N b w \<longrightarrow> of_cluster view gs cl N b w'"
  for view gs cl N b
proof (unfold_locales, goal_cases)
  case (3 w t w')
  with fleet.P_now [of view gs cl N b w] show ?case by simp
next
  case 4
  show ?case using fleet.P_event by blast
next
  case 5
  then show ?case by (rule of_cluster_api) (rule serves_quiet)
next
  case 6
  then show ?case by (rule of_cluster_api) (rule serves_quiet)
next
  case 7
  then show ?case by (rule of_cluster_api) (rule serves_quiet)
next
  case 8
  then show ?case by (rule of_cluster_api) (rule serves_quiet)
next
  case 9
  then show ?case by (rule of_cluster_api) (rule serves_quiet)
qed blast+

lemma of_cluster_unschedulable: "of_cluster view gs cl N b (set_unschedulable u w) \<longleftrightarrow> of_cluster view gs cl N b w"
  by (simp add: of_cluster_def set_unschedulable_def profiles_label_def)

lemma eviction_keeps_cluster: "keeps cl (of_cluster view gs cl N b) (Eviction_Trigger sv e)"
  unfolding keeps_def
proof (intro allI impI)
  fix p w r w'
  assume p: "P_Client p = cl" and w: "of_cluster view gs cl N b w" and run: "Eviction_Trigger sv e p w = Some (r, w')"
  let ?params = "\<lparr>dp_AwaitDeletion = \<lparr>wp_Period = defaultPeriod, wp_Timeout = ev_DeletionTimeout e\<rparr>,
    dp_Eviction = \<lparr>wp_Period = defaultPeriod, wp_Timeout = ev_EvictionTimeout e\<rparr>,
    dp_Client = P_Client p, dp_ForceEviction = ev_ForceEviction e, dp_GracePeriodSeconds = None, dp_Recorder = True\<rparr>"
  show "of_cluster view gs cl N b w'"
  proof (cases "ev_Action e = Drain")
    case True
    with run obtain d where d: "EnsureDrain sv ?params (set_unschedulable True w) = Some (d, w')"
      by (auto simp: Eviction_Trigger_def bind_eq_Some_conv split: option.splits if_splits)
    from fleet_drain.EnsureDrain_R [OF d, of cl view gs N b] p w show ?thesis by (simp add: of_cluster_unschedulable)
  next
    case False
    with run w of_cluster_unschedulable [of view gs cl N b] show ?thesis
      by (auto simp: Eviction_Trigger_def split: eviction_action.splits)
  qed
qed

lemma alterLabel_keeps_cluster:
  assumes "al_Key a \<noteq> ProfileLabelKey" and "al_Key a \<notin> set gs"
  shows "keeps cl (of_cluster view gs cl N b) (AlterLabel_Trigger a)"
  unfolding keeps_def
proof (intro allI impI)
  fix p w r w'
  assume w: "of_cluster view gs cl N b w" and run: "AlterLabel_Trigger a p w = Some (r, w')"
  have l: "gm_get (n_Labels (w_node w')) k = gm_get (n_Labels (w_node w)) k" if "k \<noteq> al_Key a" for k
    using AlterLabel_result [OF run] that by simp
  have "map (gm_get (n_Labels (w_node w'))) gs = map (gm_get (n_Labels (w_node w))) gs"
    using l assms(2) by (metis (no_types, lifting) map_cong)
  moreover have "w_api w' = w_api w" "n_Name (w_node w') = n_Name (w_node w)"
    using run by (auto simp: AlterLabel_Trigger_def set_labels_def bind_eq_Some_conv split: if_splits)
  ultimately show "of_cluster view gs cl N b w'"
    using w l assms(1) by (simp add: of_cluster_def profiles_label_def gm_str_def del: map_eq_conv)
qed

section \<open>The limit of the check\<close>

definition in_group :: "fleet_node \<Rightarrow> string option list \<Rightarrow> bool" where
  "in_group m g \<longleftrightarrow> maintained m \<and> fn_Group m = g"

text \<open>
  A chain that limits the maintained nodes of a group: it has an instance of \<open>maxMaintenance\<close>
  for the limit, and its expression holds only if the instance passed.
\<close>

definition limits :: "(string \<Rightarrow> error + data) \<Rightarrow> string list \<Rightarrow> int \<Rightarrow> 's check_chain \<Rightarrow> bool" where
  "limits decode gs limit c \<longleftrightarrow> distinct (map ci_Name (cc_Plugins c)) \<and>
     (\<exists>i \<in> set (cc_Plugins c). \<exists>m. ci_Plugin i = MaxMaintenance decode m
        \<and> mm_MaxNodes m = limit \<and> mm_Profile m = [] \<and> mm_SkipAfter m = 0 \<and> mm_GroupBy m = gs
        \<and> (\<exists>ev. cc_Evaluable c = Some ev \<and> (\<forall>ps. ev ps = Inr True \<longrightarrow> map_of ps (ci_Name i) = Some True)))"

lemma length_filter_mono: "(\<And>x. x \<in> set xs \<Longrightarrow> Q x \<Longrightarrow> R x) \<Longrightarrow> length (filter Q xs) \<le> length (filter R xs)"
  by (induction xs) (auto simp: le_SucI)

lemma check_loop_failed_prefix:
  assumes "check_loop cs p (ev, infos, failed) w = Some ((ev', infos', []), w')"
  shows "failed = []"
  using check_loop_failed_grows [OF assms] by simp

lemma check_loop_keeps_value:
  "check_loop cs p (ev, infos, failed) w = Some ((ev', infos', failed'), w') \<Longrightarrow> n \<notin> ci_Name ` set cs \<Longrightarrow>
   map_of ev' n = map_of ev n"
proof (induction cs arbitrary: ev infos failed w)
  case (Cons c cs)
  from Cons.prems(1) show ?case
  proof (rule check_loop_ConsE)
    fix r err w1 infos1
    assume "check_loop cs p (AList.update (ci_Name c) (err = None \<and> cr_Passed r) ev, infos1,
      failed @ (if err = None then [] else [ci_Name c])) w1 = Some ((ev', infos', failed'), w')"
    from Cons.IH [OF this] Cons.prems(2) show ?thesis by (simp add: update_conv')
  qed
qed simp

text \<open>An instance whose value is true has passed in a world where the predicate held.\<close>

context world_invariant
begin

lemma check_loop_passed:
  "check_loop cs p (ev, infos, []) w = Some ((ev', infos', []), w') \<Longrightarrow> P_Client p = cl \<Longrightarrow> P w \<Longrightarrow>
   \<forall>i \<in> set cs. keeps cl P (Check (ci_Plugin i)) \<Longrightarrow> distinct (map ci_Name cs) \<Longrightarrow>
   i \<in> set cs \<Longrightarrow> map_of ev' (ci_Name i) = Some True \<Longrightarrow>
   \<exists>w1 r err w2. P w1 \<and> Check (ci_Plugin i) p w1 = Some ((r, err), w2) \<and> cr_Passed r"
proof (induction cs arbitrary: ev infos w)
  case (Cons c cs)
  obtain r err w1 infos1 where c: "Check (ci_Plugin c) p w = Some ((r, err), w1)"
    and rest: "check_loop cs p (AList.update (ci_Name c) (err = None \<and> cr_Passed r) ev, infos1,
      [] @ (if err = None then [] else [ci_Name c])) w1 = Some ((ev', infos', []), w')"
    using Cons.prems(1) by (rule check_loop_ConsE)
  from check_loop_failed_prefix [OF rest] have err: "err = None" by (simp split: if_splits)
  show ?case
  proof (cases "i = c")
    case True
    have "map_of ev' (ci_Name c) = Some (cr_Passed r)"
      using check_loop_keeps_value [OF rest, of "ci_Name c"] Cons.prems(5) err by (simp add: update_conv')
    with True Cons.prems(3,7) c show ?thesis by auto
  next
    case False
    have "keeps cl P (Check (ci_Plugin c))" using Cons.prems(4) by simp
    with c Cons.prems(2,3) have "P w1" unfolding keeps_def by blast
    from Cons.IH [OF _ Cons.prems(2) this] rest err Cons.prems(4-7) False show ?thesis by simp
  qed
qed simp

end

text \<open>So a chain that limits guards the transitions into maintenance.\<close>

lemma limits_guard:
  assumes lim: "limits decode gs limit c" and keep: "\<forall>i \<in> set (cc_Plugins c). keeps cl (of_cluster view gs cl N b) (Check (ci_Plugin i))"
    and p: "P_Client p = cl" and w: "of_cluster view gs cl N b w"
    and run: "CheckChain_Execute c p w = Some ((r, err), w')" and passed: "ccr_Passed r"
  shows "int (length (filter (\<lambda>m. in_group m (fn_Group b)) N)) < limit"
proof -
  from lim obtain i m ev where i: "i \<in> set (cc_Plugins c)" "ci_Plugin i = MaxMaintenance decode m"
    and m: "mm_MaxNodes m = limit" "mm_Profile m = []" "mm_SkipAfter m = 0" "mm_GroupBy m = gs"
    and ev: "cc_Evaluable c = Some ev" "\<And>ps. ev ps = Inr True \<Longrightarrow> map_of ps (ci_Name i) = Some True"
    and dist: "distinct (map ci_Name (cc_Plugins c))"
    unfolding limits_def by blast
  from run passed ev(1) obtain ps infos w2 where loop: "check_loop (cc_Plugins c) p ([], [], []) w = Some ((ps, infos, []), w2)"
    and ps: "ev ps = Inr True"
    by (auto simp: CheckChain_Execute_def Let_def bind_eq_Some_conv split: if_splits sum.splits)
  obtain w1 r1 e1 w3 where w1: "of_cluster view gs cl N b w1"
    and chk: "MaxMaintenance_Check decode m p w1 = Some ((r1, e1), w3)" "cr_Passed r1"
    using fleet.check_loop_passed [OF loop p w keep dist i(1) ev(2) [OF ps]] i(2) by (auto simp: MaxMaintenance_def)
  let ?list = "c_ListNodes cl (MatchingLabels [(StateLabelKey, InMaintenance)])"
  obtain ns s where ns: "?list (w_api w1) = (Inr ns, s)"
  proof (cases "?list (w_api w1)")
    case (Pair x s)
    with that chk p show thesis by (cases x) (auto simp: MaxMaintenance_Check_def api_def Failed_def FailedWithReason_def)
  qed
  have "map (summary gs) ns = filter maintained N"
    using w1 ns unfolding of_cluster_def serves_def by (metis fst_conv)
  then have "filter (\<lambda>m. in_group m (fn_Group b)) N = filter (\<lambda>m. fn_Group m = fn_Group b) (map (summary gs) ns)"
    by (simp add: in_group_def conj_commute)
  then have "length (filter (\<lambda>m. in_group m (fn_Group b)) N)
      = length (filter (\<lambda>n. map (gm_get (n_Labels n)) gs = map (gm_get (n_Labels (w_node w1))) gs) ns)"
    using w1 by (simp add: filter_map o_def summary_def of_cluster_def del: map_eq_conv)
  also have "\<dots> \<le> length (filter (\<lambda>n. has_profile m n \<and> same_group m (w_node w1) n) ns)"
    by (rule length_filter_mono) (auto simp: has_profile_def same_group_def m)
  finally have "length (filter (\<lambda>m. in_group m (fn_Group b)) N) \<le> length (filter (\<lambda>n. has_profile m n \<and> same_group m (w_node w1) n) ns)" .
  moreover have "int (length (filter (\<lambda>n. has_profile m n \<and> same_group m (w_node w1) n) ns)) < limit"
    using MaxMaintenance_unskipped [OF _ m(3) chk(1)] ns p chk(2) m(1) by simp
  ultimately show ?thesis by linarith
qed

section \<open>Reconciliations of the nodes of the cluster\<close>

text \<open>
  A node is consistent when the state label shows that a profile in its data is in maintenance.
  The invariant of the cluster: names are unique, nodes are consistent, and no group has more than
  \<open>limit\<close> maintained nodes.
\<close>

definition consistent :: "(string \<Rightarrow> error + data) \<Rightarrow> ('s, 'c) config \<Rightarrow> fleet_node \<Rightarrow> bool" where
  "consistent decode cfg m \<longleftrightarrow>
     (\<forall>d. ParseData decode (fn_Data m) = Inr d \<longrightarrow> in_maintenance cfg (fn_Profiles m) d \<longrightarrow> maintained m)"

definition fleet_ok :: "(string \<Rightarrow> error + data) \<Rightarrow> ('s, 'c) config \<Rightarrow> int \<Rightarrow> fleet_node list \<Rightarrow> bool" where
  "fleet_ok decode cfg limit N \<longleftrightarrow> distinct (map fn_Name N) \<and> (\<forall>m \<in> set N. consistent decode cfg m)
     \<and> (\<forall>g. int (length (filter (\<lambda>m. in_group m g) N)) \<le> limit)"

text \<open>The plugins of a configuration leave the nodes on the server and the profile label alone.\<close>

definition leaves_cluster :: "('s \<Rightarrow> fleet_node list) \<Rightarrow> string list \<Rightarrow> 's client \<Rightarrow> ('s, 'c) config \<Rightarrow> bool" where
  "leaves_cluster view gs cl cfg \<longleftrightarrow> (\<forall>N b. all_chains (chains_keep cl (of_cluster view gs cl N b)) cfg)"

text \<open>Every transition into maintenance is limited.\<close>

definition limited :: "(string \<Rightarrow> error + data) \<Rightarrow> string list \<Rightarrow> int \<Rightarrow> ('s, 'c) config \<Rightarrow> bool" where
  "limited decode gs limit cfg \<longleftrightarrow>
     all_chains (\<lambda>c. \<forall>t \<in> set (pc_Transitions c). tr_Next t = InMaintenance \<longrightarrow> limits decode gs limit (tr_Check t)) cfg"

lemma limited_guard:
  assumes "limited decode gs limit cfg" and "leaves_cluster view gs cl cfg"
  shows "all_chains (chains_guard cl (of_cluster view gs cl N b) (int (length (filter (\<lambda>m. in_group m (fn_Group b)) N)) < limit)) cfg"
  unfolding all_chains_def gm_all_def
proof (intro allI impI ballI)
  fix k pf c assume c: "gm_get (Profiles cfg) k = Some pf" "c \<in> snd ` set (pf_Chains pf)"
  have lim: "\<forall>t \<in> set (pc_Transitions c). tr_Next t = InMaintenance \<longrightarrow> limits decode gs limit (tr_Check t)"
    using assms(1) c unfolding limited_def all_chains_def gm_all_def by blast
  have "chains_keep cl (of_cluster view gs cl N b) c"
    using assms(2) c unfolding leaves_cluster_def all_chains_def gm_all_def by blast
  then have keep: "\<forall>t \<in> set (pc_Transitions c). \<forall>i \<in> set (cc_Plugins (tr_Check t)).
      keeps cl (of_cluster view gs cl N b) (Check (ci_Plugin i))"
    by (simp add: chains_keep_def)
  show "chains_guard cl (of_cluster view gs cl N b) (int (length (filter (\<lambda>m. in_group m (fn_Group b)) N)) < limit) c"
    unfolding chains_guard_def
  proof (intro ballI allI impI)
    fix t p w r err w'
    assume t: "t \<in> set (pc_Transitions c)" "tr_Next t = InMaintenance" and p: "P_Client p = cl"
      and w: "of_cluster view gs cl N b w" and run: "CheckChain_Execute (tr_Check t) p w = Some ((r, err), w')" "ccr_Passed r"
    show "int (length (filter (\<lambda>m. in_group m (fn_Group b)) N)) < limit"
      by (rule limits_guard [OF _ _ p w run]) (use lim keep t in blast)+
  qed
qed

text \<open>What a reconciliation of the node \<open>b\<close> computes before it is patched.\<close>

definition computed ::
    "(string \<Rightarrow> error + data) \<Rightarrow> ('s, 'c) config \<Rightarrow> bool \<Rightarrow> fleet_node \<Rightarrow> fleet_node \<Rightarrow> bool" where
  "computed decode cfg G b a \<longleftrightarrow> fn_Name a = fn_Name b \<and> fn_Profiles a = fn_Profiles b \<and> fn_Group a = fn_Group b
     \<and> consistent decode cfg a \<and> (maintained a \<longrightarrow> maintained b \<or> G)"

lemma reconcileInternal_computes:
  assumes run: "reconcileInternal codec \<lparr>rp_client = cl, rp_config = cfg\<rparr> nodes w = Some (err, nodes', w')"
    and w: "of_cluster view gs cl N b w" and b: "fn_Data b = gm_str (n_Annotations (w_node w)) DataAnnotationKey"
    and keep: "leaves_cluster view gs cl cfg" and lim: "limited decode gs limit cfg"
    and named: "named_by_key (Profiles cfg)" and cons: "consistent decode cfg b"
    and codec: "cd_decode codec = decode" "\<And>d s. cd_encode codec d = Inr s \<Longrightarrow> s \<noteq> [] \<and> decode s = Inr d"
  shows "view (w_api w') = N" and "err = None \<Longrightarrow>
    computed decode cfg (int (length (filter (\<lambda>m. in_group m (fn_Group b)) N)) < limit) b (summary gs (w_node w'))"
proof -
  let ?rp = "\<lparr>rp_client = cl, rp_config = cfg\<rparr>"
  let ?G = "int (length (filter (\<lambda>m. in_group m (fn_Group b)) N)) < limit"
  note guard = limited_guard [OF lim keep, of N b]
  have keep: "all_chains (chains_keep cl (of_cluster view gs cl N b)) cfg" using keep by (simp add: leaves_cluster_def)
  have handled: "of_cluster view gs cl N b (hs_world h') \<and> (e = None \<longrightarrow>
      (gm_get (n_Labels (w_node (hs_world h'))) StateLabelKey = Some InMaintenance \<longleftrightarrow> in_maintenance cfg (fn_Profiles b) (hs_data h'))
      \<and> (in_maintenance cfg (fn_Profiles b) (hs_data h') \<longrightarrow> in_maintenance cfg (fn_Profiles b) d \<or> ?G))"
    if "HandleNode ?rp \<lparr>hs_data = d, hs_cache = nodes, hs_world = w\<rparr> = Some (e, h')" for d e h'
    using fleet.HandleNode_P [OF that, of cl view gs N b ?G] w keep guard named by simp
  have w_N: "view (w_api w) = N" using w by (simp add: of_cluster_def)
  have kept: "view (w_api (hs_world h')) = N" if "HandleNode ?rp \<lparr>hs_data = d, hs_cache = nodes, hs_world = w\<rparr> = Some (e, h')" for d e h'
    using handled [OF that] by (simp add: of_cluster_def)
  from run w_N show "view (w_api w') = N"
    by (auto simp: reconcileInternal_def bind_eq_Some_conv kept split: sum.splits option.splits)
  show "computed decode cfg ?G b (summary gs (w_node w'))" if "err = None"
  proof -
    from run that obtain d h node where d: "ParseData decode (fn_Data b) = Inr d"
      and h: "HandleNode ?rp \<lparr>hs_data = d, hs_cache = nodes, hs_world = w\<rparr> = Some (None, h)"
      and wr: "writeData codec (hs_data h) (w_node (hs_world h)) = Some (None, node)" and w': "w' = (hs_world h)\<lparr>w_node := node\<rparr>"
      unfolding b codec(1) [symmetric]
      by (auto simp: reconcileInternal_def bind_eq_Some_conv split: sum.splits option.splits)
    from wr obtain s an where enc: "cd_encode codec (hs_data h) = Inr s"
      and an: "gm_put DataAnnotationKey s (gm_ensure (n_Annotations (w_node (hs_world h)))) = Some an"
      and node: "node = (w_node (hs_world h))\<lparr>n_Annotations := an\<rparr>"
      by (auto simp: writeData_def bind_eq_Some_conv split: sum.splits)
    let ?a = "summary gs (w_node w')"
    have data: "fn_Data ?a = s" using gm_get_put [OF an] by (simp add: w' node summary_def gm_str_def)
    have same: "fn_Name ?a = fn_Name b" "fn_Profiles ?a = fn_Profiles b" "fn_Group ?a = fn_Group b"
      using handled [OF h] by (auto simp: of_cluster_def summary_def w' node profiles_label_def)
    have lab: "maintained ?a \<longleftrightarrow> in_maintenance cfg (fn_Profiles b) (hs_data h)"
      using handled [OF h] by (simp add: maintained_def summary_def w' node)
    have "consistent decode cfg ?a"
      using codec(2) [OF enc] lab unfolding consistent_def data same
      by (auto simp: ParseData_def in_maintenance_def)
    moreover have "maintained ?a \<longrightarrow> maintained b \<or> ?G"
      using lab handled [OF h] cons d unfolding consistent_def by blast
    ultimately show ?thesis using same by (simp add: computed_def)
  qed
qed

text \<open>The patch puts the result in the place of the node.\<close>

lemma merge_computed:
  assumes "computed decode cfg G b a" and "distinct (map fn_Name N)" and "b \<in> set N"
  shows "map (merge b a) N = map (\<lambda>m. if m = b then a else m) N"
proof (rule map_cong [OF refl])
  fix m assume m: "m \<in> set N"
  have "m = b" if "fn_Name m = fn_Name b" using assms(2,3) m that by (auto simp: distinct_map inj_on_def)
  moreover have "merge b a b = a" using assms(1) by (simp add: merge_def computed_def)
  ultimately show "merge b a m = (if m = b then a else m)" by (auto simp: merge_def)
qed

lemma length_filter_replace:
  assumes "distinct xs" and "b \<in> set xs"
  shows "length (filter Q (map (\<lambda>m. if m = b then a else m) xs)) + (if Q b then 1 else 0)
    = length (filter Q xs) + (if Q a then 1 else 0)"
  using assms
proof (induction xs)
  case (Cons x xs)
  show ?case
  proof (cases "x = b")
    case True
    with Cons.prems have "map (\<lambda>m. if m = b then a else m) xs = xs" by (auto intro!: map_idI)
    with True show ?thesis by simp
  qed (use Cons in auto)
qed simp

lemma patched_ok:
  assumes ok: "fleet_ok decode cfg limit N" and b: "b \<in> set N"
    and a: "computed decode cfg (int (length (filter (\<lambda>m. in_group m (fn_Group b)) N)) < limit) b a"
  shows "fleet_ok decode cfg limit (map (merge b a) N)"
proof -
  have dist: "distinct (map fn_Name N)" and cons: "\<forall>m \<in> set N. consistent decode cfg m"
    and lim: "int (length (filter (\<lambda>m. in_group m g) N)) \<le> limit" for g
    using ok by (simp_all add: fleet_ok_def)
  have names: "map fn_Name (map (\<lambda>m. if m = b then a else m) N) = map fn_Name N"
    using a by (simp add: computed_def)
  have "int (length (filter (\<lambda>m. in_group m g) (map (\<lambda>m. if m = b then a else m) N))) \<le> limit" for g
  proof -
    have c: "length (filter (\<lambda>m. in_group m g) (map (\<lambda>m. if m = b then a else m) N)) + (if in_group b g then 1 else 0)
        = length (filter (\<lambda>m. in_group m g) N) + (if in_group a g then 1 else 0)"
      by (rule length_filter_replace [OF _ b]) (use dist in \<open>simp add: distinct_map\<close>)
    show ?thesis
    proof (cases "in_group a g \<and> \<not> in_group b g")
      case True
      then have "fn_Group b = g" "maintained a" "\<not> maintained b" using a by (auto simp: in_group_def computed_def)
      with a have "int (length (filter (\<lambda>m. in_group m g) N)) < limit" by (simp add: computed_def)
      with c True show ?thesis by simp
    qed (use c lim [of g] in \<open>auto split: if_splits\<close>)
  qed
  moreover have "distinct (map fn_Name (map (\<lambda>m. if m = b then a else m) N))" unfolding names by (rule dist)
  moreover have "\<forall>m \<in> set (map (\<lambda>m. if m = b then a else m) N). consistent decode cfg m"
    using cons a by (auto simp: computed_def)
  ultimately show ?thesis unfolding merge_computed [OF a dist b] fleet_ok_def by blast
qed

definition poll_quiet :: "('s \<Rightarrow> fleet_node list) \<Rightarrow> 's poller \<Rightarrow> bool" where
  "poll_quiet view poll \<longleftrightarrow> (\<forall>p t cond. quiet view cond \<longrightarrow> quiet view (poll p t cond))"

text \<open>What the runtime promises: the codec reads what it writes and polling only polls.\<close>

definition runtime_ok :: "('s \<Rightarrow> fleet_node list) \<Rightarrow> (string \<Rightarrow> error + data) \<Rightarrow> 's runtime \<Rightarrow> bool" where
  "runtime_ok view decode rt \<longleftrightarrow> cd_decode (rt_codec rt) = decode \<and> poll_quiet view (rt_poll rt)
     \<and> (\<forall>d s. cd_encode (rt_codec rt) d = Inr s \<longrightarrow> s \<noteq> [] \<and> decode s = Inr d)"

lemma pollCacheUpdate_quiet:
  assumes "serves view gs cl" and "poll_quiet view poll"
  shows "quiet view (pollCacheUpdate atoi poll cl name v)"
proof -
  have "quiet view (c_GetNode cl name)" using assms(1) by (simp add: serves_def)
  then have "quiet view (cache_caught_up atoi cl name v)"
    by (auto simp: quiet_def cache_caught_up_def split: prod.splits sum.splits) (metis snd_conv)+
  with assms(2) have "quiet view (poll 20000000 Second (cache_caught_up atoi cl name v))" by (simp add: poll_quiet_def)
  then show ?thesis by (simp add: quiet_def pollCacheUpdate_def)
qed

lemma Reconcile_fleet_ok:
  assumes run: "Reconcile rt cl (Inr y) load name nodes w = Some (r, nodes', w')" and load: "load y = Some (Inr cfg)"
    and cl: "serves view gs cl" and gs: "StateLabelKey \<notin> set gs" and rt: "runtime_ok view decode rt"
    and keep: "leaves_cluster view gs cl cfg" and lim: "limited decode gs limit cfg" and named: "named_by_key (Profiles cfg)"
    and ok: "fleet_ok decode cfg limit (view (w_api w))"
  shows "fleet_ok decode cfg limit (view (w_api w'))"
proof -
  obtain got w1 where got: "api (c_GetNode cl name) w = (got, w1)" by fastforce
  have "quiet view (c_GetNode cl name)" using cl by (simp add: serves_def)
  from api_quiet [OF this got] have w1: "view (w_api w1) = view (w_api w)" .
  show ?thesis
  proof (cases got)
    case (Inl e)
    with run load got w1 ok show ?thesis by (auto simp: Reconcile_def split: if_splits)
  next
    case (Inr n)
    let ?N = "view (w_api w)" and ?b = "summary gs n" and ?w = "w1\<lparr>w_node := n\<rparr>"
    have b: "?b \<in> set ?N"
      using cl got Inr unfolding serves_def api_def by (metis (no_types, lifting) case_prod_beta fst_conv)
    have w: "of_cluster view gs cl ?N ?b ?w"
      using cl gs w1 by (simp add: of_cluster_def summary_def profiles_label_def)
    obtain err nodes2 w2 where int: "reconcileInternal (rt_codec rt) \<lparr>rp_client = cl, rp_config = cfg\<rparr> nodes ?w = Some (err, nodes2, w2)"
      using run load got Inr by (auto simp: Reconcile_def bind_eq_Some_conv)
    have "fn_Data ?b = gm_str (n_Annotations (w_node ?w)) DataAnnotationKey" by (simp add: summary_def)
    note comp = reconcileInternal_computes [OF int w this keep lim named, of]
    have cons: "consistent decode cfg ?b" using ok b by (simp add: fleet_ok_def)
    have w2: "view (w_api w2) = ?N" and a: "err = None \<Longrightarrow>
        computed decode cfg (int (length (filter (\<lambda>m. in_group m (fn_Group ?b)) ?N)) < limit) ?b (summary gs (w_node w2))"
      using comp cons rt by (simp_all add: runtime_ok_def)
    show ?thesis
    proof (cases "err \<noteq> None \<or> rt_DeepEqual rt (w_node w2) n")
      case True
      with run load got Inr int w2 ok show ?thesis by (auto simp: Reconcile_def split: option.splits)
    next
      case False
      obtain patched w3 where patch: "api (c_PatchNode cl (w_node w2) n) w2 = (patched, w3)" by fastforce
      let ?w3 = "case patched of Inl _ \<Rightarrow> w3 | Inr node \<Rightarrow> w3\<lparr>w_node := node\<rparr>"
      have w': "w' = snd (api (pollCacheUpdate (rt_Atoi rt) (rt_poll rt) cl (n_Name (w_node ?w3)) (n_ResourceVersion (w_node ?w3))) ?w3)"
        using run load got Inr int False patch by (simp add: Reconcile_def Let_def case_prod_beta split: sum.splits)
      have "quiet view (pollCacheUpdate (rt_Atoi rt) (rt_poll rt) cl (n_Name (w_node ?w3)) (n_ResourceVersion (w_node ?w3)))"
        using cl rt by (intro pollCacheUpdate_quiet) (simp_all add: runtime_ok_def)
      from api_quiet [OF this prod.collapse [symmetric]] have "view (w_api w') = view (w_api ?w3)" unfolding w' .
      also have "\<dots> = view (w_api w3)" by (simp split: sum.splits)
      also have "\<dots> \<in> {?N, map (merge ?b (summary gs (w_node w2))) ?N}"
        using cl patch w2 unfolding serves_def api_def by (auto simp: case_prod_beta) metis
      finally show ?thesis using patched_ok [OF ok b a] ok False by auto
    qed
  qed
qed

section \<open>Runs of the controller on the cluster\<close>

text \<open>
  Others may add and remove nodes and change them, as long as names stay unique, nodes stay
  consistent, and they put no node into maintenance: what is labelled afterwards was so before,
  in the same group. Reconciliations find the configuration \<open>cfg\<close> in the file.
\<close>

definition others_step :: "(string \<Rightarrow> error + data) \<Rightarrow> ('s, 'c) config \<Rightarrow> fleet_node list \<Rightarrow> fleet_node list \<Rightarrow> bool" where
  "others_step decode cfg N N' \<longleftrightarrow> distinct (map fn_Name N') \<and> (\<forall>m \<in> set N'. consistent decode cfg m
     \<and> (maintained m \<longrightarrow> (\<exists>m0 \<in> set N. fn_Name m0 = fn_Name m \<and> fn_Group m0 = fn_Group m \<and> maintained m0)))"

lemma others_ok:
  assumes ok: "fleet_ok decode cfg limit N" and step: "others_step decode cfg N N'"
  shows "fleet_ok decode cfg limit N'"
proof -
  have "int (length (filter (\<lambda>m. in_group m g) N')) \<le> limit" for g
  proof -
    let ?F = "\<lambda>N. filter (\<lambda>m. in_group m g) N"
    have "distinct (map fn_Name (?F N'))" using step by (simp add: others_step_def distinct_map_filter)
    then have "length (?F N') = card (fn_Name ` set (?F N'))" by (metis distinct_card length_map set_map)
    also have "\<dots> \<le> card (fn_Name ` set (?F N))"
    proof (rule card_mono)
      show "fn_Name ` set (?F N') \<subseteq> fn_Name ` set (?F N)"
      proof
        fix n assume "n \<in> fn_Name ` set (?F N')"
        then obtain m where m: "m \<in> set N'" "in_group m g" "n = fn_Name m" by auto
        with step obtain m0 where "m0 \<in> set N" "fn_Name m0 = fn_Name m" "fn_Group m0 = fn_Group m" "maintained m0"
          unfolding others_step_def in_group_def by blast
        with m show "n \<in> fn_Name ` set (?F N)" by (auto simp: in_group_def intro!: image_eqI [of _ _ m0])
      qed
    qed simp
    also have "\<dots> \<le> length (?F N)" by (metis card_length length_map set_map)
    also have "int \<dots> \<le> limit" using ok by (simp add: fleet_ok_def)
    finally show ?thesis by simp
  qed
  with step show ?thesis by (simp add: fleet_ok_def others_step_def)
qed

inductive fleet_run ::
    "('s \<Rightarrow> fleet_node list) \<Rightarrow> (string \<Rightarrow> error + data) \<Rightarrow> 's runtime \<Rightarrow> 's client \<Rightarrow> ('s, 'c) config \<Rightarrow> 's world \<Rightarrow> 's world \<Rightarrow> bool"
  for view decode rt cl cfg w0 where
  start: "fleet_run view decode rt cl cfg w0 w0"
| reconciled: "fleet_run view decode rt cl cfg w0 w \<Longrightarrow>
    Reconcile rt cl (Inr ()) (\<lambda>_. Some (Inr cfg)) name nodes w = Some (r, nodes', w') \<Longrightarrow> fleet_run view decode rt cl cfg w0 w'"
| others: "fleet_run view decode rt cl cfg w0 w \<Longrightarrow> others_step decode cfg (view (w_api w)) (view (w_api w')) \<Longrightarrow>
    fleet_run view decode rt cl cfg w0 w'"

lemma fleet_run_ok:
  assumes "fleet_run view decode rt cl cfg w0 w" and "serves view gs cl" and "StateLabelKey \<notin> set gs"
    and "runtime_ok view decode rt" and "leaves_cluster view gs cl cfg" and "limited decode gs limit cfg"
    and "named_by_key (Profiles cfg)" and "fleet_ok decode cfg limit (view (w_api w0))"
  shows "fleet_ok decode cfg limit (view (w_api w))"
  using assms(1)
proof (induction rule: fleet_run.induct)
  case (reconciled w name nodes r nodes' w')
  from Reconcile_fleet_ok [OF reconciled.hyps(2) refl assms(2-7) reconciled.IH] show ?case .
qed (use assms(8) others_ok in blast)+

end
