(* ===== verification/FleetProperties.thy ===== *)
theory FleetProperties
  imports Scenario Fleet
begin

text \<open>
  The limit on the nodes in maintenance as a property of the cluster, with its application to a
  cluster of two nodes whose profiles are both due for maintenance, under a limit of one.
\<close>

section \<open>A cluster of two nodes\<close>


























section \<open>The limit\<close>



end
