(* ===== verification/Spec2Isabelle.thy ===== *)
theory Spec2Isabelle
  imports Scenario Progress PluginProperties ServiceProperties FleetProperties
begin

text \<open>
  The maintenance-controller moves Kubernetes nodes through a state machine per maintenance
  profile (operational, maintenance-required, in-maintenance). Plugins decide when a transition
  is due, act on it and notify about it. Two further controllers serve ESX hosts and Kubernikus
  nodes. This development models the sources as Isabelle/HOL functions and proves what the parts
  promise and rely on.

  \<^bold>\<open>How the code is modelled.\<close> A pointer, map or channel operation that panics in Go is
  \<^const>\<open>None\<close> of an option; an \<open>error\<close> value is data of the type \<open>error\<close>, whose
  constructors are the shapes the sources build; a result with an error is a sum or a pair with
  \<open>error option\<close>. Strings are byte lists, Go maps association lists (a \<open>range\<close> visits the
  entries in list order, one of the orders Go allows), with \<^const>\<open>None\<close> for the nil map. Durations and
  int32 seconds wrap by \<open>wrap64\<close> and \<open>wrap32\<close>. Everything outside the process is the server
  state \<open>'s\<close>: each request is an arbitrary function of it, given by the record \<open>client\<close> and by
  the records of the libraries (\<open>govmomi\<close>, \<open>cloud\<close>, \<open>messaging\<close>, \<open>prometheus\<close>, \<open>hypervisors\<close>,
  \<open>web\<close>, \<open>semver\<close>), so failures and the actions of others are covered. The state of the process
  is the record \<open>world\<close>: the node in memory, the clock, metrics, events and plugin state. Logging
  is left out.

  \<^bold>\<open>Theories and sources.\<close>
  \<^item> \<open>Prelude\<close>, \<open>GoTime\<close>, \<open>Cluster\<close>: errors, maps and strings; package \<open>time\<close> and
    \<open>common/weekday.go\<close>; \<open>constants/\<close>, the Kubernetes objects, the API client and the world.
  \<^item> \<open>Metrics\<close>: \<open>metrics/metrics.go\<close>. Recording is all or nothing; touching changes no value.
  \<^item> \<open>Plugins\<close>, \<open>Registry\<close>: \<open>plugin/\<close>. Chains over arbitrary plugins with the locales that say
    what a chain relies on, schedules, and the construction of chains from strings.
  \<^item> \<open>NodeStates\<close>: \<open>state/\<close>. The three node states, \<open>Apply\<close>, the profiles of a node; the lemmas
    invert a run into its stages and give the states reachable from a configuration.
  \<^item> \<open>Config\<close>: \<open>controllers/config.go\<close>, loading and what a loaded configuration guarantees.
  \<^item> \<open>Cache\<close>, \<open>ApiServer\<close>: \<open>cache/cache.go\<close> refining a map, and the information handler of
    \<open>api/server.go\<close>.
  \<^item> \<open>Handler\<close>, \<open>Safety\<close>, \<open>Progress\<close>: \<open>controllers/node_handler.go\<close> and \<open>node_controller.go\<close>; runs
    of the controller, their invariants, the absence of panics, and the abstract machine over all
    profiles of a node that a reconciliation refines when the plugins cooperate.
  \<^item> \<open>Fleet\<close>: the controller on all nodes of a cluster. The locale \<open>world_invariant\<close> lifts a
    predicate that the plugins, the metrics and the handlers keep to a whole reconciliation; it is
    interpreted on the nodes that the API server has, seen through a function \<open>view\<close>.
  \<^item> \<open>NodePlugins\<close>, \<open>TimePlugins\<close>, \<open>ClusterPlugins\<close>, \<open>Queries\<close>, \<open>Notifiers\<close>: \<open>plugin/impl/\<close>, by what
    the plugins depend on; each check is shown to keep the node, which interprets the locale of
    check chains.
  \<^item> \<open>Drain\<close>: \<open>common/schedule.go\<close>, \<open>common/version.go\<close> and \<open>plugin/impl/eviction.go\<close>. The locale
    \<open>drain_relation\<close> lifts a relation kept by the requests of a drain to the whole of it.
  \<^item> \<open>Waiting\<close>: the goroutines and the channel of \<open>common/schedule.go\<close>, as steps chosen by a
    schedule; the locale \<open>bounded_waiter\<close> bounds the executions of waiters that return.
  \<^item> \<open>Server\<close>: routing, start and shutdown of \<open>api/server.go\<close>, as steps over a sequence of events.
  \<^item> \<open>MainProgram\<close>: \<open>main.go\<close>, \<open>common/cache.go\<close>, the registration of the controllers with the
    manager, the loading of the configurations of the integrations and the loop of the ESX runnable.
  \<^item> \<open>Esx\<close>, \<open>Kubernikus\<close>: \<open>esx/\<close>, \<open>kubernikus/\<close>, \<open>common/openstack.go\<close> and the node count of
    \<open>plugin/impl/kubernikus.go\<close>.
  \<^item> \<open>Scenario\<close>, \<open>PluginProperties\<close>, \<open>ServiceProperties\<close>, \<open>FleetProperties\<close> and this theory:
    concrete objects, and the properties, each with an application to concrete objects when it has hypotheses. The properties
    of the core are here, those of the plugins and of the two other controllers in
    \<open>PluginProperties\<close>, those of the waiting, the server and the program in \<open>ServiceProperties\<close>,
    and the limit on the nodes in maintenance in \<open>FleetProperties\<close>.

  \<^bold>\<open>What is shown.\<close> A reconciliation moves profiles only along configured transitions whose
  checks passed and after their triggers ran; an error moves nothing; a second profile does not
  enter maintenance while one is in it; recorded states stay valid along every run; nothing
  panics as long as the plugins return and leave the profile label alone. With plugins that also
  report no error a reconciliation is exactly a step of the abstract machine, so a single profile
  goes through the whole cycle of maintenance. When every transition into maintenance is checked
  by \<open>maxMaintenance\<close>, its limit holds for the whole cluster along every run: reconciliations come
  one after the other, as the controller has a single worker, the list of nodes is up to date, and
  others put no node into maintenance. Draining ends exactly
  when no drainable pod is left, a profile that drains on entering a state stays there until then,
  and the two other controllers switch off or delete a virtual machine only after that. Staggering, limits, affinity, time windows and waiting are
  characterised exactly. The data written is the data read back, the cache refines a map, and
  validated hypervisor fields cannot make the plugins panic. Waiting for pods returns under every
  schedule, never sends on the closed channel, and returns nil only if each pod was seen to be
  gone; the server waits for a last scrape or its timeout before it shuts down; the manager runs
  exactly what the command line asks for. Some theorems show what the code
  does where that is not what its documentation says: two profiles entering together, the
  triggers of a transition with the same target, schedules that compare days of the month, a
  wait that un-passes, and a trigger that stops the controller.

  \<^bold>\<open>Bounds.\<close> No function needs fuel: loops over lists are structural, the loop of \<open>WaitExclude\<close>
  has a termination proof, and the polling helpers of the libraries are parameters. The goroutine
  of a pod carries the number of requests that the period and the timeout of \<open>PollImmediate\<close>
  allow; executions of \<open>waitParallel\<close> are bounded by their sum. The polling of the server counts
  its evaluations against its timeout. The loop of the ESX runnable takes the number of its rounds
  until the context is done as an argument. Laws of a parameter are hypotheses of the theorem that
  uses them, such as a client whose requests do not change what the vCenter keeps.

  \<^bold>\<open>Not modelled.\<close> Logging (with \<open>checkReady\<close> of \<open>common/schedule.go\<close>, which does nothing else),
  imports and the registration of object types in \<open>init\<close> of \<open>main.go\<close>, and the inside of the
  libraries: controller-runtime behind the manager and the client, net/http behind the routing,
  the content of metrics pages and static files, the flags of libraries. Decoding of YAML, JSON,
  INI and templates and the compilation of check expressions are parameters. Requests to the server
  are atomic steps, so data races on its counter are not visible.
\<close>

section \<open>Reconciliation of a node\<close>

text \<open>
  C1: A successful reconciliation changes the entry of a profile only as the state machine
  allows. The entry is untouched (its \<open>Enter\<close> chain asked for a retry), or the state the
  profile was in becomes \<open>Previous\<close> and \<open>Current\<close> stays (with the transition time) or
  follows a transition configured for that state of that profile; it becomes
  \<open>in-maintenance\<close> only if no profile of the node was in maintenance.
\<close>

theorem HandleNode_follows_state_machine:
  assumes "HandleNode rp h = Some (None, h')" and "named_by_key (Profiles (rp_config rp))"
    and "distinct (strings_Split (or_default (profiles_label (hs_world h))) profileSeparator)"
    and "n \<in> label_names (profiles_label (hs_world h))"
    and "gm_get (d_Profiles (hs_data h)) n = Some (Some pd)"
  shows "\<exists>pd'. gm_get (d_Profiles (hs_data h')) n = Some (Some pd') \<and>
    profile_step (rp_config rp) (in_maintenance (rp_config rp) (profiles_label (hs_world h)) (hs_data h)) n pd pd'"
  using HandleNode_step [OF assms] .

lemma split_ab: "strings_Split (or_default ''a--b'') profileSeparator = [''a'', ''b'']"
  by code_simp

lemma split_a: "strings_Split (or_default ''a'') profileSeparator = [''a'']"
  by code_simp

theorem HandleNode_follows_state_machine_witness:
  "\<exists>h' pd'. HandleNode (demo_rp [cycle_profile ''a'' [], cycle_profile ''b'' []])
       (demo_state ''a--b'' [(''a'', InMaintenance, Required), (''b'', Required, Operational)]) = Some (None, h')
     \<and> gm_get (d_Profiles (hs_data h')) ''b'' = Some (Some pd')
     \<and> profile_step (demo_config [cycle_profile ''a'' [], cycle_profile ''b'' []]) True ''b''
         \<lparr>pd_Transition = zero_time, pd_Current = Required, pd_Previous = Operational\<rparr> pd'"
proof -
  let ?ps = "[cycle_profile ''a'' [], cycle_profile ''b'' []]"
  let ?h = "demo_state ''a--b'' [(''a'', InMaintenance, Required), (''b'', Required, Operational)]"
  have "observe [''a'', ''b''] (HandleNode (demo_rp ?ps) ?h)
      = Some (True, [Some (Operational, InMaintenance), Some (Required, Required)])"
    by code_simp
  then obtain h' where run: "HandleNode (demo_rp ?ps) ?h = Some (None, h')"
    by (auto elim: observe_ok)
  have "in_maintenance (demo_config ?ps) ''a--b''
      (demo_data [(''a'', InMaintenance, Required), (''b'', Required, Operational)])"
    by (auto simp: in_maintenance_def label_names_def split_ab demo_config_def demo_data_def
        gm_get_def cycle_profile_def)
  with HandleNode_follows_state_machine [OF run, of "''b''"
      "\<lparr>pd_Transition = zero_time, pd_Current = Required, pd_Previous = Operational\<rparr>"] run
  show ?thesis
    by (auto simp: demo_config_named label_names_def split_ab demo_data_def gm_get_def)
qed

text \<open>
  C3: A reconciliation that reports an error moves no profile: every profile of the node keeps
  the entry it had, so a later reconciliation starts from the same states.
\<close>

theorem HandleNode_error_moves_nothing:
  assumes "HandleNode rp h = Some (Some e, h')" and "named_by_key (Profiles (rp_config rp))"
    and "n \<in> label_names (profiles_label (hs_world h))"
    and "gm_get (d_Profiles (hs_data h)) n = Some pd"
  shows "gm_get (d_Profiles (hs_data h')) n = Some pd"
  using HandleNode_error_keeps [OF assms] .

theorem HandleNode_error_moves_nothing_witness:
  "\<exists>h' e. HandleNode (demo_rp [cycle_profile ''a'' [], cycle_profile ''b'' [demo_trigger (Some (ErrorString ''x''))]])
       (demo_state ''a--b'' [(''a'', Operational, Operational), (''b'', InMaintenance, Required)]) = Some (Some e, h')
     \<and> gm_get (d_Profiles (hs_data h')) ''a''
       = Some (Some \<lparr>pd_Transition = zero_time, pd_Current = Operational, pd_Previous = Operational\<rparr>)"
proof -
  let ?ps = "[cycle_profile ''a'' [], cycle_profile ''b'' [demo_trigger (Some (ErrorString ''x''))]]"
  let ?h = "demo_state ''a--b'' [(''a'', Operational, Operational), (''b'', InMaintenance, Required)]"
  have "observe [''a'', ''b''] (HandleNode (demo_rp ?ps) ?h)
      = Some (False, [Some (Operational, Operational), Some (InMaintenance, Required)])"
    by code_simp
  then obtain h' e where run: "HandleNode (demo_rp ?ps) ?h = Some (Some e, h')"
    by (auto elim: observe_ok)
  from HandleNode_error_moves_nothing [OF run, of "''a''"] run show ?thesis
    by (auto simp: demo_config_named label_names_def split_ab demo_data_def gm_get_def)
qed

text \<open>
  C2: While one profile of the node is in maintenance, a successful reconciliation lets no
  other profile of the node enter maintenance.
\<close>

theorem no_second_profile_enters_maintenance:
  assumes "HandleNode rp h = Some (None, h')" and "named_by_key (Profiles (rp_config rp))"
    and "distinct (strings_Split (or_default (profiles_label (hs_world h))) profileSeparator)"
    and "in_maintenance (rp_config rp) (profiles_label (hs_world h)) (hs_data h)"
    and "n \<in> label_names (profiles_label (hs_world h))"
    and "gm_get (d_Profiles (hs_data h)) n = Some (Some pd)" and "pd_Current pd \<noteq> InMaintenance"
  shows "\<exists>pd'. gm_get (d_Profiles (hs_data h')) n = Some (Some pd') \<and> pd_Current pd' \<noteq> InMaintenance"
  using HandleNode_step [OF assms(1-3,5,6)] assms(4,7) by (auto simp: profile_step_def)

theorem no_second_profile_enters_maintenance_witness:
  "\<exists>h' pd'. HandleNode (demo_rp [cycle_profile ''a'' [demo_trigger (Some (RetryError ''x''))], cycle_profile ''b'' []])
       (demo_state ''a--b'' [(''a'', InMaintenance, Required), (''b'', Required, Operational)]) = Some (None, h')
     \<and> gm_get (d_Profiles (hs_data h')) ''b'' = Some (Some pd') \<and> pd_Current pd' \<noteq> InMaintenance"
proof -
  let ?ps = "[cycle_profile ''a'' [demo_trigger (Some (RetryError ''x''))], cycle_profile ''b'' []]"
  let ?h = "demo_state ''a--b'' [(''a'', InMaintenance, Required), (''b'', Required, Operational)]"
  have "observe [''a'', ''b''] (HandleNode (demo_rp ?ps) ?h)
      = Some (True, [Some (InMaintenance, Required), Some (Required, Required)])"
    by code_simp
  then obtain h' where run: "HandleNode (demo_rp ?ps) ?h = Some (None, h')"
    by (auto elim: observe_ok)
  have "in_maintenance (demo_config ?ps) ''a--b''
      (demo_data [(''a'', InMaintenance, Required), (''b'', Required, Operational)])"
    by (auto simp: in_maintenance_def label_names_def split_ab demo_config_def demo_data_def
        gm_get_def cycle_profile_def)
  with no_second_profile_enters_maintenance [OF run, of "''b''"
      "\<lparr>pd_Transition = zero_time, pd_Current = Required, pd_Previous = Operational\<rparr>"] run
  show ?thesis
    by (auto simp: demo_config_named label_names_def split_ab demo_data_def gm_get_def)
qed

text \<open>
  C9: Reconciliation does not panic: with plugins that return and leave the profile label
  alone, profiles stored under their names, initialised maps and no nil entries in the data,
  \<open>HandleNode\<close> returns.
\<close>

theorem HandleNode_no_panic:
  assumes "config_returns same_label (rp_config rp)" and "named_by_key (Profiles (rp_config rp))"
    and "no_nil_profiles (hs_data h)" and "d_Notifications (hs_data h) \<noteq> None" and "hs_cache h \<noteq> None"
  shows "\<exists>err h'. HandleNode rp h = Some (err, h')"
  using keep_label.HandleNode_returns [OF assms] .

theorem HandleNode_no_panic_witness:
  "\<exists>err h'. HandleNode (demo_rp [cycle_profile ''a'' [demo_trigger (Some (ErrorString ''x''))]])
     (demo_state ''a'' [(''a'', InMaintenance, Required)]) = Some (err, h')"
proof (rule HandleNode_no_panic)
  show "config_returns same_label
      (rp_config (demo_rp [cycle_profile ''a'' [demo_trigger (Some (ErrorString ''x''))]]))"
    using cycle_profile_returns [of same_label "''a''" "[Some (ErrorString ''x'')]"] by (simp add: same_label_def)
  show "no_nil_profiles (hs_data (demo_state ''a'' [(''a'', InMaintenance, Required)]))"
    by (simp, rule data_ok_no_nil, rule demo_data_ok) (simp add: valid_labels_def)
qed (simp_all add: demo_config_named demo_data_def)

text \<open>
  C8: Along every run of the controller on a node, with any number of reconciliations under
  well-formed configurations and any changes by others in between, the recorded current and
  previous state of every profile is one of the three states and no entry is nil.
\<close>

theorem node_run_keeps_valid_states:
  assumes "node_run cfgs h0 h" and "\<forall>cfg \<in> cfgs. config_ok cfg" and "data_ok (hs_data h0)"
  shows "data_ok (hs_data h)"
  using node_run_data_ok [OF assms] .

theorem node_run_keeps_valid_states_witness:
  "\<exists>h. node_run {demo_config [cycle_profile ''a'' []]} (demo_state ''a'' [(''a'', Required, Operational)]) h
     \<and> observe [''a''] (Some (None, h)) = Some (True, [Some (InMaintenance, Required)]) \<and> data_ok (hs_data h)"
proof -
  let ?cfg = "demo_config [cycle_profile ''a'' []]"
  let ?h = "demo_state ''a'' [(''a'', Required, Operational)]"
  obtain h' where h: "HandleNode (demo_rp [cycle_profile ''a'' []]) ?h = Some (None, h')"
    using cycle_run(2) by (auto elim: observe_ok)
  then have run: "node_run {?cfg} ?h h'"
    by (intro node_run.reconciled [OF node_run.start, of "demo_rp [cycle_profile ''a'' []]"]) simp_all
  have "data_ok (hs_data h')"
  proof (rule node_run_keeps_valid_states [OF run])
    show "\<forall>cfg \<in> {?cfg}. config_ok cfg" by (simp add: demo_config_ok cycle_profile_ok)
    show "data_ok (hs_data ?h)"
      unfolding demo_state_simps by (rule demo_data_ok) (simp add: valid_labels_def)
  qed
  with run h cycle_run(2) show ?thesis by auto
qed

section \<open>Progress\<close>

text \<open>
  The sample configurations return, are well formed and cooperate with the verdict that every
  check passes.
\<close>

definition all_pass :: verdicts where
  "all_pass = (\<lambda>_ _. [True])"

lemma cycle_profiles_return: "config_returns same_label (demo_config (map (\<lambda>n. cycle_profile n []) ns))"
  unfolding config_returns_def demo_config_def config.select_convs
  by (intro gm_all_Some)
    (auto simp: demo_defs chains_return_def triggers_return_def checks_return_def returns_def same_label_def)

lemma cycle_profiles_cooperate: "cooperative all_pass (demo_config (map (\<lambda>n. cycle_profile n []) ns))"
  unfolding cooperative_def demo_config_def config.select_convs
  by (intro gm_all_Some)
    (auto simp: demo_defs cooperative_chains_def never_fails_def answers_def all_pass_def CheckChain_Execute_def
      Passed_def PassedWithReason_def split: if_splits)

lemma cycle_profiles_ok: "config_ok (demo_config (map (\<lambda>n. cycle_profile n []) ns))"
  by (intro demo_config_ok) (auto simp: cycle_profile_ok)

lemma demo_state_ready:
  "\<forall>(n, cur, prev) \<in> set es. cur \<in> valid_labels \<and> prev \<in> valid_labels \<Longrightarrow> ready (demo_state s es)"
  using demo_data_ok [of es] by (simp add: ready_def) (simp add: demo_data_def)

text \<open>
  C13: The reconciliation of a node refines one step of a machine that moves all profiles at once,
  each along its first transition whose check passes and into maintenance only if no profile was
  there: with plugins that return, leave the profile label alone, report no error and give the
  verdicts, \<open>HandleNode\<close> succeeds, the states it records are those of the machine, and it can be
  repeated.
\<close>

theorem HandleNode_refines_machine:
  assumes "config_returns same_label (rp_config rp)" and "config_ok (rp_config rp)"
    and "cooperative verdict (rp_config rp)" and "ready h"
    and "distinct (strings_Split (or_default (profiles_label (hs_world h))) profileSeparator)"
  shows "\<exists>h'. HandleNode rp h = Some (None, h') \<and> ready h'
    \<and> (\<forall>n \<in> active (rp_config rp) (profiles_label (hs_world h)). abs_state (hs_data h') n =
         machine_step (rp_config rp) (profiles_label (hs_world h)) verdict (abs_state (hs_data h)) n)"
  using HandleNode_refines [OF assms] by blast

lemma active_demo:
  "active (demo_config (map (\<lambda>n. cycle_profile n []) ns)) s = label_names s \<inter> set ns"
  by (auto simp: active_def demo_config_def gm_get_def map_of_eq_None_iff image_image cycle_profile_def)

lemma demo_profile:
  "n \<in> set ns \<Longrightarrow> gm_get (Profiles (demo_config (map (\<lambda>n. cycle_profile n []) ns))) n = Some (cycle_profile n [])"
  by (induction ns) (auto simp: demo_config_def gm_get_def cycle_profile_def)

lemma cycle_profile_moves:
  "move (cycle_profile n []) [True] False Operational = Required"
  "move (cycle_profile n []) [True] False Required = InMaintenance"
  "move (cycle_profile n []) [True] True Required = Required"
  "move (cycle_profile n []) [True] True InMaintenance = Operational"
  by (simp_all add: move_def demo_defs)

lemma abs_state_demo:
  "abs_state (demo_data es) n = (case map_of es n of Some (cur, prev) \<Rightarrow> cur | None \<Rightarrow> Operational)"
  by (induction es) (auto simp: abs_state_def demo_data_def gm_get_def)

theorem HandleNode_refines_machine_witness:
  "\<exists>h'. HandleNode (demo_rp (map (\<lambda>n. cycle_profile n []) [''a'', ''b'']))
       (demo_state ''a--b'' [(''a'', InMaintenance, Required), (''b'', Required, Operational)]) = Some (None, h')
     \<and> abs_state (hs_data h') ''a'' = Operational \<and> abs_state (hs_data h') ''b'' = Required"
proof -
  let ?ns = "[''a'', ''b'']" and ?h = "demo_state ''a--b'' [(''a'', InMaintenance, Required), (''b'', Required, Operational)]"
  let ?cfg = "demo_config (map (\<lambda>n. cycle_profile n []) ?ns)" and ?s = "abs_state (demo_data [(''a'', InMaintenance, Required), (''b'', Required, Operational)])"
  have act: "active ?cfg ''a--b'' = {''a'', ''b''}" unfolding active_demo by (auto simp: label_names_def split_ab)
  have s: "?s ''a'' = InMaintenance" "?s ''b'' = Required" by (simp_all add: abs_state_demo)
  have "ready ?h" by (rule demo_state_ready) (simp add: valid_labels_def)
  with HandleNode_refines_machine [of "demo_rp (map (\<lambda>n. cycle_profile n []) ?ns)" all_pass ?h]
    cycle_profiles_return [of ?ns] cycle_profiles_ok [of ?ns] cycle_profiles_cooperate [of ?ns]
  obtain h' where h': "HandleNode (demo_rp (map (\<lambda>n. cycle_profile n []) ?ns)) ?h = Some (None, h')"
    "\<forall>n \<in> {''a'', ''b''}. abs_state (hs_data h') n = machine_step ?cfg ''a--b'' all_pass ?s n"
    by (auto simp: split_ab act simp del: list.map)
  have "machine_step ?cfg ''a--b'' all_pass ?s ''a'' = Operational" "machine_step ?cfg ''a--b'' all_pass ?s ''b'' = Required"
    unfolding machine_step_def act by (simp_all add: s demo_profile all_pass_def cycle_profile_moves del: list.map)
  with h' show ?thesis by auto
qed

text \<open>
  C40: The guard that keeps a second profile out of maintenance looks at the states before the
  reconciliation: if no profile is in maintenance and two profiles are both about to go from
  \<open>maintenance-required\<close> into maintenance, they enter it together in one reconciliation.
\<close>

theorem two_profiles_enter_together:
  assumes "config_returns same_label (rp_config rp)" and "config_ok (rp_config rp)"
    and "cooperative verdict (rp_config rp)" and "ready h"
    and "distinct (strings_Split (or_default (profiles_label (hs_world h))) profileSeparator)"
    and "\<forall>n \<in> active (rp_config rp) (profiles_label (hs_world h)). abs_state (hs_data h) n \<noteq> InMaintenance"
    and "{a, b} \<subseteq> active (rp_config rp) (profiles_label (hs_world h))"
    and "\<forall>n \<in> {a, b}. abs_state (hs_data h) n = Required
      \<and> move (the (gm_get (Profiles (rp_config rp)) n)) (verdict n Required) False Required = InMaintenance"
  shows "\<exists>h'. HandleNode rp h = Some (None, h')
    \<and> abs_state (hs_data h') a = InMaintenance \<and> abs_state (hs_data h') b = InMaintenance"
proof -
  obtain h' where h': "HandleNode rp h = Some (None, h')"
    "\<forall>n \<in> active (rp_config rp) (profiles_label (hs_world h)). abs_state (hs_data h') n =
       machine_step (rp_config rp) (profiles_label (hs_world h)) verdict (abs_state (hs_data h)) n"
    using HandleNode_refines [OF assms(1-5)] by blast
  have none: "\<not> (\<exists>m \<in> active (rp_config rp) (profiles_label (hs_world h)). abs_state (hs_data h) m = InMaintenance)"
    using assms(6) by blast
  have "abs_state (hs_data h') n = InMaintenance" if "n \<in> {a, b}" for n
    using that h'(2) assms(7,8) none by (auto simp: machine_step_def)
  with h'(1) show ?thesis by blast
qed

theorem two_profiles_enter_together_witness:
  "\<exists>h'. HandleNode (demo_rp (map (\<lambda>n. cycle_profile n []) [''a'', ''b'']))
       (demo_state ''a--b'' [(''a'', Required, Operational), (''b'', Required, Operational)]) = Some (None, h')
     \<and> abs_state (hs_data h') ''a'' = InMaintenance \<and> abs_state (hs_data h') ''b'' = InMaintenance"
proof -
  let ?ns = "[''a'', ''b'']" and ?h = "demo_state ''a--b'' [(''a'', Required, Operational), (''b'', Required, Operational)]"
  let ?cfg = "demo_config (map (\<lambda>n. cycle_profile n []) ?ns)"
  have act: "active ?cfg ''a--b'' = {''a'', ''b''}" unfolding active_demo by (auto simp: label_names_def split_ab)
  have s: "abs_state (demo_data [(''a'', Required, Operational), (''b'', Required, Operational)]) ''a'' = Required"
    "abs_state (demo_data [(''a'', Required, Operational), (''b'', Required, Operational)]) ''b'' = Required"
    by (simp_all add: abs_state_demo)
  have "ready ?h" by (rule demo_state_ready) (simp add: valid_labels_def)
  with two_profiles_enter_together [of "demo_rp (map (\<lambda>n. cycle_profile n []) ?ns)" all_pass ?h "''a''" "''b''"]
    cycle_profiles_return [of ?ns] cycle_profiles_ok [of ?ns] cycle_profiles_cooperate [of ?ns]
  show ?thesis
    by (simp add: act s demo_profile all_pass_def cycle_profile_moves split_ab del: list.map)
qed

text \<open>
  C14: A node that carries one profile, whose checks pass in turn, goes through the whole cycle of
  maintenance: after any number \<open>k\<close> of reconciliations it is in the state that the cycle has at
  \<open>k\<close>, so it is in maintenance after two and operational again after three.
\<close>

theorem maintenance_cycle:
  assumes "config_returns same_label (rp_config rp)" and "config_ok (rp_config rp)"
    and "cooperative verdict (rp_config rp)" and "ready h"
    and "distinct (strings_Split (or_default (profiles_label (hs_world h))) profileSeparator)"
    and "active (rp_config rp) (profiles_label (hs_world h)) = {a}" and "gm_get (Profiles (rp_config rp)) a = Some pf"
    and "move pf (verdict a Operational) False Operational = Required"
    and "move pf (verdict a Required) False Required = InMaintenance"
    and "move pf (verdict a InMaintenance) True InMaintenance = Operational"
    and "abs_state (hs_data h) a = Operational"
  shows "\<exists>h'. reconcile_n rp k h = Some h' \<and> abs_state (hs_data h') a = cycle k"
  using reconcile_n_refines [OF assms(1-5), of k]
    machine_cycle [where s = "abs_state (hs_data h)" and verdict = verdict and k = k, OF assms(6-11)] assms(6) by auto

theorem maintenance_cycle_witness:
  "\<exists>h'. reconcile_n (demo_rp (map (\<lambda>n. cycle_profile n []) [''a''])) 5 (demo_state ''a'' []) = Some h'
     \<and> abs_state (hs_data h') ''a'' = InMaintenance"
proof -
  let ?ns = "[''a'']" and ?h = "demo_state ''a'' []"
  let ?cfg = "demo_config (map (\<lambda>n. cycle_profile n []) ?ns)"
  have act: "active ?cfg ''a'' = {''a''}" unfolding active_demo by (auto simp: label_names_def split_a)
  have s: "abs_state (demo_data []) ''a'' = Operational" by (simp add: abs_state_demo)
  have "ready ?h" by (rule demo_state_ready) simp
  with maintenance_cycle [of "demo_rp (map (\<lambda>n. cycle_profile n []) ?ns)" all_pass ?h "''a''" "cycle_profile ''a'' []" 5]
    cycle_profiles_return [of ?ns] cycle_profiles_ok [of ?ns] cycle_profiles_cooperate [of ?ns]
  show ?thesis
    by (simp add: act s demo_profile all_pass_def cycle_profile_moves split_a cycle_def del: list.map)
qed

section \<open>Applying a state\<close>


definition watch :: "((apply_result \<times> error option) \<times> data \<times> 's world) option \<Rightarrow> (NodeStateLabel \<times> bool \<times> nat) option" where
  "watch res = map_option (\<lambda>((r, err), d, w). (ar_Next r, err = None, length (w_failures w))) res"

lemma watchE:
  assumes "watch res = Some (l, b, n)"
  obtains r err d w where "res = Some ((r, err), d, w)" "ar_Next r = l" "b \<longleftrightarrow> err = None" "n = length (w_failures w)"
  using assms by (cases res) (auto simp: watch_def)


text \<open>
  C11: When \<open>Apply\<close> reports an error, the next state is the current one and the states of
  all profiles are left as they were.
\<close>

theorem Apply_error_stays:
  assumes "Apply st d p w = Some ((r, Some e), d', w')"
  shows "ar_Next r = NodeState_Label st \<and> d_Profiles d' = d_Profiles d"
  using assms by (cases rule: Apply_stages) auto

theorem Apply_error_stays_witness:
  "\<exists>r e d' w'. Apply (newOperational (demo_chains [] [edge broken_chain [] Required, edge (demo_chain True) [] Required]))
       (demo_data [(''a'', Operational, Operational)]) (demo_params ''a'' False) (demo_world ''a'')
       = Some ((r, Some e), d', w') \<and> ar_Next r = Operational
     \<and> d_Profiles d' = d_Profiles (demo_data [(''a'', Operational, Operational)])"
proof -
  let ?st = "newOperational (demo_chains [] [edge broken_chain [] Required, edge (demo_chain True) [] Required])"
  let ?run = "Apply ?st (demo_data [(''a'', Operational, Operational)]) (demo_params ''a'' False) (demo_world ''a'')"
  have "watch ?run = Some (Operational, False, 1)" by code_simp
  then obtain r e d' w' where run: "?run = Some ((r, Some e), d', w')" by (auto elim: watchE)
  from Apply_error_stays [OF run] run show ?thesis by (auto simp: newOperational_def)
qed






definition drain_rp :: "pod list \<Rightarrow> (unit, unit) reconcile_params" where
  "drain_rp pods = \<lparr>rp_client = demo_cluster [] pods, rp_config = demo_config
     [cycle_profile ''a'' [\<lparr>ti_Plugin = Eviction demo_semver drain_eviction, ti_Name = ''drain''\<rparr>]]\<rparr>"

text \<open>The transition out of maintenance would pass: without pods the profile leaves.\<close>

lemma drain_rp_leaves:
  "observe [''a''] (ApplyProfiles (drain_rp []) (demo_state ''a'' [(''a'', InMaintenance, Required)]))
     = Some (True, [Some (Operational, InMaintenance)])"
  by code_simp


lemma most_critical_image:
  "most_critical pss = (if InMaintenance \<in> ps_State ` set pss then InMaintenance
     else if Required \<in> ps_State ` set pss then Required else Operational)"
  by (force simp: most_critical_def)

text \<open>
  C23: After a successful reconciliation the state label of the node is the most critical state
  of its profiles: \<open>in-maintenance\<close> if one of them is in maintenance, otherwise
  \<open>maintenance-required\<close> if one of them requires it, otherwise \<open>operational\<close>.
\<close>

theorem state_label_is_most_critical:
  assumes "HandleNode rp h = Some (None, h')"
  shows "\<exists>pss. GetProfilesWithState (hs_data h') (profiles_label (hs_world h')) (Profiles (rp_config rp)) = Some pss
    \<and> gm_get (n_Labels (w_node (hs_world h'))) StateLabelKey = Some (
        if InMaintenance \<in> ps_State ` set pss then InMaintenance
        else if Required \<in> ps_State ` set pss then Required else Operational)"
  using assms
proof (cases rule: HandleNode_stages)
  case (1 d1 w0 w1 err2 h2)
  then have "UpdateMaintenanceStateLabel rp h2 = Some (None, h')" by auto
  then obtain pss where pss: "GetProfilesWithState (hs_data h2) (profiles_label (hs_world h2)) (Profiles (rp_config rp)) = Some pss"
    and d: "hs_data h' = hs_data h2"
    and l: "gm_get (n_Labels (w_node (hs_world h'))) =
      (gm_get (n_Labels (w_node (hs_world h2))))(StateLabelKey \<mapsto> most_critical pss)"
    by (rule UpdateMaintenanceStateLabel_Some)
  have "profiles_label (hs_world h') = profiles_label (hs_world h2)"
    using l by (simp add: profiles_label_def gm_str_def)
  with pss d l show ?thesis by (simp add: most_critical_image)
qed

theorem state_label_is_most_critical_witness:
  "\<exists>h' pss. HandleNode (demo_rp [cycle_profile ''a'' []]) (demo_state ''a'' [(''a'', Required, Operational)]) = Some (None, h')
     \<and> GetProfilesWithState (hs_data h') (profiles_label (hs_world h')) (Profiles (demo_config [cycle_profile ''a'' []])) = Some pss
     \<and> gm_get (n_Labels (w_node (hs_world h'))) StateLabelKey = Some (
         if InMaintenance \<in> ps_State ` set pss then InMaintenance
         else if Required \<in> ps_State ` set pss then Required else Operational)"
proof -
  let ?run = "HandleNode (demo_rp [cycle_profile ''a'' []]) (demo_state ''a'' [(''a'', Required, Operational)])"
  have "observe [''a''] ?run = Some (True, [Some (InMaintenance, Required)])" by code_simp
  then obtain h' where h: "?run = Some (None, h')" by (auto elim: observe_ok)
  from state_label_is_most_critical [OF h] obtain pss where
    "GetProfilesWithState (hs_data h') (profiles_label (hs_world h')) (Profiles (demo_config [cycle_profile ''a'' []])) = Some pss"
    "gm_get (n_Labels (w_node (hs_world h'))) StateLabelKey = Some (
         if InMaintenance \<in> ps_State ` set pss then InMaintenance
         else if Required \<in> ps_State ` set pss then Required else Operational)"
    unfolding demo_rp_config by blast
  with h show ?thesis by (intro exI conjI)
qed

section \<open>Profiles and states of a node\<close>

text \<open>
  C24: \<open>MaintainProfileStates\<close> never panics. Afterwards the data has an entry for exactly the
  names in the profile label that had one or are configured: kept entries are unchanged,
  entries of names no longer in the label are gone, new ones start in \<open>operational\<close> with a
  transition time taken during the call. Notifications, node and cluster are untouched.
\<close>

theorem MaintainProfileStates_tracks_label:
  assumes "named_by_key available"
  shows "\<exists>d' w'. MaintainProfileStates d s available w = Some (d', w')
    \<and> (\<forall>n. if n \<in> label_names s then
          (case gm_get (d_Profiles d) n of
             Some x \<Rightarrow> gm_get (d_Profiles d') n = Some x
           | None \<Rightarrow> if gm_get available n \<noteq> None
                     then \<exists>pd. gm_get (d_Profiles d') n = Some (Some pd) \<and> fresh_profile w w' pd
                     else gm_get (d_Profiles d') n = None)
        else gm_get (d_Profiles d') n = None)
    \<and> d_Notifications d' = d_Notifications d \<and> w_node w' = w_node w \<and> w_api w' = w_api w"
proof -
  obtain d' w' where run: "MaintainProfileStates d s available w = Some (d', w')"
    using MaintainProfileStates_total by blast
  with MaintainProfileStates_get [OF run assms] MaintainProfileStates_frame [OF run] show ?thesis
    by (intro exI [of _ d'] exI [of _ w'] conjI allI) blast+
qed

theorem MaintainProfileStates_tracks_label_witness:
  "\<exists>d' w' pd. MaintainProfileStates (demo_data [(''old'', InMaintenance, Required), (''a'', Required, Operational)]) ''a--b''
       (Profiles (demo_config [cycle_profile ''a'' [], cycle_profile ''b'' []])) (demo_world ''a--b'') = Some (d', w')
     \<and> gm_get (d_Profiles d') ''old'' = None
     \<and> gm_get (d_Profiles d') ''a'' = Some (Some \<lparr>pd_Transition = zero_time, pd_Current = Required, pd_Previous = Operational\<rparr>)
     \<and> gm_get (d_Profiles d') ''b'' = Some (Some pd) \<and> pd_Current pd = Operational"
proof -
  let ?d = "demo_data [(''old'', InMaintenance, Required), (''a'', Required, Operational)]"
  let ?av = "Profiles (demo_config [cycle_profile ''a'' [], cycle_profile ''b'' []])"
  have split: "strings_Split (or_default ''a--b'') profileSeparator = [''a'', ''b'']" by code_simp
  then have names: "label_names ''a--b'' = {''a'', ''b''}" by (simp add: label_names_def)
  have av: "gm_get ?av ''b'' \<noteq> None" by (simp add: demo_config_def cycle_profile_def gm_get_def)
  have old: "gm_get (d_Profiles ?d) ''a'' = Some (Some \<lparr>pd_Transition = zero_time, pd_Current = Required, pd_Previous = Operational\<rparr>)"
    "gm_get (d_Profiles ?d) ''b'' = None" by (simp_all add: demo_data_def gm_get_def)
  obtain d' w' where run: "MaintainProfileStates ?d ''a--b'' ?av (demo_world ''a--b'') = Some (d', w')"
    and spec: "\<And>n. if n \<in> label_names ''a--b'' then
          (case gm_get (d_Profiles ?d) n of
             Some x \<Rightarrow> gm_get (d_Profiles d') n = Some x
           | None \<Rightarrow> if gm_get ?av n \<noteq> None
                     then \<exists>pd. gm_get (d_Profiles d') n = Some (Some pd) \<and> fresh_profile (demo_world ''a--b'') w' pd
                     else gm_get (d_Profiles d') n = None)
        else gm_get (d_Profiles d') n = None"
    using MaintainProfileStates_tracks_label [of ?av ?d "''a--b''" "demo_world ''a--b''", OF demo_config_named] by blast
  show ?thesis
    using run spec [of "''old''"] spec [of "''a''"] spec [of "''b''"] av old
    by (auto simp: names fresh_profile_def)
qed

text \<open>
  \<open>MaintainProfileStates\<close> is idempotent: run again with the same label, it changes
  neither the data nor the world, whatever happened to the world in between.
\<close>

theorem MaintainProfileStates_idempotent:
  assumes "MaintainProfileStates d s available w = Some (d', w')" and "named_by_key available"
  shows "MaintainProfileStates d' s available w2 = Some (d', w2)"
  using MaintainProfileStates_idem [OF assms] .

theorem MaintainProfileStates_idempotent_witness:
  "\<exists>d' w'. MaintainProfileStates (demo_data []) ''a'' (Profiles (demo_config [cycle_profile ''a'' []])) (demo_world ''a'') = Some (d', w')
     \<and> MaintainProfileStates d' ''a'' (Profiles (demo_config [cycle_profile ''a'' []])) w' = Some (d', w')"
proof -
  obtain d' w' where run: "MaintainProfileStates (demo_data []) ''a'' (Profiles (demo_config [cycle_profile ''a'' []])) (demo_world ''a'') = Some (d', w')"
    using MaintainProfileStates_total by blast
  from MaintainProfileStates_idempotent [OF run demo_config_named] run show ?thesis by blast
qed

section \<open>Chains\<close>



text \<open>
  A check chain passes only without an error, and then either it is the empty chain or every
  check instance ran without an error and the compiled expression is true of their results.
\<close>

theorem CheckChain_passes_only_on_results:
  assumes "CheckChain_Execute chain p w = Some ((r, err), w')" and "ccr_Passed r"
  shows "err = None \<and>
    (cc_Evaluable chain = None \<and> cc_Plugins chain = [] \<and> w' = w \<or>
     (\<exists>ev bs. cc_Evaluable chain = Some ev \<and> run_checks (cc_Plugins chain) p w = Some (bs, w')
        \<and> ev (fold (\<lambda>(n, b). AList.update n b) bs []) = Inr True))"
  using CheckChain_passed [OF assms] .

theorem CheckChain_passes_only_on_results_witness:
  "\<exists>r w' ev bs. CheckChain_Execute (demo_chain True) (demo_params ''a'' False) (demo_world ''a'') = Some ((r, None), w')
     \<and> cc_Evaluable (demo_chain True) = Some ev
     \<and> run_checks (cc_Plugins (demo_chain True)) (demo_params ''a'' False) (demo_world ''a'') = Some (bs, w')
     \<and> ev (fold (\<lambda>(n, b). AList.update n b) bs []) = Inr True"
proof -
  let ?run = "CheckChain_Execute (demo_chain True) (demo_params ''a'' False) (demo_world ''a'')"
  have "map_option (\<lambda>((r, err), w). ccr_Passed r) ?run = Some True" by code_simp
  then obtain r err w' where run: "?run = Some ((r, err), w')" "ccr_Passed r"
    by (auto simp: split_def)
  have "cc_Plugins (demo_chain True) \<noteq> []" by (simp add: demo_chain_def)
  with CheckChain_passes_only_on_results [OF run] run show ?thesis by auto
qed

text \<open>
  A trigger chain stops at the first trigger that fails: the triggers before it ran
  without an error, those after it did not run, and the error names the failing instance.
\<close>

theorem TriggerChain_stops_at_first_error:
  assumes "TriggerChain_Execute ts p w = Some (Some e, w')"
  shows "\<exists>pre t post e' w1. ts = pre @ t # post
    \<and> TriggerChain_Execute pre p w = Some (None, w1)
    \<and> Trigger (ti_Plugin t) p w1 = Some (Some e', w')
    \<and> e = ChainError (''Trigger instance '' @ ti_Name t @ '' failed'') e'"
  using TriggerChain_error [OF assms] .

theorem TriggerChain_stops_at_first_error_witness:
  "\<exists>pre t post e' w1. [demo_trigger None, demo_trigger (Some (ErrorString ''x'')), demo_trigger None] = pre @ t # post
    \<and> TriggerChain_Execute pre (demo_params ''a'' False) (demo_world ''a'') = Some (None, w1)
    \<and> Trigger (ti_Plugin t) (demo_params ''a'' False) w1 = Some (Some e', demo_world ''a'')
    \<and> ChainError ''Trigger instance demo failed'' (ErrorString ''x'')
        = ChainError (''Trigger instance '' @ ti_Name t @ '' failed'') e'"
  by (rule TriggerChain_stops_at_first_error) (simp add: demo_trigger_def)

text \<open>
  The triggers of a move are those of the first transition of the state with that target,
  not of the transition whose check passed: here only the second transition passes and its
  trigger succeeds, but the failing trigger of the first one runs and blocks the move.
\<close>

theorem triggers_of_first_transition_with_target:
  "watch (Apply (newOperational (demo_chains []
       [edge (demo_chain False) [demo_trigger (Some (ErrorString ''x''))] Required,
        edge (demo_chain True) [demo_trigger None] Required]))
      (demo_data [(''a'', Operational, Operational)]) (demo_params ''a'' False) (demo_world ''a''))
   = Some (Operational, False, 1)"
  by code_simp

section \<open>Configuration\<close>

text \<open>A configuration with one profile, in which a label check guards both ways.\<close>

definition demo_unpack_label :: "(string \<times> string, key_value) unpacker" where
  "demo_unpack_label conf = map_option (\<lambda>(k, v). Inr \<lparr>kv_Key = k, kv_Value = v\<rparr>) conf"

definition demo_unpack_alter :: "(string \<times> string, alteration) unpacker" where
  "demo_unpack_alter conf = map_option (\<lambda>(k, v). Inr \<lparr>al_Key = k, al_Value = v, al_Remove = False\<rparr>) conf"

definition demo_known :: "(unit, string \<times> string) known_plugins" where
  "demo_known = \<lparr>kp_checkers = [(''hasLabel'', HasLabel_New demo_unpack_label)], kp_notifiers = [],
     kp_triggers = [(''alterLabel'', AlterLabel_New demo_unpack_alter)]\<rparr>"

definition demo_decoders :: "'c decoders" where
  "demo_decoders = \<lparr>dec_interval = (\<lambda>_. Inr None), dec_delay = (\<lambda>_. Inr None),
     dec_scheduled = (\<lambda>_. Inr (''19:00'', [''mon'', ''Friday'']))\<rparr>"

definition demo_compile :: gval_compiler where
  "demo_compile expr = Inr (\<lambda>ps. case map_of ps expr of Some b \<Rightarrow> Inr b | None \<Rightarrow> Inl (ErrorString ''unknown''))"

definition demo_state_descriptor :: "string \<Rightarrow> state_descriptor" where
  "demo_state_descriptor target = \<lparr>std_Enter = [], std_Notify = [],
     std_Transitions = [\<lparr>td_Check = ''due'', td_Next = target, td_Trigger = ''mark''\<rparr>]\<rparr>"

definition demo_descriptor :: "string \<Rightarrow> (string \<times> string) config_descriptor" where
  "demo_descriptor target = \<lparr>cd_Requeue = Minute,
     cd_Instances = \<lparr>ids_Check = [\<lparr>id_Name = ''due'', id_Type = ''hasLabel'', id_Config = Some (''due'', ''true'')\<rparr>],
       ids_Notify = [],
       ids_Trigger = [\<lparr>id_Name = ''mark'', id_Type = ''alterLabel'', id_Config = Some (''mark'', ''x'')\<rparr>]\<rparr>,
     cd_Profiles = [\<lparr>prd_Name = ''flatcar'', prd_Operational = demo_state_descriptor ''maintenance-required'',
       prd_MaintenanceRequired = demo_state_descriptor ''in-maintenance'',
       prd_InMaintenance = demo_state_descriptor target\<rparr>],
     cd_LabelFilter = []\<rparr>"

definition demo_load :: "string \<Rightarrow> (error + (unit, string \<times> string) config) option" where
  "demo_load target =
     LoadConfig (\<lambda>_. Inr (demo_descriptor target)) demo_decoders id demo_compile demo_known ([], [])"

text \<open>
  C27: A configuration that loads is well formed: every profile is stored under its own name, has
  chains for exactly the three states, its transitions lead to valid states and can be evaluated,
  every notification in it has a schedule, and the built-in profile for unlabelled nodes is there.
\<close>

theorem LoadConfig_well_formed:
  assumes "LoadConfig unpack dec wrap gval known conf = Some (Inr cfg)"
  shows "config_ok cfg \<and> gm_get (Profiles cfg) DefaultProfileName \<noteq> None \<and> registry_ok (cfg_Registry cfg)"
  using assms
proof (cases rule: LoadConfig_stages)
  case (1 global r)
  with loadProfiles_ok [OF 1(2,4)] show ?thesis by (simp add: config_ok_def)
qed

theorem LoadConfig_well_formed_witness:
  "\<exists>cfg. demo_load ''operational'' = Some (Inr cfg)
     \<and> config_ok cfg \<and> gm_get (Profiles cfg) DefaultProfileName \<noteq> None \<and> registry_ok (cfg_Registry cfg)"
proof -
  have "map_option isl (demo_load ''operational'') = Some False" by code_simp
  then obtain cfg where run: "demo_load ''operational'' = Some (Inr cfg)"
    by (cases "demo_load ''operational''"; cases "the (demo_load ''operational'')") simp_all
  with LoadConfig_well_formed [OF run [unfolded demo_load_def]] show ?thesis by blast
qed

text \<open>
  A transition to a label that is not one of the three states is refused when the
  configuration is loaded.
\<close>

theorem load_transitions_invalid_target:
  assumes "t \<in> set ts" and "td_Next t \<notin> {''operational'', ''maintenance-required'', ''in-maintenance''}"
  shows "\<exists>e. load_transitions gval r ts = Inl e"
proof -
  have "ValidateLabel (td_Next t) \<noteq> Inr l" for l
    using assms(2) by (simp add: ValidateLabel_Inr valid_labels_def label_defs)
  with assms(1) show ?thesis
    by (induction ts) (auto split: sum.splits)
qed

theorem load_transitions_invalid_target_witness:
  "\<exists>e. load_transitions demo_compile NewRegistry
     [\<lparr>td_Check = [], td_Next = ''operational'', td_Trigger = []\<rparr>, \<lparr>td_Check = [], td_Next = ''broken'', td_Trigger = []\<rparr>] = Inl e"
  by (rule load_transitions_invalid_target [of "\<lparr>td_Check = [], td_Next = ''broken'', td_Trigger = []\<rparr>"]) simp_all

text \<open>
  The parser of profile labels and the label agree: joining profile names that do not
  contain the separator and splitting again gives the same profiles in the same order.
\<close>

theorem profile_label_roundtrip:
  assumes "names \<noteq> []" and "strings_Join names profileSeparator \<noteq> []"
    and "\<forall>n \<in> set names. clean_for profileSeparator n"
  shows "strings_Split (or_default (strings_Join names profileSeparator)) profileSeparator = names
    \<and> (\<forall>n. ContainsProfile (strings_Join names profileSeparator) n \<longleftrightarrow> n \<in> set names)"
  using assms Split_Join [of profileSeparator names]
  by (simp add: or_default_def ContainsProfile_def profileSeparator_def)

theorem profile_label_roundtrip_witness:
  "strings_Split (or_default ''flatcar--kube-let'') profileSeparator = [''flatcar'', ''kube-let'']
    \<and> (\<forall>n. ContainsProfile ''flatcar--kube-let'' n \<longleftrightarrow> n \<in> {''flatcar'', ''kube-let''})"
proof -
  have "list_all (\<lambda>n. list_all (\<lambda>i. \<not> prefix profileSeparator (drop i (n @ profileSeparator))) [0..<length n]) [''flatcar'', ''kube-let'']"
    by code_simp
  then have clean: "\<forall>n \<in> set [''flatcar'', ''kube-let'']. clean_for profileSeparator n"
    by (auto simp: clean_for_def list_all_iff atLeast0LessThan)
  have join: "strings_Join [''flatcar'', ''kube-let''] profileSeparator = ''flatcar--kube-let''" by code_simp
  show ?thesis
    using profile_label_roundtrip [of "[''flatcar'', ''kube-let'']", OF _ _ clean] unfolding join by simp
qed

section \<open>Notifications and metrics\<close>

text \<open>
  C36: A schedule built by \<open>newNotifyScheduled\<close> fires exactly on the configured weekdays, from
  the configured time of day on, and when the day of the month differs from that of the last
  notification.
\<close>

lemma time_Parse_HHMM_utc: "time_Parse_HHMM s = Inr t \<Longrightarrow> t_off t = 0"
  by (auto simp: time_Parse_HHMM_def time_Date_def split: option.splits prod.splits list.splits char.splits bool.splits if_splits)

theorem NotifyScheduled_fires_iff:
  assumes "newNotifyScheduled dec conf = Inr (NotifyScheduled inst ds)"
  shows "NotifyScheduled_ShouldNotify inst ds p \<longleftrightarrow>
     Weekday (nd_Time (sn_Current p)) \<in> set ds
     \<and> ns_of_day inst \<le> ns_of_day (nd_Time (sn_Current p))
     \<and> DayOfMonth (nd_Time (sn_Last p)) \<noteq> DayOfMonth (nd_Time (sn_Current p))"
proof (rule NotifyScheduled_iff)
  show "t_off inst = 0"
    using assms time_Parse_HHMM_utc by (auto simp: newNotifyScheduled_def split: sum.splits prod.splits if_splits)
qed

definition demo_notify :: "gotime \<Rightarrow> gotime \<Rightarrow> should_notify_params" where
  "demo_notify cur prev = \<lparr>sn_Current = \<lparr>nd_State = Required, nd_Time = cur\<rparr>,
     sn_Last = \<lparr>nd_State = Required, nd_Time = prev\<rparr>, sn_StateChange = prev\<rparr>"

theorem NotifyScheduled_fires_iff_witness:
  "NotifyScheduled_ShouldNotify (time_Date 0 1 1 19 0 0 0) [Monday, Friday]
       (demo_notify (time_Date 2021 10 15 19 30 0 0) (time_Date 2021 10 11 19 5 0 0))
   \<and> Weekday (time_Date 2021 10 15 19 30 0 0) \<in> {Monday, Friday}"
proof -
  have "newNotifyScheduled demo_decoders () = Inr (NotifyScheduled (time_Date 0 1 1 19 0 0 0) [Monday, Friday])"
    by code_simp
  note iff = NotifyScheduled_fires_iff [OF this]
  have "Weekday (time_Date 2021 10 15 19 30 0 0) = Friday"
    "ns_of_day (time_Date 0 1 1 19 0 0 0) \<le> ns_of_day (time_Date 2021 10 15 19 30 0 0)"
    "DayOfMonth (time_Date 2021 10 15 19 30 0 0) = 15" "DayOfMonth (time_Date 2021 10 11 19 5 0 0) = 11"
    by code_simp+
  then show ?thesis by (simp add: iff demo_notify_def)
qed

text \<open>
  A notification that was never sent (its recorded time is the zero time) is not sent on
  the first day of a month by a schedule, whatever the weekday and the time of day.
\<close>

theorem NotifyScheduled_silent_on_the_first:
  assumes "nd_Time (sn_Last p) = zero_time" and "DayOfMonth (nd_Time (sn_Current p)) = 1"
  shows "\<not> NotifyScheduled_ShouldNotify inst ds p"
proof -
  have "DayOfMonth zero_time = 1" by code_simp
  with assms show ?thesis by (simp add: NotifyScheduled_ShouldNotify_def Let_def split_def)
qed

theorem NotifyScheduled_silent_on_the_first_witness:
  "\<not> NotifyScheduled_ShouldNotify (time_Date 0 1 1 8 0 0 0) [Friday] (demo_notify (time_Date 2021 10 1 12 0 0 0) zero_time)
   \<and> Weekday (time_Date 2021 10 1 12 0 0 0) = Friday"
proof
  have "DayOfMonth (time_Date 2021 10 1 12 0 0 0) = 1" by code_simp
  then show "\<not> NotifyScheduled_ShouldNotify (time_Date 0 1 1 8 0 0 0) [Friday] (demo_notify (time_Date 2021 10 1 12 0 0 0) zero_time)"
    by (intro NotifyScheduled_silent_on_the_first) (simp_all add: demo_notify_def)
  show "Weekday (time_Date 2021 10 1 12 0 0 0) = Friday" by code_simp
qed

text \<open>
  C37: Sending the notifications of a state stops at the first instance that fails, and that
  instance has no new time recorded (a first entry is the zero time), so it is due again in the
  next reconciliation. The states of the profiles and the times of other instances are untouched.
\<close>

theorem notifyDefault_records_only_sent:
  assumes "notifyDefault p d ns w = Some ((Some e, d'), w')"
  shows "d_Profiles d' = d_Profiles d
    \<and> (\<forall>k. k \<notin> ni_Name ` set ns \<longrightarrow> gm_get (d_Notifications d') k = gm_get (d_Notifications d) k)
    \<and> (\<exists>pre n post d1 w1. ns = pre @ n # post \<and> notifyDefault p d pre w = Some ((None, d1), w1)
         \<and> notify_instance p d1 n w1 = Some ((Some e, d'), w')
         \<and> gm_get (d_Notifications d') (ni_Name n) \<in> {gm_get (d_Notifications d1) (ni_Name n), Some zero_time})"
  using notifyDefault_frame [OF assms] notifyDefault_error [OF assms] notify_instance_failed by blast

definition demo_notification :: "string \<Rightarrow> error option \<Rightarrow> unit notification_instance" where
  "demo_notification name err = \<lparr>ni_Plugin = \<lparr>Notify = (\<lambda>p w. Some (err, w)), nf_ID = ''demo''\<rparr>,
     ni_Schedule = Some (NotifyPeriodic Hour), ni_Name = name\<rparr>"

definition demo_notifications :: "unit notification_chain" where
  "demo_notifications = [demo_notification ''slack'' None, demo_notification ''mail'' (Some (ErrorString ''x''))]"

theorem notifyDefault_records_only_sent_witness:
  "\<exists>e d' w'. notifyDefault (demo_params ''a'' False) (demo_data [(''a'', Required, Operational)]) demo_notifications
       (demo_world ''a'') = Some ((Some e, d'), w')
     \<and> (\<exists>pre n post d1 w1. demo_notifications = pre @ n # post
         \<and> notifyDefault (demo_params ''a'' False) (demo_data [(''a'', Required, Operational)]) pre (demo_world ''a'')
             = Some ((None, d1), w1)
         \<and> notify_instance (demo_params ''a'' False) d1 n w1 = Some ((Some e, d'), w')
         \<and> gm_get (d_Notifications d') (ni_Name n) \<in> {gm_get (d_Notifications d1) (ni_Name n), Some zero_time})"
proof -
  let ?run = "notifyDefault (demo_params ''a'' False) (demo_data [(''a'', Required, Operational)]) demo_notifications
       (demo_world ''a'')"
  have "map_option (\<lambda>((err, d), w). err = None) ?run = Some False" by code_simp
  then obtain e d' w' where run: "?run = Some ((Some e, d'), w')" by (auto simp: split_def)
  from run notifyDefault_records_only_sent [OF run, THEN conjunct2, THEN conjunct2] show ?thesis
    by (intro exI [of _ e] exI [of _ d'] exI [of _ w']) (rule conjI)
qed



text \<open>
  Touching the shuffle metrics, which every reconciliation does for every profile, never
  changes the value of a series, also when it stops with an error.
\<close>

theorem TouchShuffles_keeps_values:
  "shuffle_series l (snd (TouchShuffles c n p w)) = shuffle_series l w
   \<and> w_node (snd (TouchShuffles c n p w)) = w_node w"
  using TouchShuffles_series [of c n p w] TouchShuffles_frame [of c n p w]
  by (cases "TouchShuffles c n p w") (auto simp: metrics_frame_def)

section \<open>Node information cache and the data annotation\<close>


definition demo_info :: "string \<Rightarrow> node_info" where
  "demo_info n = \<lparr>ninf_Node = n, ninf_Profiles = [], ninf_Labels = [], ninf_Updated = zero_time\<rparr>"


text \<open>
  What the cache holds for a node does not depend on how the operations of the reconcilers
  are interleaved: any interleaving with operations on other nodes gives the same entry.
\<close>

theorem cache_interleaving_irrelevant:
  assumes "fst st \<noteq> None" and "zs \<in> shuffles xs ys" and "\<forall>y \<in> set ys. op_node y \<noteq> n"
  shows "\<exists>st1 st2. run_ops cache_step zs st = Some st1 \<and> run_ops cache_step xs st = Some st2
    \<and> cache_view st1 n = cache_view st2 n"
  using nic.interleaving_irrelevant [OF assms] .

theorem cache_interleaving_irrelevant_witness:
  "\<exists>st1 st2. run_ops cache_step [DeleteOp ''n2'', UpdateOp (demo_info ''n1'')] (NewNodeInfoCache, demo_world ''a'') = Some st1
     \<and> run_ops cache_step [UpdateOp (demo_info ''n1'')] (NewNodeInfoCache, demo_world ''a'') = Some st2
     \<and> cache_view st1 ''n1'' = cache_view st2 ''n1''"
  by (rule cache_interleaving_irrelevant [where ys = "[DeleteOp ''n2'']"])
    (simp_all add: NewNodeInfoCache_def demo_info_def)

text \<open>
  C26: A successful reconciliation stores its result: the data that the next reconciliation
  reads from the annotation is the data this one computed, for a codec that decodes what it
  encodes.
\<close>

theorem reconcileInternal_data_roundtrip:
  assumes "reconcileInternal codec rp nodes w = Some (None, nodes', w')"
    and "\<And>d s. cd_encode codec d = Inr s \<Longrightarrow> s \<noteq> [] \<and> cd_decode codec s = Inr d"
  shows "\<exists>d h. ParseData (cd_decode codec) (gm_str (n_Annotations (w_node w)) DataAnnotationKey) = Inr d
    \<and> HandleNode rp \<lparr>hs_data = d, hs_cache = nodes, hs_world = w\<rparr> = Some (None, h)
    \<and> ParseData (cd_decode codec) (gm_str (n_Annotations (w_node w')) DataAnnotationKey)
        = Inr ((hs_data h)\<lparr>d_Notifications := gm_ensure (d_Notifications (hs_data h))\<rparr>)"
proof -
  obtain d h node where d: "ParseData (cd_decode codec) (gm_str (n_Annotations (w_node w)) DataAnnotationKey) = Inr d"
    and h: "HandleNode rp \<lparr>hs_data = d, hs_cache = nodes, hs_world = w\<rparr> = Some (None, h)"
    and wr: "writeData codec (hs_data h) (w_node (hs_world h)) = Some (None, node)" and w': "w' = (hs_world h)\<lparr>w_node := node\<rparr>"
    using assms(1) by (auto simp: reconcileInternal_def bind_eq_Some_conv split: sum.splits option.splits)
  obtain s an where s: "cd_encode codec (hs_data h) = Inr s"
    and an: "gm_put DataAnnotationKey s (gm_ensure (n_Annotations (w_node (hs_world h)))) = Some an"
    and node: "node = (w_node (hs_world h))\<lparr>n_Annotations := an\<rparr>"
    using wr by (auto simp: writeData_def bind_eq_Some_conv split: sum.splits)
  have "gm_str (n_Annotations (w_node w')) DataAnnotationKey = s"
    using gm_get_put [OF an] by (simp add: w' node gm_str_def)
  with assms(2) [OF s] d h show ?thesis by (auto simp: ParseData_def)
qed

text \<open>A codec that knows one value.\<close>

definition demo_codec :: "data \<Rightarrow> codec" where
  "demo_codec d = \<lparr>cd_decode = (\<lambda>s. if s = ''x'' then Inr d else Inl (ErrorString ''decode'')),
     cd_encode = (\<lambda>d'. if d' = d then Inr ''x'' else Inl (ErrorString ''encode''))\<rparr>"

theorem reconcileInternal_data_roundtrip_witness:
  "\<exists>D nodes' w' h. reconcileInternal (demo_codec D) (demo_rp [cycle_profile ''a'' []]) gm_make (demo_world ''a'') = Some (None, nodes', w')
     \<and> HandleNode (demo_rp [cycle_profile ''a'' []]) ((demo_state ''a'' [])\<lparr>hs_data := empty_data\<lparr>d_Notifications := gm_make\<rparr>\<rparr>) = Some (None, h)
     \<and> ParseData (cd_decode (demo_codec D)) (gm_str (n_Annotations (w_node w')) DataAnnotationKey)
         = Inr ((hs_data h)\<lparr>d_Notifications := gm_ensure (d_Notifications (hs_data h))\<rparr>)"
proof -
  let ?rp = "demo_rp [cycle_profile ''a'' []]"
  let ?h0 = "(demo_state ''a'' [])\<lparr>hs_data := empty_data\<lparr>d_Notifications := gm_make\<rparr>\<rparr>"
  have h0: "?h0 = \<lparr>hs_data = empty_data\<lparr>d_Notifications := gm_make\<rparr>, hs_cache = gm_make, hs_world = demo_world ''a''\<rparr>"
    by (simp add: demo_state_def)
  have "observe [''a''] (HandleNode ?rp ?h0) = Some (True, [Some (Required, Operational)])" by code_simp
  then obtain h where h: "HandleNode ?rp ?h0 = Some (None, h)" by (auto elim: observe_ok)
  let ?c = "demo_codec (hs_data h)"
  have parse: "ParseData (cd_decode ?c) (gm_str (n_Annotations (w_node (demo_world ''a''))) DataAnnotationKey)
      = Inr (empty_data\<lparr>d_Notifications := gm_make\<rparr>)"
    by (simp add: ParseData_def demo_world_def world_of_def demo_node_def gm_str_def gm_get_def empty_data_def gm_ensure_def gm_make_def)
  have enc: "cd_encode ?c (hs_data h) = Inr ''x''" by (simp add: demo_codec_def)
  have "\<exists>nodes' w'. reconcileInternal ?c ?rp gm_make (demo_world ''a'') = Some (None, nodes', w')"
    using h gm_put_total [OF gm_ensure_not_nil, of DataAnnotationKey "''x''" "n_Annotations (w_node (hs_world h))"]
    by (auto simp: reconcileInternal_def parse h0 writeData_def enc)
  then obtain nodes' w' where run: "reconcileInternal ?c ?rp gm_make (demo_world ''a'') = Some (None, nodes', w')" by blast
  have "\<And>d s. cd_encode ?c d = Inr s \<Longrightarrow> s \<noteq> [] \<and> cd_decode ?c s = Inr d"
    by (auto simp: demo_codec_def split: if_splits)
  from reconcileInternal_data_roundtrip [OF run this] h parse
  have "ParseData (cd_decode ?c) (gm_str (n_Annotations (w_node w')) DataAnnotationKey)
      = Inr ((hs_data h)\<lparr>d_Notifications := gm_ensure (d_Notifications (hs_data h))\<rparr>)"
    unfolding h0 by auto
  with run h show ?thesis by blast
qed

end
